theory Spec2Isabelle
  imports Complex_Main "HOL-Library.List_Lexorder"
begin

section \<open>Numbers and arrays\<close>

text \<open>
  The program computes with numpy \<open>float64\<close> arrays. Finite values are modelled by
  exact reals (rounding and overflow are outside the model); the non-finite values that
  numpy's division produces instead of raising are kept as values of their own, so that
  a division by zero is a branch of the model. Zero carries no sign: every divisor of
  the alignment code is a sum of squares.
\<close>

datatype fnum = Fin real | PInf | NInf | NaN

fun fneg :: "fnum \<Rightarrow> fnum" where
  "fneg (Fin a) = Fin (- a)"
| "fneg PInf = NInf"
| "fneg NInf = PInf"
| "fneg NaN = NaN"

fun fadd :: "fnum \<Rightarrow> fnum \<Rightarrow> fnum" where
  "fadd NaN _ = NaN"
| "fadd _ NaN = NaN"
| "fadd (Fin a) (Fin b) = Fin (a + b)"
| "fadd PInf NInf = NaN"
| "fadd NInf PInf = NaN"
| "fadd PInf _ = PInf"
| "fadd NInf _ = NInf"
| "fadd (Fin a) PInf = PInf"
| "fadd (Fin a) NInf = NInf"

definition fsub :: "fnum \<Rightarrow> fnum \<Rightarrow> fnum" where
  "fsub a b = fadd a (fneg b)"

definition inf_of_sign :: "bool \<Rightarrow> fnum" where
  "inf_of_sign positive = (if positive then PInf else NInf)"

fun fmul :: "fnum \<Rightarrow> fnum \<Rightarrow> fnum" where
  "fmul NaN _ = NaN"
| "fmul _ NaN = NaN"
| "fmul (Fin a) (Fin b) = Fin (a * b)"
| "fmul PInf (Fin b) = (if b = 0 then NaN else inf_of_sign (0 < b))"
| "fmul NInf (Fin b) = (if b = 0 then NaN else inf_of_sign (b < 0))"
| "fmul (Fin a) PInf = (if a = 0 then NaN else inf_of_sign (0 < a))"
| "fmul (Fin a) NInf = (if a = 0 then NaN else inf_of_sign (a < 0))"
| "fmul PInf PInf = PInf"
| "fmul NInf NInf = PInf"
| "fmul PInf NInf = NInf"
| "fmul NInf PInf = NInf"

fun fdiv :: "fnum \<Rightarrow> fnum \<Rightarrow> fnum" where
  "fdiv NaN _ = NaN"
| "fdiv _ NaN = NaN"
| "fdiv (Fin a) (Fin b) =
     (if b \<noteq> 0 then Fin (a / b) else if a = 0 then NaN else inf_of_sign (0 < a))"
| "fdiv (Fin a) PInf = Fin 0"
| "fdiv (Fin a) NInf = Fin 0"
| "fdiv PInf (Fin b) = inf_of_sign (0 \<le> b)"
| "fdiv NInf (Fin b) = inf_of_sign (b < 0)"
| "fdiv PInf PInf = NaN"
| "fdiv PInf NInf = NaN"
| "fdiv NInf PInf = NaN"
| "fdiv NInf NInf = NaN"

text \<open>The comparisons of IEEE numbers: every comparison with \<open>NaN\<close> is false.\<close>

fun fle :: "fnum \<Rightarrow> fnum \<Rightarrow> bool" where
  "fle NaN _ = False"
| "fle _ NaN = False"
| "fle NInf _ = True"
| "fle _ PInf = True"
| "fle (Fin a) (Fin b) = (a \<le> b)"
| "fle PInf _ = False"
| "fle (Fin a) NInf = False"

fun flt :: "fnum \<Rightarrow> fnum \<Rightarrow> bool" where
  "flt NaN _ = False"
| "flt _ NaN = False"
| "flt PInf _ = False"
| "flt _ NInf = False"
| "flt (Fin a) (Fin b) = (a < b)"
| "flt NInf _ = True"
| "flt (Fin a) PInf = True"

text \<open>
  A point is a row of three coordinates, a point set an \<open>n \<times> 3\<close> array, that is a
  list of rows; a \<open>3 \<times> 3\<close> matrix is the triple of its rows.
\<close>

type_synonym vec3 = "real \<times> real \<times> real"
type_synonym mat3 = "vec3 \<times> vec3 \<times> vec3"
type_synonym fvec3 = "fnum \<times> fnum \<times> fnum"

datatype error = ValueError | IndexError | TypeError | KeyError | AttributeError
  | RuntimeError | LinAlgError

fun dot :: "vec3 \<Rightarrow> vec3 \<Rightarrow> real" where
  "dot (a, b, c) (x, y, z) = a * x + b * y + c * z"

fun vadd :: "vec3 \<Rightarrow> vec3 \<Rightarrow> vec3" where
  "vadd (a, b, c) (x, y, z) = (a + x, b + y, c + z)"

fun smult :: "real \<Rightarrow> vec3 \<Rightarrow> vec3" where
  "smult k (x, y, z) = (k * x, k * y, k * z)"

definition vzero :: vec3 where
  "vzero = (0, 0, 0)"

fun transpose3 :: "mat3 \<Rightarrow> mat3" where
  "transpose3 ((a, b, c), (d, e, f), (g, h, i)) = ((a, d, g), (b, e, h), (c, f, i))"

fun mat_vec :: "mat3 \<Rightarrow> vec3 \<Rightarrow> vec3" where
  "mat_vec (r1, r2, r3) v = (dot r1 v, dot r2 v, dot r3 v)"

text \<open>\<open>np.matmul\<close> of two \<open>3 \<times> 3\<close> arrays: row \<open>i\<close> of the product is row \<open>i\<close> of
  the left factor against the columns of the right one.\<close>

fun matmul :: "mat3 \<Rightarrow> mat3 \<Rightarrow> mat3" where
  "matmul (r1, r2, r3) B =
     (mat_vec (transpose3 B) r1, mat_vec (transpose3 B) r2, mat_vec (transpose3 B) r3)"

definition scale3 :: "real \<Rightarrow> mat3 \<Rightarrow> mat3" where
  \<comment> \<open>a scalar times a \<open>3 \<times> 3\<close> array\<close>
  "scale3 k A = (case A of (r1, r2, r3) \<Rightarrow> (smult k r1, smult k r2, smult k r3))"

definition ident3 :: mat3 where
  "ident3 = ((1, 0, 0), (0, 1, 0), (0, 0, 1))"

fun det3 :: "mat3 \<Rightarrow> real" where
  "det3 ((a, b, c), (d, e, f), (g, h, i)) =
     a * (e * i - f * h) - b * (d * i - f * g) + c * (d * h - e * g)"

text \<open>\<open>np.matmul(A.T, B)\<close> for an \<open>n \<times> 3\<close> array \<open>A\<close> and an \<open>m \<times> 3\<close> array \<open>B\<close>:
  the \<open>3 \<times> 3\<close> array whose entry \<open>(j, k)\<close> is the sum over the points of
  \<open>A[i][j] * B[i][k]\<close>; numpy raises ValueError unless \<open>n = m\<close>.\<close>

fun outer_sum :: "vec3 list \<Rightarrow> vec3 list \<Rightarrow> mat3" where
  "outer_sum (a # as) (b # bs) =
     (case (a, outer_sum as bs) of
        ((x, y, z), (r1, r2, r3)) \<Rightarrow>
          (vadd (smult x b) r1, vadd (smult y b) r2, vadd (smult z b) r3))"
| "outer_sum _ _ = (vzero, vzero, vzero)"

definition matmul_T :: "vec3 list \<Rightarrow> vec3 list \<Rightarrow> error + mat3" where
  "matmul_T A B = (if length A \<noteq> length B then Inl ValueError else Inr (outer_sum A B))"

text \<open>\<open>np.tensordot(A, B)\<close> with the default \<open>axes=2\<close> on two \<open>n \<times> 3\<close> arrays:
  the sum of all products of corresponding entries.\<close>

fun tensordot :: "vec3 list \<Rightarrow> vec3 list \<Rightarrow> real" where
  "tensordot (a # as) (b # bs) = dot a b + tensordot as bs"
| "tensordot _ _ = 0"

fun fdot :: "fvec3 \<Rightarrow> fvec3 \<Rightarrow> fnum" where
  "fdot (a, b, c) (x, y, z) = fadd (fadd (fmul a x) (fmul b y)) (fmul c z)"

fun ftensordot :: "fvec3 list \<Rightarrow> fvec3 list \<Rightarrow> fnum" where
  "ftensordot (a # as) (b # bs) = fadd (fdot a b) (ftensordot as bs)"
| "ftensordot _ _ = Fin 0"

fun fscale :: "fnum \<Rightarrow> vec3 \<Rightarrow> fvec3" where
  "fscale s (x, y, z) = (fmul s (Fin x), fmul s (Fin y), fmul s (Fin z))"

fun fdiff :: "vec3 \<Rightarrow> fvec3 \<Rightarrow> fvec3" where
  "fdiff (a, b, c) (x, y, z) = (fsub (Fin a) x, fsub (Fin b) y, fsub (Fin c) z)"

section \<open>The aligner: rotation, scale and symmetry measure\<close>

text \<open>
  \<open>numpy.linalg.svd\<close> is a library routine; the alignment functions take it as the
  parameter \<open>svd\<close>, which returns \<open>(U, S, Vt)\<close> for a \<open>3 \<times> 3\<close> array.
\<close>

type_synonym svd_fun = "mat3 \<Rightarrow> mat3 \<times> vec3 \<times> mat3"

definition find_rotation :: "svd_fun \<Rightarrow> vec3 list \<Rightarrow> vec3 list \<Rightarrow> error + mat3" where
  "find_rotation svd points_distorted points_perfect =
     (case matmul_T points_distorted points_perfect of
        Inl e \<Rightarrow> Inl e
      | Inr H \<Rightarrow>
          (case svd H of (U, S, Vt) \<Rightarrow> Inr (matmul (transpose3 Vt) (transpose3 U))))"

text \<open>\<open>find_scaling_factor\<close> returns the scale, the rotated points and the perfect
  points; the quotient of the two tensor products is numpy's, so a zero divisor gives a
  non-finite scale and no exception.\<close>

definition find_scaling_factor ::
  "vec3 list \<Rightarrow> vec3 list \<Rightarrow> mat3 \<Rightarrow> fnum \<times> vec3 list \<times> vec3 list" where
  "find_scaling_factor points_distorted points_perfect rot =
     (let rotated_coords = map (mat_vec rot) points_distorted;
          num = tensordot rotated_coords points_perfect;
          denom = tensordot rotated_coords rotated_coords
      in (fdiv (Fin num) (Fin denom), rotated_coords, points_perfect))"

record sm_info =
  symmetry_measure_of :: fnum
  scaling_factor :: "fnum option"
  rotation_matrix :: "mat3 option"
  translation_vector :: "vec3 option"

definition symmetry_measure :: "svd_fun \<Rightarrow> vec3 list \<Rightarrow> vec3 list \<Rightarrow> error + sm_info" where
  "symmetry_measure svd points_distorted points_perfect =
     (if length points_distorted = 1 then
        Inr \<lparr>symmetry_measure_of = Fin 0, scaling_factor = None, rotation_matrix = None,
             translation_vector = None\<rparr>
      else
        (case find_rotation svd points_distorted points_perfect of
           Inl e \<Rightarrow> Inl e
         | Inr rot \<Rightarrow>
             (case find_scaling_factor points_distorted points_perfect rot of
                (scaling, rotated_coords, points_perfect') \<Rightarrow>
                  (let rotated_coords' = map (fscale scaling) rotated_coords;
                       diff = map2 fdiff points_perfect' rotated_coords';
                       num = ftensordot diff diff;
                       denom = tensordot points_perfect' points_perfect'
                   in Inr \<lparr>symmetry_measure_of = fmul (fdiv num (Fin denom)) (Fin 100),
                           scaling_factor = Some scaling,
                           rotation_matrix = Some rot,
                           translation_vector = None\<rparr>))))"

section \<open>Matching algorithms of a reference geometry\<close>

text \<open>Checked indexing: a Python list read out of range raises IndexError.\<close>

definition nth_or_raise :: "'a list \<Rightarrow> nat \<Rightarrow> error + 'a" where
  "nth_or_raise xs i = (if i < length xs then Inr (xs ! i) else Inl IndexError)"

fun mapE :: "('a \<Rightarrow> error + 'b) \<Rightarrow> 'a list \<Rightarrow> error + 'b list" where
  "mapE f [] = Inr []"
| "mapE f (x # xs) =
     (case f x of
        Inl e \<Rightarrow> Inl e
      | Inr y \<Rightarrow> (case mapE f xs of Inl e \<Rightarrow> Inl e | Inr ys \<Rightarrow> Inr (y # ys)))"

text \<open>\<open>[xs[ii] for ii in idx]\<close>, and \<open>ndarray.take\<close> along the first axis.\<close>

definition take_indices :: "'a list \<Rightarrow> nat list \<Rightarrow> error + 'a list" where
  "take_indices xs idx = mapE (nth_or_raise xs) idx"

text \<open>\<open>np.argsort\<close> of a list of indices: the positions in ascending order of their
  entries (positions of equal entries in their own order).\<close>

definition argsort :: "nat list \<Rightarrow> nat list" where
  "argsort xs = map snd (sort_key fst (zip xs [0..<length xs]))"

record separation_plane =
  mirror_plane :: bool
  plane_points :: "nat list"
  point_groups :: "nat list list"
  hash_of :: nat
  ordered_plane :: bool
  ordered_point_groups :: "bool list"
  explicit_permutations :: "nat list list option"
  explicit_optimized_permutations :: "nat list list option"
  permutations_attr :: "nat list list option"
  multiplicity :: "nat option"
  other_plane_points :: "nat list list option"
  minimum_number_of_points :: "nat option"
  maximum_number_of_points :: nat
  ref_separation_perm :: "nat list"
  argsorted_ref_separation_perm :: "nat list"
  separation :: "nat \<times> nat \<times> nat"

text \<open>The arguments of \<open>SeparationPlane.__init__\<close>; \<open>None\<close> is the default of every
  optional one, and \<open>point_groups\<close> has the default \<open>None\<close> as well.\<close>

record separation_plane_args =
  arg_plane_points :: "nat list"
  arg_mirror_plane :: bool
  arg_ordered_plane :: bool
  arg_point_groups :: "nat list list option"
  arg_ordered_point_groups :: "bool list option"
  arg_explicit_permutations :: "nat list list option"
  arg_minimum_number_of_points :: "nat option"
  arg_explicit_optimized_permutations :: "nat list list option"
  arg_multiplicity :: "nat option"
  arg_other_plane_points :: "nat list list option"

definition SeparationPlane_init :: "separation_plane_args \<Rightarrow> error + separation_plane" where
  "SeparationPlane_init a =
     (case arg_point_groups a of
        None \<Rightarrow> Inl TypeError
      | Some pgs \<Rightarrow>
          (case nth_or_raise pgs 0 of
             Inl e \<Rightarrow> Inl e
           | Inr g0 \<Rightarrow>
               (case nth_or_raise pgs 1 of
                  Inl e \<Rightarrow> Inl e
                | Inr g1 \<Rightarrow>
                    if length g0 > length g1 then Inl RuntimeError
                    else
                      (let rsp = g0 @ arg_plane_points a @ g1
                       in Inr \<lparr>mirror_plane = arg_mirror_plane a,
                               plane_points = arg_plane_points a,
                               point_groups = pgs,
                               hash_of = 10000 * length (arg_plane_points a)
                                           + 100 * length g0 + length g1,
                               ordered_plane = arg_ordered_plane a,
                               ordered_point_groups =
                                 (case arg_ordered_point_groups a of
                                    None \<Rightarrow> [False, False] | Some o' \<Rightarrow> o'),
                               explicit_permutations = arg_explicit_permutations a,
                               explicit_optimized_permutations =
                                 arg_explicit_optimized_permutations a,
                               permutations_attr =
                                 (case arg_explicit_optimized_permutations a of
                                    Some ps \<Rightarrow> Some ps
                                  | None \<Rightarrow> arg_explicit_permutations a),
                               multiplicity = arg_multiplicity a,
                               other_plane_points = arg_other_plane_points a,
                               minimum_number_of_points = arg_minimum_number_of_points a,
                               maximum_number_of_points = length (arg_plane_points a),
                               ref_separation_perm = rsp,
                               argsorted_ref_separation_perm = argsort rsp,
                               separation =
                                 (length g0, length (arg_plane_points a), length g1)\<rparr>))))"

text \<open>The property \<open>permutations\<close> reads the attribute \<open>_permutations\<close>, which the
  constructor sets only when one of the two explicit lists is given.\<close>

definition permutations :: "separation_plane \<Rightarrow> error + nat list list" where
  "permutations sp = (case permutations_attr sp of None \<Rightarrow> Inl AttributeError | Some ps \<Rightarrow> Inr ps)"

text \<open>\<open>itertools.permutations\<close>: all orders of a list, by position, in lexicographic
  order of the positions.\<close>

fun perms_upto :: "nat \<Rightarrow> 'a list \<Rightarrow> 'a list list" where
  "perms_upto 0 xs = [[]]"
| "perms_upto (Suc n) xs =
     concat (map (\<lambda>i. map ((#) (xs ! i)) (perms_upto n (take i xs @ drop (Suc i) xs)))
                 [0..<length xs])"

definition itertools_permutations :: "'a list \<Rightarrow> 'a list list" where
  "itertools_permutations xs = perms_upto (length xs) xs"

definition rotate_right :: "'a list \<Rightarrow> nat \<Rightarrow> 'a list" where
  \<comment> \<open>\<open>s[-n:] + s[:-n]\<close>, where \<open>s[-0:]\<close> is the whole list and \<open>s[:-0]\<close> is empty\<close>
  "rotate_right s n =
     (if n = 0 then s @ [] else drop (length s - n) s @ take (length s - n) s)"

definition group_perms :: "bool \<Rightarrow> nat list \<Rightarrow> nat list list" where
  "group_perms ordered g =
     (if ordered then
        map (rotate_right g) [0..<length g] @ map (rotate_right (rev g)) [0..<length g]
      else itertools_permutations g)"

text \<open>\<open>safe_separation_permutations\<close> with \<open>add_opposite=False\<close>. The method
  memoises its list; the finder calls it with the plane's own flags only, for which the
  memoised list is the one computed here.\<close>

definition safe_separation_permutations ::
  "separation_plane \<Rightarrow> bool \<Rightarrow> bool list option \<Rightarrow> error + nat list list" where
  "safe_separation_permutations sp ordered_plane_arg ordered_point_groups_arg =
     (case nth_or_raise (point_groups sp) 0 of
        Inl e \<Rightarrow> Inl e
      | Inr g0 \<Rightarrow>
     (case nth_or_raise (point_groups sp) 1 of
        Inl e \<Rightarrow> Inl e
      | Inr g1 \<Rightarrow>
     (let n0 = length g0; np = length (plane_points sp); n1 = length g1;
          s0 = [0..<n0]; plane = [n0..<n0 + np]; s1 = [n0 + np..<n0 + np + n1];
          opg = (case ordered_point_groups_arg of None \<Rightarrow> [False, False] | Some o' \<Rightarrow> o')
      in
     (case nth_or_raise opg 0 of
        Inl e \<Rightarrow> Inl e
      | Inr o0 \<Rightarrow>
     (case (if o0 then nth_or_raise (ordered_point_groups sp) 0 else Inr False) of
        Inl e \<Rightarrow> Inl e
      | Inr o0' \<Rightarrow>
     (case nth_or_raise opg 1 of
        Inl e \<Rightarrow> Inl e
      | Inr o1 \<Rightarrow>
     (case (if o1 then nth_or_raise (ordered_point_groups sp) 1 else Inr False) of
        Inl e \<Rightarrow> Inl e
      | Inr o1' \<Rightarrow>
          (let plane_perms = group_perms (ordered_plane_arg \<and> ordered_plane sp) plane;
               s0_perms = group_perms (o0 \<and> o0') s0;
               s1_perms = group_perms (o1 \<and> o1') s1
           in Inr (concat (map (\<lambda>perm_side1.
                     concat (map (\<lambda>perm_sep_plane.
                       map (\<lambda>perm_side2. perm_side1 @ perm_sep_plane @ perm_side2) s1_perms)
                       plane_perms)) s0_perms))))))))))"

datatype algorithm =
    ExplicitPermutationsAlgorithm "nat list list"
  | SeparationPlane separation_plane

datatype algorithm_type = EXPLICIT_PERMUTATIONS | SEPARATION_PLANE

fun algorithm_type_of :: "algorithm \<Rightarrow> algorithm_type" where
  "algorithm_type_of (ExplicitPermutationsAlgorithm _) = EXPLICIT_PERMUTATIONS"
| "algorithm_type_of (SeparationPlane _) = SEPARATION_PLANE"

text \<open>The entries of the list \<open>algos\<close> that the searches return: the string of an
  explicit-permutations algorithm is its type, a separation-plane search records the
  type, the random fallback its own tag.\<close>

datatype algo_tag = AlgoType algorithm_type | APPROXIMATE_FALLBACK

record coordination_geometry =
  mp_symbol :: string
  ce_symbol :: string
  coordination :: "nat option"
  has_points :: bool
  deactivate :: bool
  algorithms :: "algorithm list option"
  equivalent_indices :: "nat list list option"

text \<open>\<open>ref_permutation\<close>: the least, as a tuple, of the images of a permutation under
  the equivalent index sets.\<close>

definition ref_permutation :: "coordination_geometry \<Rightarrow> nat list \<Rightarrow> error + nat list" where
  "ref_permutation cg permutation =
     (case equivalent_indices cg of
        None \<Rightarrow> Inl TypeError
      | Some eqvs \<Rightarrow>
          (case mapE (take_indices permutation) eqvs of
             Inl e \<Rightarrow> Inl e
           | Inr perms \<Rightarrow> nth_or_raise (sort perms) 0))"

definition get_implemented_geometries ::
  "coordination_geometry list \<Rightarrow> nat \<Rightarrow> coordination_geometry list" where
  "get_implemented_geometries cg_list cn =
     filter (\<lambda>cg. coordination cg = Some cn \<and> has_points cg \<and> \<not> deactivate cg) cg_list"

section \<open>Point sets of a site\<close>

text \<open>An \<open>AbstractGeometry\<close> holds the six centred views of a point set, with (\<open>wcs\<close>)
  and without (\<open>wocs\<close>) the central site, together with the points and centres the
  searches read. The centring arithmetic of its constructor plays no part below: a
  geometry is given by its views.\<close>

record abstract_geometry =
  arr_points_wcs_csc :: "vec3 list"
  arr_points_wocs_csc :: "vec3 list"
  arr_points_wcs_ctwcc :: "vec3 list"
  arr_points_wocs_ctwcc :: "vec3 list"
  arr_points_wcs_ctwocc :: "vec3 list"
  arr_points_wocs_ctwocc :: "vec3 list"
  coords :: "vec3 list"
  central_site :: vec3
  bare_centre :: vec3
  centroid_with_centre :: vec3
  centroid_without_centre :: vec3

definition view_with_central ::
  "vec3 list \<Rightarrow> vec3 list \<Rightarrow> nat list option \<Rightarrow> error + vec3 list" where
  "view_with_central wcs wocs permutation =
     (case permutation of
        None \<Rightarrow> Inr wcs
      | Some perm \<Rightarrow>
          (case take_indices wocs perm of Inl e \<Rightarrow> Inl e | Inr ps \<Rightarrow> Inr (take 1 wcs @ ps)))"

definition view_without_central :: "vec3 list \<Rightarrow> nat list option \<Rightarrow> error + vec3 list" where
  "view_without_central wocs permutation =
     (case permutation of None \<Rightarrow> Inr wocs | Some perm \<Rightarrow> take_indices wocs perm)"

definition points_wcs_csc :: "abstract_geometry \<Rightarrow> nat list option \<Rightarrow> error + vec3 list" where
  "points_wcs_csc g = view_with_central (arr_points_wcs_csc g) (arr_points_wocs_csc g)"

definition points_wocs_csc :: "abstract_geometry \<Rightarrow> nat list option \<Rightarrow> error + vec3 list" where
  "points_wocs_csc g = view_without_central (arr_points_wocs_csc g)"

definition points_wcs_ctwcc :: "abstract_geometry \<Rightarrow> nat list option \<Rightarrow> error + vec3 list" where
  "points_wcs_ctwcc g = view_with_central (arr_points_wcs_ctwcc g) (arr_points_wocs_ctwcc g)"

definition points_wocs_ctwcc :: "abstract_geometry \<Rightarrow> nat list option \<Rightarrow> error + vec3 list" where
  "points_wocs_ctwcc g = view_without_central (arr_points_wocs_ctwcc g)"

definition points_wcs_ctwocc :: "abstract_geometry \<Rightarrow> nat list option \<Rightarrow> error + vec3 list" where
  "points_wcs_ctwocc g = view_with_central (arr_points_wcs_ctwocc g) (arr_points_wocs_ctwocc g)"

definition points_wocs_ctwocc :: "abstract_geometry \<Rightarrow> nat list option \<Rightarrow> error + vec3 list" where
  "points_wocs_ctwocc g = view_without_central (arr_points_wocs_ctwocc g)"

section \<open>Permutation searches\<close>

text \<open>
  The plane utilities (\<open>Plane\<close>, \<open>collinear\<close>, \<open>sort_separation\<close>,
  \<open>separation_in_list\<close>), numpy's singular value decomposition and its random generator
  are library code outside the searched module; the searches take them as the fields of
  one parameter. A separation is the triple of the index lists on one side of a plane,
  in it, and on its other side. \<open>rng_permutation k n\<close> is the \<open>k\<close>-th permutation of
  \<open>range(n)\<close> that the generator draws.
\<close>

type_synonym separation_indices = "nat list \<times> nat list \<times> nat list"

record 'p library =
  svd :: svd_fun
  rng_permutation :: "nat \<Rightarrow> nat \<Rightarrow> nat list"
  collinear :: "vec3 \<Rightarrow> vec3 \<Rightarrow> vec3 \<Rightarrow> real \<Rightarrow> bool"
  Plane_from_3points :: "vec3 \<Rightarrow> vec3 \<Rightarrow> vec3 \<Rightarrow> 'p"
  Plane_from_npoints :: "vec3 list \<Rightarrow> 'p"
  indices_separate :: "'p \<Rightarrow> vec3 list \<Rightarrow> real \<Rightarrow> separation_indices"
  project_and_to2dim_ordered_indices :: "'p \<Rightarrow> vec3 list \<Rightarrow> nat list"
  sort_separation :: "separation_indices \<Rightarrow> separation_indices"
  separation_in_list :: "separation_indices \<Rightarrow> separation_indices list \<Rightarrow> bool"

record finder =
  local_geometry :: abstract_geometry
  allcg :: "coordination_geometry list"
  permutations_safe_override :: bool
  plane_safe_permutations :: bool

definition DIST_TOLERANCES :: "real list" where
  "DIST_TOLERANCES = [0.02, 0.05, 0.1, 0.2, 0.3]"

definition bindE :: "error + 'a \<Rightarrow> ('a \<Rightarrow> error + 'b) \<Rightarrow> error + 'b" where
  "bindE m f = (case m of Inl e \<Rightarrow> Inl e | Inr x \<Rightarrow> f x)"

text \<open>The two index maps of a permutation, filled in the order of the loop
  \<open>for i_p, pp in enumerate(perm): p2l[i_p] = pp; l2p[pp] = i_p\<close>.\<close>

fun fill_maps ::
  "nat \<Rightarrow> nat list \<Rightarrow> (nat \<rightharpoonup> nat) \<times> (nat \<rightharpoonup> nat) \<Rightarrow> (nat \<rightharpoonup> nat) \<times> (nat \<rightharpoonup> nat)" where
  "fill_maps i_p [] maps = maps"
| "fill_maps i_p (pp # perm) (p2l, l2p) = fill_maps (Suc i_p) perm (p2l(i_p \<mapsto> pp), l2p(pp \<mapsto> i_p))"

definition perfect2local_of :: "nat list \<Rightarrow> (nat \<rightharpoonup> nat)" where
  "perfect2local_of perm = fst (fill_maps 0 perm (Map.empty, Map.empty))"

definition local2perfect_of :: "nat list \<Rightarrow> (nat \<rightharpoonup> nat)" where
  "local2perfect_of perm = snd (fill_maps 0 perm (Map.empty, Map.empty))"

text \<open>One scored permutation: the points of the site in the order of the permutation,
  their symmetry measure against the perfect points, and the translation vector.\<close>

definition score_permutation ::
  "'p library \<Rightarrow> finder \<Rightarrow> vec3 list \<Rightarrow> nat list \<Rightarrow> error + sm_info" where
  "score_permutation lib self points_perfect perm =
     bindE (points_wcs_ctwcc (local_geometry self) (Some perm)) (\<lambda>points_distorted.
     bindE (symmetry_measure (svd lib) points_distorted points_perfect) (\<lambda>sm.
     Inr (sm\<lparr>translation_vector := Some (centroid_with_centre (local_geometry self))\<rparr>)))"

text \<open>What a search returns: the measures, the permutations, the algorithm tags and
  the two lists of index maps; under \<open>testing\<close> the separation-plane search returns the
  measures, the permutations and the separation permutations instead.\<close>

datatype search_result =
    Search "sm_info list" "nat list list" "algo_tag list"
           "(nat \<rightharpoonup> nat) list" "(nat \<rightharpoonup> nat) list"
  | Testing "sm_info list" "nat list list" "nat list list"

text \<open>Explicit-permutation mode. The branch for \<open>optimization == 2\<close> runs the same
  statements as the other one.\<close>

fun standard_loop ::
  "'p library \<Rightarrow> finder \<Rightarrow> vec3 list \<Rightarrow> nat list list \<Rightarrow> error + sm_info list" where
  "standard_loop lib self points_perfect [] = Inr []"
| "standard_loop lib self points_perfect (perm # perms) =
     bindE (score_permutation lib self points_perfect perm) (\<lambda>sm.
     bindE (standard_loop lib self points_perfect perms) (\<lambda>sms. Inr (sm # sms)))"

definition coordination_geometry_symmetry_measures_standard ::
  "'p library \<Rightarrow> finder \<Rightarrow> coordination_geometry \<Rightarrow> nat list list \<Rightarrow> vec3 list
     \<Rightarrow> nat option \<Rightarrow> error + search_result" where
  "coordination_geometry_symmetry_measures_standard lib self cg algo_permutations
       points_perfect optimization =
     bindE (standard_loop lib self points_perfect algo_permutations) (\<lambda>sms.
     Inr (Search sms algo_permutations
            (map (\<lambda>_. AlgoType EXPLICIT_PERMUTATIONS) algo_permutations)
            (map local2perfect_of algo_permutations)
            (map perfect2local_of algo_permutations)))"

text \<open>Random fallback: \<open>n_random\<close> permutations of the coordination number of the
  reference geometry, drawn from a fresh generator; the deprecated keyword \<open>NRANDOM\<close>
  replaces \<open>n_random\<close> when given.\<close>

fun fallback_loop ::
  "'p library \<Rightarrow> finder \<Rightarrow> vec3 list \<Rightarrow> nat \<Rightarrow> nat list
     \<Rightarrow> error + (sm_info list \<times> nat list list)" where
  "fallback_loop lib self points_perfect n [] = Inr ([], [])"
| "fallback_loop lib self points_perfect n (idx # idxs) =
     (let perm = rng_permutation lib idx n in
      bindE (score_permutation lib self points_perfect perm) (\<lambda>sm.
      bindE (fallback_loop lib self points_perfect n idxs) (\<lambda>(sms, perms).
      Inr (sm # sms, perm # perms))))"

definition coordination_geometry_symmetry_measures_fallback_random ::
  "'p library \<Rightarrow> finder \<Rightarrow> coordination_geometry \<Rightarrow> nat \<Rightarrow> vec3 list \<Rightarrow> nat option
     \<Rightarrow> error + search_result" where
  "coordination_geometry_symmetry_measures_fallback_random lib self cg n_random
       points_perfect NRANDOM =
     (let n_random' = (case NRANDOM of Some k \<Rightarrow> k | None \<Rightarrow> n_random) in
      case coordination cg of
        None \<Rightarrow> if n_random' = 0 then Inr (Search [] [] [] [] []) else Inl TypeError
      | Some n \<Rightarrow>
          bindE (fallback_loop lib self points_perfect n [0..<n_random']) (\<lambda>(sms, perms).
          Inr (Search sms perms (map (\<lambda>_. APPROXIMATE_FALLBACK) perms)
                 (map local2perfect_of perms) (map perfect2local_of perms))))"

text \<open>
  Separation-plane mode. \<open>search_state\<close> is what the planes of one search share: the
  separations already used, the set of reference permutations already scored (when the
  caller asked for one), and the record of the tolerances at which a plane has
  classified the points, one entry for each call of \<open>indices_separate\<close>.
  \<open>plane_acc\<close> is what the scan of one plane accumulates.
\<close>

record search_state =
  plane_separations :: "separation_indices list"
  tested_permutations :: "nat list set option"
  classified :: "real list"

record plane_acc =
  plane_found :: bool
  acc_permutations :: "nat list list"
  acc_measures :: "sm_info list"
  acc_separation_permutations :: "nat list list"
  algo_name :: string

datatype plane_algos = AlgoList "algo_tag list" | AlgoName string

fun sep_perms_loop ::
  "'p library \<Rightarrow> finder \<Rightarrow> coordination_geometry \<Rightarrow> nat list \<Rightarrow> nat list \<Rightarrow> bool
     \<Rightarrow> vec3 list \<Rightarrow> nat list list \<Rightarrow> search_state \<times> plane_acc
     \<Rightarrow> error + search_state \<times> plane_acc" where
  "sep_perms_loop lib self cg argref_separation separation_perm testing points_perfect
       [] sa = Inr sa"
| "sep_perms_loop lib self cg argref_separation separation_perm testing points_perfect
       (sep_perm # rest) (st, acc) =
     bindE (take_indices separation_perm sep_perm) (\<lambda>perm1.
     bindE (take_indices perm1 argref_separation) (\<lambda>pp.
     bindE (case (tested_permutations st, equivalent_indices cg) of
              (Some tested, Some _) \<Rightarrow>
                bindE (ref_permutation cg pp) (\<lambda>tuple_ref_perm.
                  if tuple_ref_perm \<in> tested then Inr None
                  else Inr (Some (st\<lparr>tested_permutations :=
                                        Some (insert tuple_ref_perm tested)\<rparr>)))
            | _ \<Rightarrow> Inr (Some st)) (\<lambda>go.
     case go of
       None \<Rightarrow>
         sep_perms_loop lib self cg argref_separation separation_perm testing
           points_perfect rest (st, acc)
     | Some st' \<Rightarrow>
         bindE (score_permutation lib self points_perfect pp) (\<lambda>sm.
         sep_perms_loop lib self cg argref_separation separation_perm testing
           points_perfect rest
           (st', acc\<lparr>acc_permutations := acc_permutations acc @ [pp],
                     acc_separation_permutations :=
                       (if testing then acc_separation_permutations acc @ [sep_perm]
                        else acc_separation_permutations acc),
                     acc_measures := acc_measures acc @ [sm]\<rparr>)))))"

definition points_at :: "vec3 list \<Rightarrow> nat list \<Rightarrow> vec3 list" where
  \<comment> \<open>\<open>[pp for ip, pp in enumerate(points) if ip in indices]\<close>\<close>
  "points_at points indices =
     map snd (filter (\<lambda>(ip, pp). ip \<in> set indices) (enumerate 0 points))"

definition ordered_group ::
  "'p library \<Rightarrow> finder \<Rightarrow> 'p \<Rightarrow> bool \<Rightarrow> nat list \<Rightarrow> error + nat list" where
  "ordered_group lib self local_plane ordered g =
     (if ordered then
        take_indices g
          (project_and_to2dim_ordered_indices lib local_plane
             (points_at (coords (local_geometry self)) g))
      else Inr g)"

definition separation_perm_of ::
  "'p library \<Rightarrow> finder \<Rightarrow> separation_plane \<Rightarrow> 'p \<Rightarrow> separation_indices
     \<Rightarrow> error + nat list \<times> string" where
  "separation_perm_of lib self sep_plane local_plane this_separation =
     (case this_separation of (t0, t1, t2) \<Rightarrow>
        if ordered_plane sep_plane then
          bindE (nth_or_raise (ordered_point_groups sep_plane) 0) (\<lambda>o0.
          bindE (ordered_group lib self local_plane o0 t0) (\<lambda>sep0.
          bindE (nth_or_raise (ordered_point_groups sep_plane) 1) (\<lambda>o1.
          bindE (ordered_group lib self local_plane o1 t2) (\<lambda>sep2.
          bindE (ordered_group lib self local_plane True t1) (\<lambda>inplane.
          Inr (sep0 @ inplane @ sep2, ''SEPARATION_PLANE_2POINTS_ORDERED''))))))
        else Inr (t0 @ t1 @ t2, ''SEPARATION_PLANE_2POINTS''))"

definition sep_perms_of :: "finder \<Rightarrow> separation_plane \<Rightarrow> error + nat list list" where
  "sep_perms_of self sep_plane =
     (if plane_safe_permutations self then
        safe_separation_permutations sep_plane (ordered_plane sep_plane)
          (Some (ordered_point_groups sep_plane))
      else permutations sep_plane)"

text \<open>The body of the loop over the distance tolerances, for one tolerance. A
  \<open>continue\<close> of the source is a return of the state reached so far.\<close>

definition tolerance_step ::
  "'p library \<Rightarrow> finder \<Rightarrow> coordination_geometry \<Rightarrow> separation_plane \<Rightarrow> 'p \<Rightarrow> bool
     \<Rightarrow> vec3 list \<Rightarrow> real \<Rightarrow> search_state \<times> plane_acc \<Rightarrow> error + search_state \<times> plane_acc" where
  "tolerance_step lib self cg sep_plane local_plane testing points_perfect dist_tolerance sa =
     (case sa of (st, acc) \<Rightarrow>
      let acc1 = acc\<lparr>algo_name := ''NOT_FOUND''\<rparr>;
          st1 = st\<lparr>classified := classified st @ [dist_tolerance]\<rparr>;
          separation = sort_separation lib
            (indices_separate lib local_plane (coords (local_geometry self)) dist_tolerance)
      in
      if separation_in_list lib separation (plane_separations st1) then Inr (st1, acc1)
      else
        (case separation of (s0, s1, s2) \<Rightarrow>
         if length s1 \<noteq> length (plane_points sep_plane) then Inr (st1, acc1)
         else
           bindE (nth_or_raise (point_groups sep_plane) 0) (\<lambda>g0.
           bindE (if length s0 = length g0 then Inr (Some (s0, s1, s2))
                  else bindE (nth_or_raise (point_groups sep_plane) 1) (\<lambda>g1.
                       if length s0 = length g1 then Inr (Some (s2, s1, s0)) else Inr None))
             (\<lambda>matched.
           case matched of
             None \<Rightarrow> Inr (st1, acc1)
           | Some this_separation \<Rightarrow>
               (let st2 = st1\<lparr>plane_separations := plane_separations st1 @ [this_separation]\<rparr>
                in
                bindE (separation_perm_of lib self sep_plane local_plane this_separation)
                  (\<lambda>(separation_perm, algo).
                bindE (sep_perms_of self sep_plane) (\<lambda>sep_perms.
                sep_perms_loop lib self cg (argsorted_ref_separation_perm sep_plane)
                  separation_perm testing points_perfect sep_perms
                  (st2, acc1\<lparr>algo_name := algo\<rparr>))))))))"

text \<open>The loop over the tolerances. Its only exit before the end of the list is the
  \<open>break\<close> on \<open>plane_found\<close>, a variable that no statement sets after its
  initialisation to \<open>False\<close>.\<close>

fun tolerance_loop ::
  "'p library \<Rightarrow> finder \<Rightarrow> coordination_geometry \<Rightarrow> separation_plane \<Rightarrow> 'p \<Rightarrow> bool
     \<Rightarrow> vec3 list \<Rightarrow> real list \<Rightarrow> search_state \<times> plane_acc \<Rightarrow> error + search_state \<times> plane_acc" where
  "tolerance_loop lib self cg sep_plane local_plane testing points_perfect [] sa = Inr sa"
| "tolerance_loop lib self cg sep_plane local_plane testing points_perfect (tol # tols) sa =
     bindE (tolerance_step lib self cg sep_plane local_plane testing points_perfect tol sa)
       (\<lambda>sa'. if plane_found (snd sa') then Inr sa'
              else tolerance_loop lib self cg sep_plane local_plane testing points_perfect
                     tols sa')"

type_synonym plane_result = "sm_info list \<times> nat list list \<times> plane_algos \<times> nat list list"

definition cg_csm_separation_plane ::
  "'p library \<Rightarrow> finder \<Rightarrow> coordination_geometry \<Rightarrow> separation_plane \<Rightarrow> 'p
     \<Rightarrow> real list option \<Rightarrow> bool \<Rightarrow> vec3 list \<Rightarrow> search_state
     \<Rightarrow> error + plane_result option \<times> search_state" where
  "cg_csm_separation_plane lib self cg sep_plane local_plane dist_tolerances testing
       points_perfect st =
     (let dist_tolerances' =
            (case dist_tolerances of
               None \<Rightarrow> DIST_TOLERANCES
             | Some ts \<Rightarrow> if ts = [] then DIST_TOLERANCES else ts);
          acc0 = \<lparr>plane_found = False, acc_permutations = [], acc_measures = [],
                  acc_separation_permutations = [], algo_name = []\<rparr>
      in
      bindE (tolerance_loop lib self cg sep_plane local_plane testing points_perfect
               dist_tolerances' (st, acc0)) (\<lambda>(st', acc).
      if length (acc_measures acc) > 0 then
        Inr (Some (acc_measures acc, acc_permutations acc,
                   (if testing then AlgoName (algo_name acc)
                    else AlgoList (replicate (length (acc_permutations acc))
                                     (AlgoType SEPARATION_PLANE))),
                   acc_separation_permutations acc), st')
      else if plane_found acc then
        Inr (Some (acc_measures acc, acc_permutations acc, AlgoList [], []), st')
      else Inr (None, st')))"

text \<open>\<open>itertools.combinations\<close>: the sublists of a given length, in the order of their
  positions.\<close>

fun combinations :: "'a list \<Rightarrow> nat \<Rightarrow> 'a list list" where
  "combinations xs 0 = [[]]"
| "combinations [] (Suc r) = []"
| "combinations (x # xs) (Suc r) = map ((#) x) (combinations xs r) @ combinations xs (Suc r)"

text \<open>The plane of a combination of points: \<open>None\<close> where the source skips the
  combination (\<open>continue\<close>) because its points are collinear.\<close>

definition plane_of_combination ::
  "'p library \<Rightarrow> finder \<Rightarrow> nat \<Rightarrow> vec3 list \<Rightarrow> error + 'p option" where
  "plane_of_combination lib self npoints points_combination =
     (if npoints = 2 then
        bindE (nth_or_raise points_combination 0) (\<lambda>c0.
        bindE (nth_or_raise points_combination 1) (\<lambda>c1.
        if collinear lib c0 c1 (central_site (local_geometry self)) 0.25 then Inr None
        else Inr (Some (Plane_from_3points lib c0 c1 (central_site (local_geometry self))))))
      else if npoints = 3 then
        bindE (nth_or_raise points_combination 0) (\<lambda>c0.
        bindE (nth_or_raise points_combination 1) (\<lambda>c1.
        bindE (nth_or_raise points_combination 2) (\<lambda>c2.
        if collinear lib c0 c1 c2 0.25 then Inr None
        else Inr (Some (Plane_from_3points lib c0 c1 c2)))))
      else if npoints > 3 then Inr (Some (Plane_from_npoints lib points_combination))
      else Inl ValueError)"

record search_acc =
  res_measures :: "sm_info list"
  res_permutations :: "nat list list"
  res_algos :: "algo_tag list"
  res_perfect2local_maps :: "(nat \<rightharpoonup> nat) list"
  res_local2perfect_maps :: "(nat \<rightharpoonup> nat) list"
  res_separation_permutations :: "nat list list"
  nplanes :: nat

fun combinations_loop ::
  "'p library \<Rightarrow> finder \<Rightarrow> coordination_geometry \<Rightarrow> separation_plane \<Rightarrow> bool \<Rightarrow> vec3 list
     \<Rightarrow> nat \<Rightarrow> vec3 list list \<Rightarrow> search_state \<times> search_acc
     \<Rightarrow> error + search_state \<times> search_acc" where
  "combinations_loop lib self cg sep_plane testing points_perfect npoints [] sr = Inr sr"
| "combinations_loop lib self cg sep_plane testing points_perfect npoints
       (points_combination # rest) (st, r) =
     bindE (plane_of_combination lib self npoints points_combination) (\<lambda>plane.
     case plane of
       None \<Rightarrow>
         combinations_loop lib self cg sep_plane testing points_perfect npoints rest (st, r)
     | Some local_plane \<Rightarrow>
         bindE (cg_csm_separation_plane lib self cg sep_plane local_plane
                  (Some DIST_TOLERANCES) testing points_perfect st) (\<lambda>(cgsm, st').
         case cgsm of
           None \<Rightarrow>
             combinations_loop lib self cg sep_plane testing points_perfect npoints rest
               (st', r)
         | Some (csm, perm, algo, sep_perms) \<Rightarrow>
             combinations_loop lib self cg sep_plane testing points_perfect npoints rest
               (st', r\<lparr>res_measures := res_measures r @ csm,
                       res_permutations := res_permutations r @ perm,
                       res_perfect2local_maps :=
                         res_perfect2local_maps r @ map perfect2local_of perm,
                       res_local2perfect_maps :=
                         res_local2perfect_maps r @ map local2perfect_of perm,
                       res_algos :=
                         (case algo of AlgoList tags \<Rightarrow> res_algos r @ tags
                                     | AlgoName _ \<Rightarrow> res_algos r),
                       res_separation_permutations :=
                         (if testing then res_separation_permutations r @ sep_perms
                          else res_separation_permutations r),
                       nplanes := nplanes r + 1\<rparr>)))"

fun npoints_loop ::
  "'p library \<Rightarrow> finder \<Rightarrow> coordination_geometry \<Rightarrow> separation_plane \<Rightarrow> bool \<Rightarrow> vec3 list
     \<Rightarrow> nat list \<Rightarrow> search_state \<times> search_acc \<Rightarrow> error + search_state \<times> search_acc" where
  "npoints_loop lib self cg sep_plane testing points_perfect [] sr = Inr sr"
| "npoints_loop lib self cg sep_plane testing points_perfect (npoints # rest) sr =
     bindE (combinations_loop lib self cg sep_plane testing points_perfect npoints
              (combinations (coords (local_geometry self)) npoints) sr) (\<lambda>sr'.
     if nplanes (snd sr') > 0 then Inr sr'
     else npoints_loop lib self cg sep_plane testing points_perfect rest sr')"

text \<open>The state and the empty lists with which a separation-plane search starts.\<close>

definition new_search_state :: "nat list set option \<Rightarrow> search_state" where
  "new_search_state tested =
     \<lparr>plane_separations = [], tested_permutations = tested, classified = []\<rparr>"

definition empty_search_acc :: search_acc where
  "empty_search_acc =
     \<lparr>res_measures = [], res_permutations = [], res_algos = [],
      res_perfect2local_maps = [], res_local2perfect_maps = [],
      res_separation_permutations = [], nplanes = 0\<rparr>"

text \<open>The separation-plane search of one algorithm. Under \<open>testing\<close> the tags of the
  planes are collected in a list that is not returned; the model leaves that list
  as it is.\<close>

definition coordination_geometry_symmetry_measures_separation_plane ::
  "'p library \<Rightarrow> finder \<Rightarrow> coordination_geometry \<Rightarrow> separation_plane \<Rightarrow> bool
     \<Rightarrow> nat list set option \<Rightarrow> vec3 list \<Rightarrow> error + search_result \<times> search_state" where
  "coordination_geometry_symmetry_measures_separation_plane lib self cg
       separation_plane_algo testing tested points_perfect =
     (case minimum_number_of_points separation_plane_algo of
        None \<Rightarrow> Inl TypeError
      | Some mn \<Rightarrow>
          bindE (npoints_loop lib self cg separation_plane_algo testing points_perfect
                   [mn..<min (maximum_number_of_points separation_plane_algo) 4 + 1]
                   (new_search_state tested, empty_search_acc)) (\<lambda>(st, r).
          if nplanes r = 0 then
            bindE (coordination_geometry_symmetry_measures_fallback_random lib self cg 10
                     points_perfect None) (\<lambda>res. Inr (res, st))
          else if testing then
            Inr (Testing (res_measures r) (res_permutations r)
                   (res_separation_permutations r), st)
          else
            Inr (Search (res_measures r) (res_permutations r) (res_algos r)
                   (res_local2perfect_maps r) (res_perfect2local_maps r), st)))"

text \<open>The search of a geometry over its algorithms: the first explicit-permutations
  algorithm met decides alone, the separation-plane algorithms before it add up.\<close>

fun algorithms_loop ::
  "'p library \<Rightarrow> finder \<Rightarrow> coordination_geometry \<Rightarrow> vec3 list \<Rightarrow> nat option
     \<Rightarrow> algorithm list \<Rightarrow> nat list set option \<Rightarrow> search_result \<Rightarrow> error + search_result" where
  "algorithms_loop lib self cg points_perfect optimization [] tested found = Inr found"
| "algorithms_loop lib self cg points_perfect optimization
       (ExplicitPermutationsAlgorithm ps # rest) tested found =
     coordination_geometry_symmetry_measures_standard lib self cg ps points_perfect
       optimization"
| "algorithms_loop lib self cg points_perfect optimization
       (SeparationPlane sp # rest) tested found =
     bindE (coordination_geometry_symmetry_measures_separation_plane lib self cg sp False
              tested points_perfect) (\<lambda>(cgsm, st).
     case (found, cgsm) of
       (Search csms perms algos l2ps p2ls, Search csm perm algo l2p p2l) \<Rightarrow>
         algorithms_loop lib self cg points_perfect optimization rest
           (tested_permutations st)
           (Search (csms @ csm) (perms @ perm) (algos @ algo) (l2ps @ l2p) (p2ls @ p2l))
     | _ \<Rightarrow> Inl ValueError)"

definition coordination_geometry_symmetry_measures ::
  "'p library \<Rightarrow> finder \<Rightarrow> coordination_geometry \<Rightarrow> bool \<Rightarrow> vec3 list \<Rightarrow> nat option
     \<Rightarrow> error + search_result" where
  "coordination_geometry_symmetry_measures lib self cg tested_permutations_wanted
       points_perfect optimization =
     (if permutations_safe_override self then Inl ValueError
      else
        (case algorithms cg of
           None \<Rightarrow> Inl TypeError
         | Some algos \<Rightarrow>
             algorithms_loop lib self cg points_perfect optimization algos
               (if tested_permutations_wanted then Some {} else None)
               (Search [] [] [] [] [])))"

section \<open>The orchestrator\<close>

text \<open>\<open>np.argmin\<close> of a non-empty list: the first position of the least entry, and the
  first position of a \<open>NaN\<close> when there is one.\<close>

fun argmin_scan :: "nat \<Rightarrow> fnum \<Rightarrow> nat \<Rightarrow> fnum list \<Rightarrow> nat" where
  "argmin_scan best_i best i [] = best_i"
| "argmin_scan best_i best i (x # xs) =
     (if best = NaN then best_i
      else if x = NaN \<or> flt x best then argmin_scan i x (Suc i) xs
      else argmin_scan best_i best (Suc i) xs)"

definition np_argmin :: "fnum list \<Rightarrow> error + nat" where
  "np_argmin xs = (case xs of [] \<Rightarrow> Inl ValueError | x # rest \<Rightarrow> Inr (argmin_scan 0 x 1 rest))"

text \<open>\<open>np.linalg.inv\<close> of a \<open>3 \<times> 3\<close> array: the inverse, by cofactors, and
  LinAlgError for a singular array.\<close>

fun adjugate3 :: "mat3 \<Rightarrow> mat3" where
  "adjugate3 ((a, b, c), (d, e, f), (g, h, i)) =
     ((e * i - f * h, c * h - b * i, b * f - c * e),
      (f * g - d * i, a * i - c * g, c * d - a * f),
      (d * h - e * g, b * g - a * h, a * e - b * d))"

definition linalg_inv :: "mat3 \<Rightarrow> error + mat3" where
  "linalg_inv A =
     (if det3 A = 0 then Inl LinAlgError
      else (case adjugate3 A of (r1, r2, r3) \<Rightarrow>
              Inr (smult (1 / det3 A) r1, smult (1 / det3 A) r2, smult (1 / det3 A) r3)))"

definition reciprocal_scaling :: "fnum option \<Rightarrow> error + fnum" where
  \<comment> \<open>\<open>1.0 / scaling_factor\<close>\<close>
  "reciprocal_scaling s = (case s of None \<Rightarrow> Inl TypeError | Some v \<Rightarrow> Inr (fdiv (Fin 1) v))"

definition inverse_rotation :: "mat3 option \<Rightarrow> error + mat3" where
  \<comment> \<open>\<open>np.linalg.inv(rotation_matrix)\<close>\<close>
  "inverse_rotation r = (case r of None \<Rightarrow> Inl LinAlgError | Some A \<Rightarrow> linalg_inv A)"

text \<open>The entry of a geometry in the result dictionary. The keys
  \<open>csm_<view>\<close>, \<open>rotation_matrix_<view>\<close>, \<open>scaling_factor_<view>\<close> and
  \<open>translation_vector_<view>\<close> of one view are grouped in one \<open>view_result\<close>, stored
  under the name of the view.\<close>

record view_result =
  view_csm :: fnum
  view_rotation_matrix :: "mat3 option"
  view_scaling_factor :: "fnum option"
  view_translation_vector :: "vec3 option"

datatype algo_entry = AlgoOne algo_tag | AlgoAll "algo_tag list" | AlgoString string

record minimum_entry =
  csm :: fnum
  indices :: "nat list"
  algo :: algo_entry
  local2perfect_map :: "nat \<rightharpoonup> nat"
  perfect2local_map :: "nat \<rightharpoonup> nat"
  entry_scaling_factor :: "fnum option"
  entry_rotation_matrix :: "mat3 option"
  entry_translation_vector :: "vec3 option"
  all_csms :: "string \<rightharpoonup> view_result"

datatype entry =
    MinimumEntry minimum_entry
  | AllEntry "sm_info list" "nat list list" "algo_tag list"
             "(nat \<rightharpoonup> nat) list" "(nat \<rightharpoonup> nat) list"

definition csm_types :: "string list" where
  "csm_types = [''wocs_ctwocc'', ''wocs_ctwcc'', ''wocs_csc'',
                ''wcs_ctwocc'', ''wcs_ctwcc'', ''wcs_csc'']"

definition single_neighbor_result :: "bool \<Rightarrow> (string \<rightharpoonup> entry)" where
  "single_neighbor_result all_csms_wanted =
     [''S:1'' \<mapsto> MinimumEntry
        \<lparr>csm = Fin 0, indices = [0], algo = AlgoString ''EXPLICIT'',
         local2perfect_map = [0 \<mapsto> 0], perfect2local_map = [0 \<mapsto> 0],
         entry_scaling_factor = None, entry_rotation_matrix = None,
         entry_translation_vector = None,
         all_csms =
           (if all_csms_wanted then
              map_of (map (\<lambda>csmtype.
                (csmtype, \<lparr>view_csm = Fin 0, view_rotation_matrix = None,
                            view_scaling_factor = None,
                            view_translation_vector = None\<rparr>)) csm_types)
            else Map.empty)\<rparr>]"

definition view_measure ::
  "'p library \<Rightarrow> error + vec3 list \<Rightarrow> error + vec3 list \<Rightarrow> vec3 \<Rightarrow> error + view_result" where
  "view_measure lib pdist pperf translation =
     bindE pdist (\<lambda>pd.
     bindE pperf (\<lambda>pp.
     bindE (symmetry_measure (svd lib) pd pp) (\<lambda>sm.
     bindE (inverse_rotation (rotation_matrix sm)) (\<lambda>rot.
     bindE (reciprocal_scaling (scaling_factor sm)) (\<lambda>sc.
     Inr \<lparr>view_csm = symmetry_measure_of sm, view_rotation_matrix = Some rot,
          view_scaling_factor = Some sc, view_translation_vector = Some translation\<rparr>)))))"

definition update_results_all_csms ::
  "'p library \<Rightarrow> finder \<Rightarrow> abstract_geometry \<Rightarrow> nat list list \<Rightarrow> nat
     \<Rightarrow> error + (string \<rightharpoonup> view_result)" where
  "update_results_all_csms lib self perfect_geometry perms imin =
     bindE (nth_or_raise perms imin) (\<lambda>permutation.
     let lg = local_geometry self; p = Some permutation in
     bindE (view_measure lib (points_wocs_ctwocc lg p) (points_wocs_ctwocc perfect_geometry None)
              (centroid_without_centre lg)) (\<lambda>v1.
     bindE (view_measure lib (points_wocs_ctwcc lg p) (points_wocs_ctwcc perfect_geometry None)
              (centroid_with_centre lg)) (\<lambda>v2.
     bindE (view_measure lib (points_wocs_csc lg p) (points_wocs_csc perfect_geometry None)
              (bare_centre lg)) (\<lambda>v3.
     bindE (view_measure lib (points_wcs_ctwocc lg p) (points_wcs_ctwocc perfect_geometry None)
              (centroid_without_centre lg)) (\<lambda>v4.
     bindE (view_measure lib (points_wcs_ctwcc lg p) (points_wcs_ctwcc perfect_geometry None)
              (centroid_with_centre lg)) (\<lambda>v5.
     bindE (view_measure lib (points_wcs_csc lg p) (points_wcs_csc perfect_geometry None)
              (bare_centre lg)) (\<lambda>v6.
     Inr [''wocs_ctwocc'' \<mapsto> v1, ''wocs_ctwcc'' \<mapsto> v2, ''wocs_csc'' \<mapsto> v3,
          ''wcs_ctwocc'' \<mapsto> v4, ''wcs_ctwcc'' \<mapsto> v5, ''wcs_csc'' \<mapsto> v6])))))))"

text \<open>The block that both orchestrators run for a geometry with \<open>only_minimum\<close> and a
  non-empty list of results: the result of least measure becomes the entry of the
  geometry.\<close>

definition translation_of :: "sm_info \<Rightarrow> error + vec3" where
  "translation_of sm = (case translation_vector sm of None \<Rightarrow> Inl KeyError | Some t \<Rightarrow> Inr t)"

definition minimum_entry_of ::
  "'p library \<Rightarrow> finder \<Rightarrow> coordination_geometry \<Rightarrow> abstract_geometry \<Rightarrow> bool
     \<Rightarrow> sm_info list \<Rightarrow> nat list list \<Rightarrow> algo_tag list
     \<Rightarrow> (nat \<rightharpoonup> nat) list \<Rightarrow> (nat \<rightharpoonup> nat) list \<Rightarrow> error + minimum_entry" where
  "minimum_entry_of lib self geometry perfect_geometry all_csms_wanted
       result perms algos local2perfect_maps perfect2local_maps =
     bindE (np_argmin (map symmetry_measure_of result)) (\<lambda>imin.
     bindE (if algorithms geometry \<noteq> None then
              bindE (nth_or_raise algos imin) (\<lambda>a. Inr (AlgoOne a))
            else Inr (AlgoAll algos)) (\<lambda>algo'.
     bindE (nth_or_raise result imin) (\<lambda>best.
     bindE (nth_or_raise perms imin) (\<lambda>perm.
     bindE (nth_or_raise local2perfect_maps imin) (\<lambda>l2p.
     bindE (nth_or_raise perfect2local_maps imin) (\<lambda>p2l.
     bindE (reciprocal_scaling (scaling_factor best)) (\<lambda>sc.
     bindE (inverse_rotation (rotation_matrix best)) (\<lambda>rot.
     bindE (translation_of best) (\<lambda>tr.
     bindE (if all_csms_wanted then
              update_results_all_csms lib self perfect_geometry perms imin
            else Inr Map.empty) (\<lambda>views.
     Inr \<lparr>csm = symmetry_measure_of best, indices = perm, algo = algo',
          local2perfect_map = l2p, perfect2local_map = p2l,
          entry_scaling_factor = Some sc, entry_rotation_matrix = Some rot,
          entry_translation_vector = Some tr, all_csms = views\<rparr>))))))))))"

text \<open>\<open>AbstractGeometry.from_cg\<close> with the centring of the finder gives the views of
  the reference points of a geometry; the orchestrators take it as the parameter
  \<open>from_cg\<close>.\<close>

fun geometries_loop ::
  "'p library \<Rightarrow> (coordination_geometry \<Rightarrow> error + abstract_geometry) \<Rightarrow> finder \<Rightarrow> bool \<Rightarrow> bool
     \<Rightarrow> nat option \<Rightarrow> coordination_geometry list \<Rightarrow> (string \<rightharpoonup> entry)
     \<Rightarrow> error + (string \<rightharpoonup> entry)" where
  "geometries_loop lib from_cg self only_minimum all_csms_wanted optimization []
       result_dict = Inr result_dict"
| "geometries_loop lib from_cg self only_minimum all_csms_wanted optimization
       (geometry # rest) result_dict =
     bindE (from_cg geometry) (\<lambda>perfect_geometry.
     bindE (points_wcs_ctwcc perfect_geometry None) (\<lambda>points_perfect.
     bindE (coordination_geometry_symmetry_measures lib self geometry False points_perfect
              optimization) (\<lambda>cgsm.
     case cgsm of
       Testing _ _ _ \<Rightarrow> Inl ValueError
     | Search result perms algos local2perfect_maps perfect2local_maps \<Rightarrow>
         if only_minimum then
           (if length result > 0 then
              bindE (minimum_entry_of lib self geometry perfect_geometry all_csms_wanted
                       result perms algos local2perfect_maps perfect2local_maps) (\<lambda>e.
              geometries_loop lib from_cg self only_minimum all_csms_wanted optimization
                rest (result_dict(mp_symbol geometry \<mapsto> MinimumEntry e)))
            else
              geometries_loop lib from_cg self only_minimum all_csms_wanted optimization
                rest result_dict)
         else
           geometries_loop lib from_cg self only_minimum all_csms_wanted optimization rest
             (result_dict(mp_symbol geometry \<mapsto>
                AllEntry result perms algos local2perfect_maps perfect2local_maps)))))"

definition get_coordination_symmetry_measures ::
  "'p library \<Rightarrow> (coordination_geometry \<Rightarrow> error + abstract_geometry) \<Rightarrow> finder \<Rightarrow> bool \<Rightarrow> bool
     \<Rightarrow> nat option \<Rightarrow> error + (string \<rightharpoonup> entry)" where
  "get_coordination_symmetry_measures lib from_cg self only_minimum all_csms_wanted
       optimization =
     (let test_geometries =
            get_implemented_geometries (allcg self) (length (coords (local_geometry self)))
      in
      if length (coords (local_geometry self)) = 1 then
        (if length test_geometries = 0 then Inr Map.empty
         else Inr (single_neighbor_result all_csms_wanted))
      else
        geometries_loop lib from_cg self only_minimum all_csms_wanted optimization
          test_geometries Map.empty)"

text \<open>The orchestrator of the optimised search. The cached separation-plane search
  (\<open>coordination_geometry_symmetry_measures_sepplane_optim\<close>) works on the planes
  stored with the neighbour set; it is the parameter \<open>sepplane_optim\<close>, a function of
  that store, the geometry and the perfect points.\<close>

fun all_first_explicit :: "coordination_geometry list \<Rightarrow> error + bool" where
  "all_first_explicit [] = Inr True"
| "all_first_explicit (cg # rest) =
     (case algorithms cg of
        None \<Rightarrow> Inl TypeError
      | Some [] \<Rightarrow> Inl IndexError
      | Some (a # _) \<Rightarrow>
          if algorithm_type_of a = EXPLICIT_PERMUTATIONS then all_first_explicit rest
          else Inr False)"

fun all_separation_plane :: "coordination_geometry list \<Rightarrow> error + bool" where
  "all_separation_plane [] = Inr True"
| "all_separation_plane (cg # rest) =
     (case algorithms cg of
        None \<Rightarrow> Inl TypeError
      | Some algos \<Rightarrow>
          if list_all (\<lambda>a. algorithm_type_of a = SEPARATION_PLANE) algos
          then all_separation_plane rest
          else Inr False)"

fun geometries_loop_optim ::
  "'p library \<Rightarrow> (coordination_geometry \<Rightarrow> error + abstract_geometry)
     \<Rightarrow> ('n \<Rightarrow> coordination_geometry \<Rightarrow> vec3 list \<Rightarrow> error + search_result \<times> 'n)
     \<Rightarrow> finder \<Rightarrow> bool \<Rightarrow> bool \<Rightarrow> coordination_geometry list \<Rightarrow> 'n \<Rightarrow> (string \<rightharpoonup> entry)
     \<Rightarrow> error + (string \<rightharpoonup> entry)" where
  "geometries_loop_optim lib from_cg sepplane_optim self only_minimum all_csms_wanted []
       nb_set result_dict = Inr result_dict"
| "geometries_loop_optim lib from_cg sepplane_optim self only_minimum all_csms_wanted
       (geometry # rest) nb_set result_dict =
     bindE (from_cg geometry) (\<lambda>perfect_geometry.
     bindE (points_wcs_ctwcc perfect_geometry None) (\<lambda>points_perfect.
     bindE (sepplane_optim nb_set geometry points_perfect) (\<lambda>(cgsm, nb_set').
     case cgsm of
       Testing _ _ _ \<Rightarrow> Inl ValueError
     | Search result perms algos local2perfect_maps perfect2local_maps \<Rightarrow>
         if only_minimum \<and> length result > 0 then
           bindE (minimum_entry_of lib self geometry perfect_geometry all_csms_wanted
                    result perms algos local2perfect_maps perfect2local_maps) (\<lambda>e.
           geometries_loop_optim lib from_cg sepplane_optim self only_minimum
             all_csms_wanted rest nb_set' (result_dict(mp_symbol geometry \<mapsto> MinimumEntry e)))
         else
           geometries_loop_optim lib from_cg sepplane_optim self only_minimum
             all_csms_wanted rest nb_set' result_dict)))"

definition get_coordination_symmetry_measures_optim ::
  "'p library \<Rightarrow> (coordination_geometry \<Rightarrow> error + abstract_geometry)
     \<Rightarrow> ('n \<Rightarrow> coordination_geometry \<Rightarrow> vec3 list \<Rightarrow> error + search_result \<times> 'n)
     \<Rightarrow> finder \<Rightarrow> bool \<Rightarrow> bool \<Rightarrow> 'n \<Rightarrow> nat option \<Rightarrow> error + (string \<rightharpoonup> entry)" where
  "get_coordination_symmetry_measures_optim lib from_cg sepplane_optim self only_minimum
       all_csms_wanted nb_set optimization =
     (let cn = length (coords (local_geometry self));
          test_geometries = get_implemented_geometries (allcg self) cn
      in
      bindE (all_first_explicit test_geometries) (\<lambda>explicit.
      if explicit then
        get_coordination_symmetry_measures lib from_cg self only_minimum all_csms_wanted
          optimization
      else
        bindE (all_separation_plane test_geometries) (\<lambda>planes.
        if \<not> planes then Inl ValueError
        else
          geometries_loop_optim lib from_cg sepplane_optim self only_minimum
            all_csms_wanted test_geometries nb_set Map.empty)))"

section \<open>The measure as the specification writes it\<close>

text \<open>
  The specification gives the scale in closed form as
  \<open>s = (\<Sum> (R\<cdot>d\<^sub>i)\<cdot>p\<^sub>i) / (\<Sum> (R\<cdot>d\<^sub>i)\<cdot>(R\<cdot>d\<^sub>i))\<close> and the measure as
  \<open>100 \<cdot> \<Sum> \<parallel>p\<^sub>i - s\<cdot>R\<cdot>d\<^sub>i\<parallel>\<^sup>2 / \<Sum> \<parallel>p\<^sub>i\<parallel>\<^sup>2\<close>, with the sums over the points.
  The two definitions below follow these words, with the quotients of numpy.
\<close>

definition spec_scale :: "mat3 \<Rightarrow> vec3 list \<Rightarrow> vec3 list \<Rightarrow> fnum" where
  "spec_scale R distorted perfect =
     fdiv (Fin (\<Sum>i<length perfect. dot (mat_vec R (distorted ! i)) (perfect ! i)))
          (Fin (\<Sum>i<length perfect. dot (mat_vec R (distorted ! i)) (mat_vec R (distorted ! i))))"

definition fnorm2 :: "fvec3 \<Rightarrow> fnum" where
  "fnorm2 v = fdot v v"

definition fsum :: "fnum list \<Rightarrow> fnum" where
  "fsum xs = foldr fadd xs (Fin 0)"

definition spec_csm :: "mat3 \<Rightarrow> vec3 list \<Rightarrow> vec3 list \<Rightarrow> fnum" where
  "spec_csm R distorted perfect =
     fmul (Fin 100)
       (fdiv (fsum (map (\<lambda>i. fnorm2 (fdiff (perfect ! i)
                                  (fscale (spec_scale R distorted perfect)
                                     (mat_vec R (distorted ! i)))))
                      [0..<length perfect]))
             (Fin (\<Sum>i<length perfect. dot (perfect ! i) (perfect ! i))))"

section \<open>A library instance and two sites\<close>

text \<open>
  An instance of the library parameters, for running the searches on concrete sites.
  A plane is its normal vector and offset, \<open>n\<cdot>x + d = 0\<close>; a point is in the plane when
  its distance to it is at most the tolerance, and on the first side when \<open>n\<cdot>x + d\<close>
  is negative. \<open>sort_separation\<close> sorts the three index lists and puts the smaller
  side first; \<open>separation_in_list\<close> looks for a recorded separation with the same
  in-plane indices. Two points are collinear with a third when the triangle of the three
  has less than \<open>tolerance\<close> times the area of the rectangle of its two edges at the
  third, compared here by their squares. \<open>diagonal_svd\<close> decomposes a diagonal matrix
  (it reads the diagonal only), and the generator draws the rotations of the identity.
  The plane constructors and the ordering of projected points are not used by these
  runs.
\<close>

type_synonym plane = "vec3 \<times> real"

fun vsub :: "vec3 \<Rightarrow> vec3 \<Rightarrow> vec3" where
  "vsub (a, b, c) (x, y, z) = (a - x, b - y, c - z)"

fun cross :: "vec3 \<Rightarrow> vec3 \<Rightarrow> vec3" where
  "cross (a, b, c) (x, y, z) = (b * z - c * y, c * x - a * z, a * y - b * x)"

definition plane_indices_separate :: "plane \<Rightarrow> vec3 list \<Rightarrow> real \<Rightarrow> separation_indices" where
  "plane_indices_separate pl points dist_tolerance =
     (case pl of (n, d) \<Rightarrow>
        (let ips = enumerate 0 points;
             inplane = (\<lambda>pp. \<bar>dot n pp + d\<bar> \<le> dist_tolerance);
             side1 = map fst (filter (\<lambda>(ip, pp). \<not> inplane pp \<and> dot n pp + d < 0) ips);
             inp = map fst (filter (\<lambda>(ip, pp). inplane pp) ips);
             side2 = map fst (filter (\<lambda>(ip, pp). \<not> inplane pp \<and> \<not> dot n pp + d < 0) ips)
         in (side1, inp, side2)))"

definition plane_sort_separation :: "separation_indices \<Rightarrow> separation_indices" where
  "plane_sort_separation sep =
     (case sep of (s0, s1, s2) \<Rightarrow>
        if length s0 > length s2 then (sort s2, sort s1, sort s0)
        else (sort s0, sort s1, sort s2))"

definition plane_separation_in_list ::
  "separation_indices \<Rightarrow> separation_indices list \<Rightarrow> bool" where
  "plane_separation_in_list sep seps =
     list_ex (\<lambda>s. fst (snd s) = fst (snd (plane_sort_separation sep))) seps"

definition plane_collinear :: "vec3 \<Rightarrow> vec3 \<Rightarrow> vec3 \<Rightarrow> real \<Rightarrow> bool" where
  "plane_collinear p1 p2 p3 tolerance =
     (let e1 = vsub p1 p3; e2 = vsub p2 p3; n = cross e1 e2
      in dot n n / 4 < tolerance * tolerance * dot e1 e1 * dot e2 e2)"

definition diagonal_svd :: svd_fun where
  "diagonal_svd H =
     (case H of ((a, _, _), (_, b, _), (_, _, c)) \<Rightarrow>
        (ident3, (\<bar>a\<bar>, \<bar>b\<bar>, \<bar>c\<bar>),
         ((if a < 0 then - 1 else 1, 0, 0),
          (0, if b < 0 then - 1 else 1, 0),
          (0, 0, if c < 0 then - 1 else 1))))"

definition plane_library :: "plane library" where
  "plane_library =
     \<lparr>svd = diagonal_svd,
      rng_permutation = (\<lambda>k n. rotate k [0..<n]),
      collinear = plane_collinear,
      Plane_from_3points = undefined,
      Plane_from_npoints = undefined,
      indices_separate = plane_indices_separate,
      project_and_to2dim_ordered_indices = undefined,
      sort_separation = plane_sort_separation,
      separation_in_list = plane_separation_in_list\<rparr>"

text \<open>An octahedral site: six neighbours on the axes around a central site at the
  origin, which is also both centroids; and the octahedron as reference geometry, with
  one separation-plane algorithm of signature \<open>1 | 4 | 1\<close>.\<close>

definition octahedron_points :: "vec3 list" where
  "octahedron_points =
     [(1, 0, 0), (- 1, 0, 0), (0, 1, 0), (0, - 1, 0), (0, 0, 1), (0, 0, - 1)]"

definition geometry_around_origin :: "vec3 list \<Rightarrow> abstract_geometry" where
  "geometry_around_origin ps =
     \<lparr>arr_points_wcs_csc = vzero # ps, arr_points_wocs_csc = ps,
      arr_points_wcs_ctwcc = vzero # ps, arr_points_wocs_ctwcc = ps,
      arr_points_wcs_ctwocc = vzero # ps, arr_points_wocs_ctwocc = ps,
      coords = ps, central_site = vzero, bare_centre = vzero,
      centroid_with_centre = vzero, centroid_without_centre = vzero\<rparr>"

definition octahedron_plane_args :: separation_plane_args where
  "octahedron_plane_args =
     \<lparr>arg_plane_points = [0, 1, 2, 3], arg_mirror_plane = True, arg_ordered_plane = False,
      arg_point_groups = Some [[4], [5]], arg_ordered_point_groups = None,
      arg_explicit_permutations = Some [[0, 1, 2, 3, 4, 5]],
      arg_minimum_number_of_points = Some 2,
      arg_explicit_optimized_permutations = None, arg_multiplicity = None,
      arg_other_plane_points = None\<rparr>"

definition octahedron_plane :: separation_plane where
  "octahedron_plane =
     \<lparr>mirror_plane = True, plane_points = [0, 1, 2, 3], point_groups = [[4], [5]],
      hash_of = 40101, ordered_plane = False, ordered_point_groups = [False, False],
      explicit_permutations = Some [[0, 1, 2, 3, 4, 5]],
      explicit_optimized_permutations = None,
      permutations_attr = Some [[0, 1, 2, 3, 4, 5]], multiplicity = None,
      other_plane_points = None, minimum_number_of_points = Some 2,
      maximum_number_of_points = 4, ref_separation_perm = [4, 0, 1, 2, 3, 5],
      argsorted_ref_separation_perm = [1, 2, 3, 4, 0, 5], separation = (1, 4, 1)\<rparr>"

definition octahedron_cg :: coordination_geometry where
  "octahedron_cg =
     \<lparr>mp_symbol = ''O:6'', ce_symbol = ''O:6'', coordination = Some 6, has_points = True,
      deactivate = False, algorithms = Some [SeparationPlane octahedron_plane],
      equivalent_indices = None\<rparr>"

definition finder_at :: "vec3 list \<Rightarrow> coordination_geometry list \<Rightarrow> finder" where
  "finder_at ps catalog =
     \<lparr>local_geometry = geometry_around_origin ps, allcg = catalog,
      permutations_safe_override = False, plane_safe_permutations = False\<rparr>"

definition xy_plane :: plane where
  "xy_plane = ((0, 0, 1), 0)"


text \<open>A linear site: two neighbours opposite each other at distance 2 around the
  origin; and the linear reference geometry with unit distances, once with its two
  explicit permutations, once with a separation-plane algorithm through both points.\<close>

definition linear_points :: "vec3 list" where
  "linear_points = [(1, 0, 0), (- 1, 0, 0)]"

definition stretched_linear_points :: "vec3 list" where
  "stretched_linear_points = [(2, 0, 0), (- 2, 0, 0)]"

definition linear_cg :: coordination_geometry where
  "linear_cg =
     \<lparr>mp_symbol = ''L:2'', ce_symbol = ''L:2'', coordination = Some 2, has_points = True,
      deactivate = False,
      algorithms = Some [ExplicitPermutationsAlgorithm [[0, 1], [1, 0]]],
      equivalent_indices = None\<rparr>"

definition linear_plane :: separation_plane where
  "linear_plane =
     \<lparr>mirror_plane = False, plane_points = [0, 1], point_groups = [[], []],
      hash_of = 20000, ordered_plane = False, ordered_point_groups = [False, False],
      explicit_permutations = Some [[0, 1]], explicit_optimized_permutations = None,
      permutations_attr = Some [[0, 1]], multiplicity = None,
      other_plane_points = None, minimum_number_of_points = Some 2,
      maximum_number_of_points = 2, ref_separation_perm = [0, 1],
      argsorted_ref_separation_perm = [0, 1], separation = (0, 2, 0)\<rparr>"

definition linear_plane_cg :: coordination_geometry where
  "linear_plane_cg = linear_cg\<lparr>algorithms := Some [SeparationPlane linear_plane]\<rparr>"

text \<open>The reference geometry of a single neighbour, and a site with one neighbour.\<close>

definition single_neighbor_cg :: coordination_geometry where
  "single_neighbor_cg =
     \<lparr>mp_symbol = ''S:1'', ce_symbol = ''S:1'', coordination = Some 1, has_points = True,
      deactivate = False, algorithms = Some [ExplicitPermutationsAlgorithm [[0]]],
      equivalent_indices = None\<rparr>"

definition single_point :: "vec3 list" where
  "single_point = [(1, 0, 0)]"

definition reference_of :: "coordination_geometry \<Rightarrow> error + abstract_geometry" where
  "reference_of cg =
     (if mp_symbol cg = ''O:6'' then Inr (geometry_around_origin octahedron_points)
      else if mp_symbol cg = ''L:2'' then Inr (geometry_around_origin linear_points)
      else Inl ValueError)"

section \<open>Notions used in the statements\<close>

text \<open>The measures of a search result, whichever its shape.\<close>

fun measures_of :: "search_result \<Rightarrow> sm_info list" where
  "measures_of (Search sms perms algos l2ps p2ls) = sms"
| "measures_of (Testing sms perms seps) = sms"

text \<open>What the lists of a separation-plane search satisfy between two planes: the index
  maps are those of the permutations, there is one measure for each permutation, and a
  plane counted has left a measure.\<close>

definition search_acc_ok :: "search_acc \<Rightarrow> bool" where
  "search_acc_ok r \<longleftrightarrow>
     res_local2perfect_maps r = map local2perfect_of (res_permutations r)
     \<and> res_perfect2local_maps r = map perfect2local_of (res_permutations r)
     \<and> length (res_measures r) = length (res_permutations r)
     \<and> (0 < nplanes r \<longrightarrow> res_measures r \<noteq> [])"

text \<open>The search of a geometry by an orchestrator: the reference views \<open>pg\<close> of the
  geometry and the result \<open>res\<close> of its search against the perfect points, by the plain
  search or by the cached separation-plane search.\<close>

definition search_of_geometry ::
  "'p library \<Rightarrow> (coordination_geometry \<Rightarrow> error + abstract_geometry)
     \<Rightarrow> ('n \<Rightarrow> coordination_geometry \<Rightarrow> vec3 list \<Rightarrow> error + search_result \<times> 'n)
     \<Rightarrow> finder \<Rightarrow> nat option \<Rightarrow> coordination_geometry \<Rightarrow> abstract_geometry
     \<Rightarrow> search_result \<Rightarrow> bool" where
  "search_of_geometry lib from_cg sepplane_optim self optimization g pg res \<longleftrightarrow>
     from_cg g = Inr pg
     \<and> (\<exists>pp. points_wcs_ctwcc pg None = Inr pp
           \<and> (coordination_geometry_symmetry_measures lib self g False pp optimization
                 = Inr res
               \<or> (\<exists>nb nb'. sepplane_optim nb g pp = Inr (res, nb'))))"

text \<open>What numpy documents of \<open>svd\<close>: for a square array \<open>H\<close> it returns unitary
  arrays \<open>U\<close> and \<open>Vt\<close> and the singular values \<open>S\<close>, non-negative and in descending
  order, with \<open>H = U \<cdot> diag(S) \<cdot> Vt\<close>.\<close>

definition orthogonal3 :: "mat3 \<Rightarrow> bool" where
  "orthogonal3 A \<longleftrightarrow>
     matmul (transpose3 A) A = ident3 \<and> matmul A (transpose3 A) = ident3"

fun diag3 :: "vec3 \<Rightarrow> mat3" where
  "diag3 (a, b, c) = ((a, 0, 0), (0, b, 0), (0, 0, c))"

definition is_svd :: "mat3 \<Rightarrow> mat3 \<times> vec3 \<times> mat3 \<Rightarrow> bool" where
  "is_svd H usv \<longleftrightarrow>
     (case usv of (U, S, Vt) \<Rightarrow>
        orthogonal3 U \<and> orthogonal3 Vt
        \<and> (case S of (a, b, c) \<Rightarrow> b \<le> a \<and> c \<le> b \<and> 0 \<le> c)
        \<and> matmul (matmul U (diag3 S)) Vt = H)"

text \<open>The trace of a matrix, and what it is for a point set to be an exact similarity
  transform of another under the correspondence of their positions: every point is
  the image of its counterpart under one orthogonal matrix (a rotation or a reflection)
  followed by one positive scale.\<close>

fun trace3 :: "mat3 \<Rightarrow> real" where
  "trace3 ((a, b, c), (d, e, f), (g, h, i)) = a + e + i"

definition similarity_transform_of :: "vec3 list \<Rightarrow> vec3 list \<Rightarrow> bool" where
  "similarity_transform_of distorted perfect \<longleftrightarrow>
     (\<exists>k Q. 0 < k \<and> orthogonal3 Q
            \<and> distorted = map (\<lambda>v. smult k (mat_vec Q v)) perfect)"



section \<open>Basic facts\<close>

lemma bindE_Inr_iff: "bindE m f = Inr y \<longleftrightarrow> (\<exists>x. m = Inr x \<and> f x = Inr y)"
  by (cases m) (simp_all add: bindE_def)

lemma bindE_Inr [simp]: "bindE (Inr x) f = f x"
  by (simp add: bindE_def)

lemma bindE_Inl [simp]: "bindE (Inl e) f = Inl e"
  by (simp add: bindE_def)

lemma nth_or_raise_Inr_iff: "nth_or_raise xs i = Inr x \<longleftrightarrow> i < length xs \<and> x = xs ! i"
  by (auto simp: nth_or_raise_def)

section \<open>The invariant of a separation plane\<close>

text \<open>
  C8. A \<open>SeparationPlane\<close> that the constructor returns has two point groups of which
  the first is no larger than the second, and its separation signature is the triple of
  the sizes of the first group, the plane points and the second group; the constructor
  fails with RuntimeError whenever the first group given is strictly larger than the
  second.
\<close>

theorem SeparationPlane_init_groups_ordered:
  "(\<forall>sp. SeparationPlane_init a = Inr sp \<longrightarrow>
       2 \<le> length (point_groups sp)
       \<and> length (point_groups sp ! 0) \<le> length (point_groups sp ! 1)
       \<and> separation sp = (length (point_groups sp ! 0), length (plane_points sp),
                          length (point_groups sp ! 1)))
   \<and> (\<forall>g0 g1 rest. arg_point_groups a = Some (g0 # g1 # rest) \<and> length g1 < length g0
         \<longrightarrow> SeparationPlane_init a = Inl RuntimeError)"
  by (auto simp: SeparationPlane_init_def nth_or_raise_def Let_def
           split: option.splits if_splits sum.splits)

theorem SeparationPlane_init_groups_ordered_witness:
  "SeparationPlane_init octahedron_plane_args = Inr octahedron_plane
   \<and> length (point_groups octahedron_plane ! 0) \<le> length (point_groups octahedron_plane ! 1)
   \<and> separation octahedron_plane = (1, 4, 1)
   \<and> SeparationPlane_init (octahedron_plane_args\<lparr>arg_point_groups := Some [[4, 5], [3]]\<rparr>)
       = Inl RuntimeError"
proof -
  have built: "SeparationPlane_init octahedron_plane_args = Inr octahedron_plane"
    by (simp add: SeparationPlane_init_def octahedron_plane_args_def octahedron_plane_def
                  nth_or_raise_def argsort_def)
  have given: "arg_point_groups (octahedron_plane_args\<lparr>arg_point_groups := Some [[4, 5], [3]]\<rparr>)
                 = Some ([4, 5] # [3] # []) \<and> length [3::nat] < length [4, 5::nat]"
    by simp
  from built given
    SeparationPlane_init_groups_ordered [of octahedron_plane_args]
    SeparationPlane_init_groups_ordered
      [of "octahedron_plane_args\<lparr>arg_point_groups := Some [[4, 5], [3]]\<rparr>"]
  show ?thesis by (simp add: octahedron_plane_def)
qed

section \<open>The index maps of a permutation\<close>

lemma fill_maps_fst:
  "fst (fill_maps k perm (p2l, l2p)) i =
     (if k \<le> i \<and> i < k + length perm then Some (perm ! (i - k)) else p2l i)"
proof (induction perm arbitrary: k p2l l2p)
  case Nil
  then show ?case by auto
next
  case (Cons pp perm)
  show ?case
    by (auto simp: Cons.IH nth_Cons' Suc_diff_le)
qed

lemma fill_maps_snd_notin:
  "j \<notin> set perm \<Longrightarrow> snd (fill_maps k perm (p2l, l2p)) j = l2p j"
  by (induction perm arbitrary: k p2l l2p) auto

lemma fill_maps_snd_in:
  "distinct perm \<Longrightarrow> i < length perm \<Longrightarrow>
     snd (fill_maps k perm (p2l, l2p)) (perm ! i) = Some (k + i)"
proof (induction perm arbitrary: k p2l l2p i)
  case Nil
  then show ?case by simp
next
  case (Cons pp perm)
  show ?case
  proof (cases i)
    case 0
    with Cons.prems show ?thesis by (simp add: fill_maps_snd_notin)
  next
    case (Suc i')
    with Cons.prems Cons.IH[of i' "Suc k"] show ?thesis by simp
  qed
qed

lemma perfect2local_of_apply:
  "perfect2local_of perm i = (if i < length perm then Some (perm ! i) else None)"
  by (simp add: perfect2local_of_def fill_maps_fst)

lemma local2perfect_of_nth:
  "distinct perm \<Longrightarrow> i < length perm \<Longrightarrow> local2perfect_of perm (perm ! i) = Some i"
  using fill_maps_snd_in[of perm i 0] by (simp add: local2perfect_of_def)

lemma local2perfect_of_notin:
  "j \<notin> set perm \<Longrightarrow> local2perfect_of perm j = None"
  by (simp add: local2perfect_of_def fill_maps_snd_notin)

lemma range_perm_distinct:
  assumes "set perm = {0..<length perm}"
  shows "distinct perm"
proof -
  have "card (set perm) = length perm" using assms by simp
  then show ?thesis by (rule card_distinct)
qed

lemma maps_of_permutation:
  assumes "set perm = {0..<length perm}"
  shows "(\<forall>i<length perm. perfect2local_of perm i = Some (perm ! i)
            \<and> local2perfect_of perm (perm ! i) = Some i)
       \<and> dom (perfect2local_of perm) = {0..<length perm}
       \<and> dom (local2perfect_of perm) = {0..<length perm}
       \<and> (\<forall>i j. perfect2local_of perm i = Some j \<longleftrightarrow> local2perfect_of perm j = Some i)"
proof -
  have d: "distinct perm" using assms by (rule range_perm_distinct)
  have a: "\<forall>i<length perm. perfect2local_of perm i = Some (perm ! i)
            \<and> local2perfect_of perm (perm ! i) = Some i"
    using d by (simp add: perfect2local_of_apply local2perfect_of_nth)
  have b: "dom (perfect2local_of perm) = {0..<length perm}"
    by (auto simp: perfect2local_of_apply dom_def)
  have c: "dom (local2perfect_of perm) = {0..<length perm}"
  proof -
    have "dom (local2perfect_of perm) = set perm"
    proof (rule set_eqI)
      fix j
      show "j \<in> dom (local2perfect_of perm) \<longleftrightarrow> j \<in> set perm"
      proof
        assume "j \<in> dom (local2perfect_of perm)"
        then show "j \<in> set perm" using local2perfect_of_notin[of j perm] by (cases "j \<in> set perm") auto
      next
        assume "j \<in> set perm"
        then obtain i where "i < length perm" "perm ! i = j" by (auto simp: in_set_conv_nth)
        then show "j \<in> dom (local2perfect_of perm)"
          using local2perfect_of_nth[OF d, of i] by auto
      qed
    qed
    then show ?thesis using assms by simp
  qed
  have e: "\<forall>i j. perfect2local_of perm i = Some j \<longleftrightarrow> local2perfect_of perm j = Some i"
  proof (intro allI iffI)
    fix i j
    assume "perfect2local_of perm i = Some j"
    then have "i < length perm" "j = perm ! i"
      by (auto simp: perfect2local_of_apply split: if_splits)
    then show "local2perfect_of perm j = Some i" using a by simp
  next
    fix i j
    assume h: "local2perfect_of perm j = Some i"
    then have "j \<in> set perm" using local2perfect_of_notin[of j perm] by (cases "j \<in> set perm") auto
    then obtain i' where i': "i' < length perm" "perm ! i' = j" by (auto simp: in_set_conv_nth)
    then have "local2perfect_of perm j = Some i'" using a by auto
    with h have "i = i'" by simp
    then show "perfect2local_of perm i = Some j" using a i' by simp
  qed
  from a b c e show ?thesis by blast
qed

section \<open>Invariants of the scan of one plane\<close>

lemma sep_perms_loop_inv:
  "sep_perms_loop lib self cg argref sperm testing pp sps (st, acc) = Inr (st', acc') \<Longrightarrow>
     plane_found acc' = plane_found acc \<and> classified st' = classified st
     \<and> plane_separations st' = plane_separations st
     \<and> (length (acc_measures acc) = length (acc_permutations acc)
          \<longrightarrow> length (acc_measures acc') = length (acc_permutations acc'))"
proof (induction sps arbitrary: st acc)
  case Nil
  then show ?case by simp
next
  case (Cons sp sps)
  from Cons.prems obtain perm1 pp' go where
    go: "(case (tested_permutations st, equivalent_indices cg) of
              (Some tested, Some _) \<Rightarrow>
                bindE (ref_permutation cg pp') (\<lambda>tuple_ref_perm.
                  if tuple_ref_perm \<in> tested then Inr None
                  else Inr (Some (st\<lparr>tested_permutations :=
                                        Some (insert tuple_ref_perm tested)\<rparr>)))
            | _ \<Rightarrow> Inr (Some st)) = Inr go"
    and rest: "(case go of
       None \<Rightarrow> sep_perms_loop lib self cg argref sperm testing pp sps (st, acc)
     | Some st1 \<Rightarrow>
         bindE (score_permutation lib self pp pp') (\<lambda>sm.
         sep_perms_loop lib self cg argref sperm testing pp sps
           (st1, acc\<lparr>acc_permutations := acc_permutations acc @ [pp'],
                     acc_separation_permutations :=
                       (if testing then acc_separation_permutations acc @ [sp]
                        else acc_separation_permutations acc),
                     acc_measures := acc_measures acc @ [sm]\<rparr>))) = Inr (st', acc')"
    by (auto simp: bindE_Inr_iff)
  show ?case
  proof (cases go)
    case None
    with rest Cons.IH[of st acc] show ?thesis by simp
  next
    case (Some st1)
    from go Some have st1: "classified st1 = classified st"
      "plane_separations st1 = plane_separations st"
      by (auto simp: bindE_Inr_iff split: option.splits if_splits)
    from rest Some obtain sm where
      "sep_perms_loop lib self cg argref sperm testing pp sps
           (st1, acc\<lparr>acc_permutations := acc_permutations acc @ [pp'],
                     acc_separation_permutations :=
                       (if testing then acc_separation_permutations acc @ [sp]
                        else acc_separation_permutations acc),
                     acc_measures := acc_measures acc @ [sm]\<rparr>) = Inr (st', acc')"
      by (auto simp: bindE_Inr_iff)
    from Cons.IH[OF this] st1 show ?thesis by simp
  qed
qed

lemma tolerance_step_inv:
  assumes "tolerance_step lib self cg sp pl testing pp tol (st, acc) = Inr (st', acc')"
  shows "plane_found acc' = plane_found acc \<and> classified st' = classified st @ [tol]
     \<and> (length (acc_measures acc) = length (acc_permutations acc)
          \<longrightarrow> length (acc_measures acc') = length (acc_permutations acc'))"
  using assms
  unfolding tolerance_step_def
  by (auto simp: bindE_Inr_iff Let_def split: if_splits prod.splits option.splits
           dest!: sep_perms_loop_inv)

lemma tolerance_loop_inv:
  "tolerance_loop lib self cg sp pl testing pp tols (st, acc) = Inr (st', acc') \<Longrightarrow>
     \<not> plane_found acc \<Longrightarrow>
     \<not> plane_found acc' \<and> classified st' = classified st @ tols
     \<and> (length (acc_measures acc) = length (acc_permutations acc)
          \<longrightarrow> length (acc_measures acc') = length (acc_permutations acc'))"
proof (induction tols arbitrary: st acc)
  case Nil
  then show ?case by simp
next
  case (Cons tol tols)
  from Cons.prems(1) obtain st1 acc1 where
    step: "tolerance_step lib self cg sp pl testing pp tol (st, acc) = Inr (st1, acc1)"
    and rest: "(if plane_found acc1 then Inr (st1, acc1)
                else tolerance_loop lib self cg sp pl testing pp tols (st1, acc1)) = Inr (st', acc')"
    by (auto simp: bindE_Inr_iff)
  from tolerance_step_inv[OF step] Cons.prems(2)
  have a: "\<not> plane_found acc1" "classified st1 = classified st @ [tol]"
    "length (acc_measures acc) = length (acc_permutations acc)
          \<longrightarrow> length (acc_measures acc1) = length (acc_permutations acc1)"
    by auto
  from rest a(1) have "tolerance_loop lib self cg sp pl testing pp tols (st1, acc1) = Inr (st', acc')"
    by simp
  from Cons.IH[OF this a(1)] a show ?case by simp
qed

lemma cg_csm_separation_plane_classified:
  assumes "cg_csm_separation_plane lib self cg sp pl (Some DIST_TOLERANCES) testing pp st = Inr (res, st')"
  shows "classified st' = classified st @ DIST_TOLERANCES"
proof -
  let ?acc0 = "\<lparr>plane_found = False, acc_permutations = [], acc_measures = [],
                  acc_separation_permutations = [], algo_name = []\<rparr>"
  have ne: "DIST_TOLERANCES \<noteq> []" by (simp add: DIST_TOLERANCES_def)
  show ?thesis
  proof (cases "tolerance_loop lib self cg sp pl testing pp DIST_TOLERANCES (st, ?acc0)")
    case (Inl e)
    with assms ne show ?thesis by (simp add: cg_csm_separation_plane_def Let_def)
  next
    case (Inr sa)
    obtain st1 acc' where sa: "sa = (st1, acc')" by (cases sa)
    from tolerance_loop_inv[OF Inr[unfolded sa]]
    have "classified st1 = classified st @ DIST_TOLERANCES" by simp
    with assms ne Inr sa show ?thesis
      by (auto simp: cg_csm_separation_plane_def Let_def split: if_splits)
  qed
qed

lemma cg_csm_separation_plane_Some:
  assumes "cg_csm_separation_plane lib self cg sp pl tols testing pp st = Inr (Some (ms, perm, al, seps), st')"
  shows "ms \<noteq> [] \<and> length ms = length perm
     \<and> (\<not> testing \<longrightarrow> al = AlgoList (replicate (length perm) (AlgoType SEPARATION_PLANE)))"
proof -
  let ?tols = "(case tols of None \<Rightarrow> DIST_TOLERANCES
             | Some ts \<Rightarrow> if ts = [] then DIST_TOLERANCES else ts)"
  let ?acc0 = "\<lparr>plane_found = False, acc_permutations = [], acc_measures = [],
                  acc_separation_permutations = [], algo_name = []\<rparr>"
  show ?thesis
  proof (cases "tolerance_loop lib self cg sp pl testing pp ?tols (st, ?acc0)")
    case (Inl e)
    with assms show ?thesis by (simp add: cg_csm_separation_plane_def Let_def)
  next
    case (Inr sa)
    obtain st1 acc' where sa: "sa = (st1, acc')" by (cases sa)
    from tolerance_loop_inv[OF Inr[unfolded sa]] have
      "\<not> plane_found acc'" "length (acc_measures acc') = length (acc_permutations acc')"
      by auto
    with assms Inr sa show ?thesis
      by (auto simp: cg_csm_separation_plane_def Let_def split: if_splits)
  qed
qed

section \<open>Scoring a permutation and the random fallback\<close>

lemma mapE_Inr_iff:
  "mapE f xs = Inr ys \<longleftrightarrow> length ys = length xs \<and> (\<forall>i<length xs. f (xs ! i) = Inr (ys ! i))"
proof (induction xs arbitrary: ys)
  case Nil
  then show ?case by auto
next
  case (Cons x xs)
  show ?case
  proof (cases "f x")
    case (Inl e)
    then show ?thesis by (auto simp: nth_Cons')
  next
    case fx: (Inr y)
    show ?thesis
    proof (cases "mapE f xs")
      case (Inl e)
      have "\<not> (length (tl ys) = length xs \<and> (\<forall>i<length xs. f (xs ! i) = Inr (tl ys ! i)))"
        using Cons.IH[of "tl ys"] Inl by simp
      then have "\<not> (length ys = length (x # xs) \<and> (\<forall>i<length (x # xs). f ((x # xs) ! i) = Inr (ys ! i)))"
        by (cases ys) fastforce+
      with fx Inl show ?thesis by simp
    next
      case (Inr zs)
      from Cons.IH[of zs] Inr have zs: "length zs = length xs" "\<forall>i<length xs. f (xs ! i) = Inr (zs ! i)"
        by auto
      show ?thesis
      proof
        assume "mapE f (x # xs) = Inr ys"
        with fx Inr have "ys = y # zs" by simp
        with zs fx show "length ys = length (x # xs) \<and> (\<forall>i<length (x # xs). f ((x # xs) ! i) = Inr (ys ! i))"
          by (auto simp: nth_Cons')
      next
        assume h: "length ys = length (x # xs) \<and> (\<forall>i<length (x # xs). f ((x # xs) ! i) = Inr (ys ! i))"
        then obtain y' ys' where ys: "ys = y' # ys'" by (cases ys) auto
        from h ys have "f x = Inr y'" by fastforce
        with fx have y': "y' = y" by simp
        from h ys have "length ys' = length xs \<and> (\<forall>i<length xs. f (xs ! i) = Inr (ys' ! i))"
          by fastforce
        with Cons.IH[of ys'] Inr have "ys' = zs" by simp
        with fx Inr ys y' show "mapE f (x # xs) = Inr ys" by simp
      qed
    qed
  qed
qed

lemma take_indices_Inr_iff:
  "take_indices xs idx = Inr ys \<longleftrightarrow>
     length ys = length idx \<and> (\<forall>i<length idx. idx ! i < length xs \<and> ys ! i = xs ! (idx ! i))"
proof -
  have "\<And>i. nth_or_raise xs (idx ! i) = Inr (ys ! i) \<longleftrightarrow>
            idx ! i < length xs \<and> ys ! i = xs ! (idx ! i)"
    by (simp add: nth_or_raise_Inr_iff)
  then show ?thesis
    unfolding take_indices_def mapE_Inr_iff by simp
qed

lemma take_indices_total:
  "\<forall>i\<in>set idx. i < length xs \<Longrightarrow> take_indices xs idx = Inr (map ((!) xs) idx)"
  by (simp add: take_indices_Inr_iff)

lemma matmul_T_Inr_iff: "matmul_T A B = Inr H \<longleftrightarrow> length A = length B \<and> H = outer_sum A B"
  by (auto simp: matmul_T_def)

lemma find_rotation_Inr_iff:
  "find_rotation sv d p = Inr R \<longleftrightarrow>
     length d = length p \<and>
     R = (case sv (outer_sum d p) of (U, S, Vt) \<Rightarrow> matmul (transpose3 Vt) (transpose3 U))"
proof (cases "length d = length p")
  case True
  then show ?thesis
    by (cases "sv (outer_sum d p)" rule: prod_cases3)
       (simp add: find_rotation_def matmul_T_def eq_commute)
next
  case False
  then show ?thesis by (simp add: find_rotation_def matmul_T_def)
qed

lemma symmetry_measure_mismatch:
  "length d \<noteq> 1 \<Longrightarrow> length d \<noteq> length p \<Longrightarrow> symmetry_measure sv d p = Inl ValueError"
  by (simp add: symmetry_measure_def find_rotation_def matmul_T_def)

lemma symmetry_measure_single:
  "length d = 1 \<Longrightarrow>
     symmetry_measure sv d p =
       Inr \<lparr>symmetry_measure_of = Fin 0, scaling_factor = None, rotation_matrix = None,
            translation_vector = None\<rparr>"
  by (simp add: symmetry_measure_def)

lemma symmetry_measure_returns:
  assumes "length d = 1 \<or> length d = length p"
  shows "\<exists>sm. symmetry_measure sv d p = Inr sm"
proof (cases "length d = 1")
  case True
  then show ?thesis by (simp add: symmetry_measure_single)
next
  case False
  with assms have l: "length d = length p" by simp
  obtain U S Vt where sv: "sv (outer_sum d p) = (U, S, Vt)" by (rule prod_cases3)
  have fr: "find_rotation sv d p = Inr (matmul (transpose3 Vt) (transpose3 U))"
    using l sv by (simp add: find_rotation_Inr_iff)
  obtain a b c where fs: "find_scaling_factor d p (matmul (transpose3 Vt) (transpose3 U)) = (a, b, c)"
    by (rule prod_cases3)
  show ?thesis using False fr fs by (simp add: symmetry_measure_def Let_def)
qed

lemma symmetry_measure_Inr_lengths:
  "symmetry_measure sv d p = Inr sm \<Longrightarrow> length d = 1 \<or> length d = length p"
  using symmetry_measure_mismatch[of d p sv] by auto

lemma score_permutation_returns:
  assumes "\<forall>i\<in>set perm. i < length (arr_points_wocs_ctwcc (local_geometry self))"
    and "arr_points_wcs_ctwcc (local_geometry self) \<noteq> []"
    and "length pp = Suc (length perm)"
  shows "\<exists>sm. score_permutation lib self pp perm = Inr sm"
proof -
  let ?lg = "local_geometry self"
  have v: "points_wcs_ctwcc ?lg (Some perm)
         = Inr (take 1 (arr_points_wcs_ctwcc ?lg) @ map ((!) (arr_points_wocs_ctwcc ?lg)) perm)"
    using assms(1) by (simp add: points_wcs_ctwcc_def view_with_central_def take_indices_total)
  have l: "length (take 1 (arr_points_wcs_ctwcc ?lg) @ map ((!) (arr_points_wocs_ctwcc ?lg)) perm) = length pp"
    using assms(2,3) by (cases "arr_points_wcs_ctwcc ?lg") auto
  from symmetry_measure_returns[of _ pp "svd lib"] l obtain sm where
    "symmetry_measure (svd lib) (take 1 (arr_points_wcs_ctwcc ?lg) @ map ((!) (arr_points_wocs_ctwcc ?lg)) perm) pp = Inr sm"
    by blast
  with v show ?thesis by (simp add: score_permutation_def)
qed


lemma fallback_loop_Inr:
  "fallback_loop lib self pp n idxs = Inr (sms, perms) \<Longrightarrow>
     perms = map (\<lambda>k. rng_permutation lib k n) idxs \<and> length sms = length idxs"
proof (induction idxs arbitrary: sms perms)
  case Nil
  then show ?case by simp
next
  case (Cons k idxs)
  then show ?case
    by (auto simp: bindE_Inr_iff Let_def)
qed

lemma fallback_loop_returns:
  "\<forall>k\<in>set idxs. \<exists>sm. score_permutation lib self pp (rng_permutation lib k n) = Inr sm \<Longrightarrow>
     \<exists>sms. fallback_loop lib self pp n idxs = Inr (sms, map (\<lambda>k. rng_permutation lib k n) idxs)"
proof (induction idxs)
  case Nil
  then show ?case by simp
next
  case (Cons k idxs)
  then obtain sm sms where
    "score_permutation lib self pp (rng_permutation lib k n) = Inr sm"
    "fallback_loop lib self pp n idxs = Inr (sms, map (\<lambda>k. rng_permutation lib k n) idxs)"
    by auto
  then show ?case by (simp add: Let_def)
qed

lemma fallback_random_Inr:
  assumes "coordination_geometry_symmetry_measures_fallback_random lib self cg n_random pp None = Inr res"
    and "0 < n_random"
  shows "\<exists>n sms perms. coordination cg = Some n
     \<and> perms = map (\<lambda>k. rng_permutation lib k n) [0..<n_random] \<and> length sms = n_random
     \<and> res = Search sms perms (replicate n_random APPROXIMATE_FALLBACK)
               (map local2perfect_of perms) (map perfect2local_of perms)"
proof (cases "coordination cg")
  case None
  with assms show ?thesis
    by (simp add: coordination_geometry_symmetry_measures_fallback_random_def)
next
  case (Some n)
  show ?thesis
  proof (cases "fallback_loop lib self pp n [0..<n_random]")
    case (Inl e)
    with assms Some show ?thesis
      by (simp add: coordination_geometry_symmetry_measures_fallback_random_def)
  next
    case (Inr sp)
    obtain sms perms where sp: "sp = (sms, perms)" by (cases sp)
    from fallback_loop_Inr[OF Inr[unfolded sp]]
    have p: "perms = map (\<lambda>k. rng_permutation lib k n) [0..<n_random]" "length sms = n_random"
      by auto
    have "map (\<lambda>_. APPROXIMATE_FALLBACK) perms = replicate n_random APPROXIMATE_FALLBACK"
      using p(1) by (simp add: map_replicate_const)
    with assms Some Inr sp p show ?thesis
      by (auto simp: coordination_geometry_symmetry_measures_fallback_random_def)
  qed
qed

section \<open>Invariants of the separation-plane search\<close>

lemma combinations_loop_ok:
  "combinations_loop lib self cg sp testing pp np combos (st, r) = Inr (st', r') \<Longrightarrow>
     search_acc_ok r \<Longrightarrow> search_acc_ok r'"
proof (induction combos arbitrary: st r)
  case Nil
  then show ?case by simp
next
  case (Cons combo combos)
  show ?case
  proof (cases "plane_of_combination lib self np combo")
    case (Inl e)
    with Cons.prems show ?thesis by simp
  next
    case plane: (Inr po)
    show ?thesis
    proof (cases po)
      case None
      with plane Cons.prems Cons.IH[of st r] show ?thesis by simp
    next
      case (Some pl)
      show ?thesis
      proof (cases "cg_csm_separation_plane lib self cg sp pl (Some DIST_TOLERANCES) testing pp st")
        case (Inl e)
        with plane Some Cons.prems show ?thesis by simp
      next
        case scan: (Inr cs)
        obtain cgsm st1 where cs: "cs = (cgsm, st1)" by (cases cs)
        show ?thesis
        proof (cases cgsm)
          case None
          with plane Some scan cs Cons.prems Cons.IH[of st1 r] show ?thesis by simp
        next
          case found: (Some res)
          obtain ms perm al seps where res: "res = (ms, perm, al, seps)" by (cases res)
          let ?r1 = "r\<lparr>res_measures := res_measures r @ ms,
                       res_permutations := res_permutations r @ perm,
                       res_perfect2local_maps :=
                         res_perfect2local_maps r @ map perfect2local_of perm,
                       res_local2perfect_maps :=
                         res_local2perfect_maps r @ map local2perfect_of perm,
                       res_algos :=
                         (case al of AlgoList tags \<Rightarrow> res_algos r @ tags
                                     | AlgoName _ \<Rightarrow> res_algos r),
                       res_separation_permutations :=
                         (if testing then res_separation_permutations r @ seps
                          else res_separation_permutations r),
                       nplanes := nplanes r + 1\<rparr>"
          from cg_csm_separation_plane_Some[OF scan[unfolded cs found res]]
          have ms: "ms \<noteq> []" "length ms = length perm" by auto
          have ok1: "search_acc_ok ?r1"
            using Cons.prems(2) ms by (simp add: search_acc_ok_def)
          have "combinations_loop lib self cg sp testing pp np combos (st1, ?r1) = Inr (st', r')"
            using plane Some scan cs found res Cons.prems(1) by simp
          from Cons.IH[OF this ok1] show ?thesis .
        qed
      qed
    qed
  qed
qed

lemma npoints_loop_ok:
  "npoints_loop lib self cg sp testing pp nps (st, r) = Inr (st', r') \<Longrightarrow>
     search_acc_ok r \<Longrightarrow> search_acc_ok r'"
proof (induction nps arbitrary: st r)
  case Nil
  then show ?case by simp
next
  case (Cons np nps)
  show ?case
  proof (cases "combinations_loop lib self cg sp testing pp np
              (combinations (coords (local_geometry self)) np) (st, r)")
    case (Inl e)
    with Cons.prems show ?thesis by simp
  next
    case (Inr sr)
    obtain st1 r1 where sr: "sr = (st1, r1)" by (cases sr)
    from combinations_loop_ok[OF Inr[unfolded sr] Cons.prems(2)] have ok1: "search_acc_ok r1" .
    show ?thesis
    proof (cases "0 < nplanes r1")
      case True
      with Inr sr Cons.prems(1) have "r' = r1" by simp
      with ok1 show ?thesis by simp
    next
      case False
      with Inr sr Cons.prems(1)
      have "npoints_loop lib self cg sp testing pp nps (st1, r1) = Inr (st', r')" by simp
      from Cons.IH[OF this ok1] show ?thesis .
    qed
  qed
qed

lemma empty_search_acc_ok: "search_acc_ok empty_search_acc"
  by (simp add: search_acc_ok_def empty_search_acc_def)

lemma separation_plane_search_nonempty:
  assumes "coordination_geometry_symmetry_measures_separation_plane lib self cg sp testing
             tested pp = Inr (res, st')"
  shows "measures_of res \<noteq> []"
proof (cases "minimum_number_of_points sp")
  case None
  with assms show ?thesis
    by (simp add: coordination_geometry_symmetry_measures_separation_plane_def)
next
  case (Some mn)
  let ?loop = "npoints_loop lib self cg sp testing pp
                 [mn..<min (maximum_number_of_points sp) 4 + 1]
                 (new_search_state tested, empty_search_acc)"
  show ?thesis
  proof (cases ?loop)
    case (Inl e)
    with assms Some show ?thesis
      by (simp add: coordination_geometry_symmetry_measures_separation_plane_def)
  next
    case (Inr sr)
    obtain st r where sr: "sr = (st, r)" by (cases sr)
    from npoints_loop_ok[OF Inr[unfolded sr] empty_search_acc_ok] have ok: "search_acc_ok r" .
    show ?thesis
    proof (cases "nplanes r = 0")
      case True
      with assms Some Inr sr have
        "bindE (coordination_geometry_symmetry_measures_fallback_random lib self cg 10 pp None)
           (\<lambda>res. Inr (res, st)) = Inr (res, st')"
        by (simp add: coordination_geometry_symmetry_measures_separation_plane_def)
      then have "coordination_geometry_symmetry_measures_fallback_random lib self cg 10 pp None
                   = Inr res"
        by (auto simp: bindE_Inr_iff)
      from fallback_random_Inr[OF this] obtain sms perms algos l2 p2 where
        "length sms = 10" "res = Search sms perms algos l2 p2"
        by auto
      then show ?thesis by auto
    next
      case False
      with ok have "res_measures r \<noteq> []" by (simp add: search_acc_ok_def)
      with assms Some Inr sr False show ?thesis
        by (auto simp: coordination_geometry_symmetry_measures_separation_plane_def
                 split: if_splits)
    qed
  qed
qed

lemma fallback_random_returns:
  assumes cn: "coordination cg = Some n"
    and draws: "\<forall>k<n_random. length (rng_permutation lib k n) = n
                  \<and> (\<forall>i\<in>set (rng_permutation lib k n).
                        i < length (arr_points_wocs_ctwcc (local_geometry self)))"
    and wcs: "arr_points_wcs_ctwcc (local_geometry self) \<noteq> []"
    and pp: "length pp = Suc n"
  shows "\<exists>sms. length sms = n_random \<and>
     coordination_geometry_symmetry_measures_fallback_random lib self cg n_random pp None =
       Inr (Search sms (map (\<lambda>k. rng_permutation lib k n) [0..<n_random])
              (replicate n_random APPROXIMATE_FALLBACK)
              (map local2perfect_of (map (\<lambda>k. rng_permutation lib k n) [0..<n_random]))
              (map perfect2local_of (map (\<lambda>k. rng_permutation lib k n) [0..<n_random])))"
proof -
  have "\<forall>k\<in>set [0..<n_random]. \<exists>sm. score_permutation lib self pp (rng_permutation lib k n) = Inr sm"
  proof
    fix k assume "k \<in> set [0..<n_random]"
    then have k: "k < n_random" by simp
    with draws pp have "length pp = Suc (length (rng_permutation lib k n))"
      "\<forall>i\<in>set (rng_permutation lib k n). i < length (arr_points_wocs_ctwcc (local_geometry self))"
      by auto
    from score_permutation_returns[OF this(2) wcs this(1)]
    show "\<exists>sm. score_permutation lib self pp (rng_permutation lib k n) = Inr sm" .
  qed
  from fallback_loop_returns[OF this] obtain sms where
    loop: "fallback_loop lib self pp n [0..<n_random]
             = Inr (sms, map (\<lambda>k. rng_permutation lib k n) [0..<n_random])"
    by blast
  from fallback_loop_Inr[OF loop] have len: "length sms = n_random" by simp
  have "map (\<lambda>_. APPROXIMATE_FALLBACK) (map (\<lambda>k. rng_permutation lib k n) [0..<n_random])
          = replicate n_random APPROXIMATE_FALLBACK"
    by (simp add: map_replicate_const)
  with cn loop len show ?thesis
    by (simp add: coordination_geometry_symmetry_measures_fallback_random_def)
qed

section \<open>The random fallback of the separation-plane search\<close>


lemma linear_site_no_plane:
  "npoints_loop plane_library (finder_at stretched_linear_points [linear_plane_cg])
     linear_plane_cg linear_plane False (vzero # linear_points)
     [2..<min (maximum_number_of_points linear_plane) 4 + 1]
     (new_search_state None, empty_search_acc) = Inr (new_search_state None, empty_search_acc)"
proof -
  have r: "[2..<min (maximum_number_of_points linear_plane) 4 + 1] = [2]"
    by (simp add: linear_plane_def upt_rec)
  have c: "combinations (coords (local_geometry (finder_at stretched_linear_points [linear_plane_cg]))) 2
             = [[(2, 0, 0), (- 2, 0, 0)]]"
    by (simp add: finder_at_def geometry_around_origin_def stretched_linear_points_def
                  numeral_2_eq_2)
  have p: "plane_of_combination plane_library (finder_at stretched_linear_points [linear_plane_cg]) 2
             [(2, 0, 0), (- 2, 0, 0)] = Inr None"
    by (simp add: plane_of_combination_def nth_or_raise_def plane_library_def
                  plane_collinear_def finder_at_def geometry_around_origin_def vzero_def Let_def)
  have z: "nplanes empty_search_acc = 0" by (simp add: empty_search_acc_def)
  show ?thesis unfolding r by (simp add: c p z)
qed


section \<open>The scan of the distance tolerances\<close>

lemma octahedron_measure:
  "symmetry_measure diagonal_svd
     [vzero, (1, 0, 0), (- 1, 0, 0), (0, 1, 0), (0, - 1, 0), (0, 0, - 1), (0, 0, 1)]
     (vzero # octahedron_points)
   = Inr \<lparr>symmetry_measure_of = Fin 0, scaling_factor = Some (Fin 1),
          rotation_matrix = Some ((1, 0, 0), (0, 1, 0), (0, 0, - 1)),
          translation_vector = None\<rparr>"
  by (simp add: symmetry_measure_def find_rotation_def matmul_T_def octahedron_points_def
                vzero_def diagonal_svd_def ident3_def find_scaling_factor_def Let_def fsub_def)

lemma octahedron_score:
  "score_permutation plane_library (finder_at octahedron_points catalog)
     (vzero # octahedron_points) [0, 1, 2, 3, 5, 4]
   = Inr \<lparr>symmetry_measure_of = Fin 0, scaling_factor = Some (Fin 1),
          rotation_matrix = Some ((1, 0, 0), (0, 1, 0), (0, 0, - 1)),
          translation_vector = Some vzero\<rparr>"
proof -
  have v: "points_wcs_ctwcc (local_geometry (finder_at octahedron_points catalog))
             (Some [0, 1, 2, 3, 5, 4])
           = Inr [vzero, (1, 0, 0), (- 1, 0, 0), (0, 1, 0), (0, - 1, 0), (0, 0, - 1), (0, 0, 1)]"
    by (simp add: points_wcs_ctwcc_def view_with_central_def take_indices_def
                  nth_or_raise_def finder_at_def geometry_around_origin_def
                  octahedron_points_def)
  have s: "svd plane_library = diagonal_svd" by (simp add: plane_library_def)
  show ?thesis
    unfolding score_permutation_def v s
    by (simp add: octahedron_measure finder_at_def geometry_around_origin_def)
qed

lemma xy_plane_separates:
  assumes "0 \<le> tol" "tol < 1"
  shows "indices_separate plane_library xy_plane
           (coords (local_geometry (finder_at octahedron_points catalog))) tol
         = ([5], [0, 1, 2, 3], [4])"
  using assms
  by (simp add: plane_library_def plane_indices_separate_def xy_plane_def finder_at_def
                geometry_around_origin_def octahedron_points_def Let_def)


lemma octahedron_first_tolerance:
  assumes "0 \<le> tol" "tol < 1"
  shows "tolerance_step plane_library (finder_at octahedron_points catalog) octahedron_cg
           octahedron_plane xy_plane False (vzero # octahedron_points) tol
           (\<lparr>plane_separations = [], tested_permutations = None, classified = cl\<rparr>,
            \<lparr>plane_found = False, acc_permutations = [], acc_measures = [],
             acc_separation_permutations = [], algo_name = name\<rparr>)
         = Inr (\<lparr>plane_separations = [([5], [0, 1, 2, 3], [4])], tested_permutations = None,
                  classified = cl @ [tol]\<rparr>,
                \<lparr>plane_found = False, acc_permutations = [[0, 1, 2, 3, 5, 4]],
                 acc_measures =
                   [\<lparr>symmetry_measure_of = Fin 0, scaling_factor = Some (Fin 1),
                     rotation_matrix = Some ((1, 0, 0), (0, 1, 0), (0, 0, - 1)),
                     translation_vector = Some vzero\<rparr>],
                 acc_separation_permutations = [],
                 algo_name = ''SEPARATION_PLANE_2POINTS''\<rparr>)"
proof -
  have sep: "sort_separation plane_library ([5], [0, 1, 2, 3], [4]) = ([5], [0, 1, 2, 3], [4])"
    by (simp add: plane_library_def plane_sort_separation_def)
  have nil: "\<not> separation_in_list plane_library ([5], [0, 1, 2, 3], [4]) []"
    by (simp add: plane_library_def plane_separation_in_list_def)
  have perms: "sep_perms_of (finder_at octahedron_points catalog) octahedron_plane
                 = Inr [[0, 1, 2, 3, 4, 5]]"
    by (simp add: sep_perms_of_def finder_at_def permutations_def octahedron_plane_def)
  have sp: "separation_perm_of plane_library (finder_at octahedron_points catalog)
              octahedron_plane xy_plane ([5], [0, 1, 2, 3], [4])
            = Inr ([5, 0, 1, 2, 3, 4], ''SEPARATION_PLANE_2POINTS'')"
    by (simp add: separation_perm_of_def octahedron_plane_def)
  have t1: "take_indices [5, 0, 1, 2, 3, 4] [0, 1, 2, 3, 4, 5::nat] = Inr [5, 0, 1, 2, 3, 4::nat]"
    by (simp add: take_indices_def nth_or_raise_def)
  have t2: "take_indices [5, 0, 1, 2, 3, 4] (argsorted_ref_separation_perm octahedron_plane)
              = Inr [0, 1, 2, 3, 5, 4::nat]"
    by (simp add: take_indices_def nth_or_raise_def octahedron_plane_def)
  have pl: "plane_points octahedron_plane = [0, 1, 2, 3]"
    "point_groups octahedron_plane = [[4], [5]]"
    by (simp_all add: octahedron_plane_def)
  show ?thesis
    unfolding tolerance_step_def
    by (simp add: xy_plane_separates[OF assms] sep nil pl nth_or_raise_def sp perms t1 t2
                  octahedron_score octahedron_cg_def Let_def del: One_nat_def)
qed

lemma octahedron_later_tolerance:
  assumes "0 \<le> tol" "tol < 1"
  shows "tolerance_step plane_library (finder_at octahedron_points catalog) octahedron_cg
           octahedron_plane xy_plane False (vzero # octahedron_points) tol
           (\<lparr>plane_separations = [([5], [0, 1, 2, 3], [4])], tested_permutations = None,
              classified = cl\<rparr>, acc)
         = Inr (\<lparr>plane_separations = [([5], [0, 1, 2, 3], [4])], tested_permutations = None,
                  classified = cl @ [tol]\<rparr>,
                acc\<lparr>algo_name := ''NOT_FOUND''\<rparr>)"
proof -
  have sep: "sort_separation plane_library ([5], [0, 1, 2, 3], [4]) = ([5], [0, 1, 2, 3], [4])"
    by (simp add: plane_library_def plane_sort_separation_def)
  have known: "separation_in_list plane_library ([5], [0, 1, 2, 3], [4])
                 [([5], [0, 1, 2, 3], [4])]"
    by (simp add: plane_library_def plane_separation_in_list_def plane_sort_separation_def)
  show ?thesis
    unfolding tolerance_step_def
    by (simp add: xy_plane_separates[OF assms] sep known Let_def del: One_nat_def)
qed

lemma octahedron_scan:
  "cg_csm_separation_plane plane_library (finder_at octahedron_points catalog) octahedron_cg
     octahedron_plane xy_plane (Some DIST_TOLERANCES) False (vzero # octahedron_points)
     (new_search_state None)
   = Inr (Some ([\<lparr>symmetry_measure_of = Fin 0, scaling_factor = Some (Fin 1),
                    rotation_matrix = Some ((1, 0, 0), (0, 1, 0), (0, 0, - 1)),
                    translation_vector = Some vzero\<rparr>],
                [[0, 1, 2, 3, 5, 4]], AlgoList [AlgoType SEPARATION_PLANE], []),
          \<lparr>plane_separations = [([5], [0, 1, 2, 3], [4])], tested_permutations = None,
            classified = [0.02, 0.05, 0.1, 0.2, 0.3]\<rparr>)"
  unfolding cg_csm_separation_plane_def
  by (simp add: DIST_TOLERANCES_def new_search_state_def octahedron_first_tolerance
                octahedron_later_tolerance Let_def del: One_nat_def)


text \<open>
  C6, as the code has it. The scan of a candidate plane classifies the points at every
  tolerance of the fixed sequence \<open>[0.02, 0.05, 0.1, 0.2, 0.3]\<close>, in that increasing
  order: whenever the scan returns, the tolerances it has classified at are the whole
  sequence, whether or not an earlier tolerance gave a separation that matches the
  reference signature.
\<close>

theorem every_tolerance_is_classified:
  assumes "cg_csm_separation_plane lib self cg sp pl (Some DIST_TOLERANCES) testing pp st
             = Inr (res, st')"
  shows "classified st' = classified st @ [0.02, 0.05, 0.1, 0.2, 0.3]
         \<and> DIST_TOLERANCES = [0.02, 0.05, 0.1, 0.2, 0.3]
         \<and> sorted_wrt (<) DIST_TOLERANCES"
proof -
  have d: "DIST_TOLERANCES = [0.02, 0.05, 0.1, 0.2, 0.3]" by (simp add: DIST_TOLERANCES_def)
  have s: "sorted_wrt (<) DIST_TOLERANCES" by (simp add: DIST_TOLERANCES_def)
  from cg_csm_separation_plane_classified[OF assms] d s show ?thesis by simp
qed

theorem every_tolerance_is_classified_witness:
  "classified \<lparr>plane_separations = [([5], [0, 1, 2, 3], [4])], tested_permutations = None,
               classified = [0.02, 0.05, 0.1, 0.2, 0.3]\<rparr>
     = classified (new_search_state None) @ [0.02, 0.05, 0.1, 0.2, 0.3]
   \<and> DIST_TOLERANCES = [0.02, 0.05, 0.1, 0.2, 0.3]
   \<and> sorted_wrt (<) DIST_TOLERANCES"
  using every_tolerance_is_classified [OF octahedron_scan [of "[octahedron_cg]"]] .

text \<open>
  C6, as stated, fails on the octahedral site with the plane \<open>z = 0\<close>: the tightest
  tolerance, 0.02, gives the separation \<open>1 | 4 | 1\<close> of the reference and a scored
  permutation, and the scan still classifies the points at the four looser tolerances.
\<close>

theorem tolerance_scan_stops_counterexample:
  "tolerance_step plane_library (finder_at octahedron_points [octahedron_cg]) octahedron_cg
     octahedron_plane xy_plane False (vzero # octahedron_points) 0.02
     (\<lparr>plane_separations = [], tested_permutations = None, classified = []\<rparr>,
      \<lparr>plane_found = False, acc_permutations = [], acc_measures = [],
       acc_separation_permutations = [], algo_name = []\<rparr>)
   = Inr (\<lparr>plane_separations = [([5], [0, 1, 2, 3], [4])], tested_permutations = None,
            classified = [0.02]\<rparr>,
          \<lparr>plane_found = False, acc_permutations = [[0, 1, 2, 3, 5, 4]],
           acc_measures =
             [\<lparr>symmetry_measure_of = Fin 0, scaling_factor = Some (Fin 1),
               rotation_matrix = Some ((1, 0, 0), (0, 1, 0), (0, 0, - 1)),
               translation_vector = Some vzero\<rparr>],
           acc_separation_permutations = [],
           algo_name = ''SEPARATION_PLANE_2POINTS''\<rparr>)
   \<and> cg_csm_separation_plane plane_library (finder_at octahedron_points [octahedron_cg])
       octahedron_cg octahedron_plane xy_plane (Some DIST_TOLERANCES) False
       (vzero # octahedron_points) (new_search_state None)
     = Inr (Some ([\<lparr>symmetry_measure_of = Fin 0, scaling_factor = Some (Fin 1),
                      rotation_matrix = Some ((1, 0, 0), (0, 1, 0), (0, 0, - 1)),
                      translation_vector = Some vzero\<rparr>],
                  [[0, 1, 2, 3, 5, 4]], AlgoList [AlgoType SEPARATION_PLANE], []),
            \<lparr>plane_separations = [([5], [0, 1, 2, 3], [4])], tested_permutations = None,
              classified = [0.02, 0.05, 0.1, 0.2, 0.3]\<rparr>)"
  using octahedron_first_tolerance [of "0.02" "[octahedron_cg]" "[]" "[]"]
        octahedron_scan [of "[octahedron_cg]"]
  by simp

section \<open>The index maps returned by the searches\<close>

lemma standard_search_maps:
  assumes "coordination_geometry_symmetry_measures_standard lib self cg ps pp opt
             = Inr (Search sms perms algos l2ps p2ls)"
  shows "l2ps = map local2perfect_of perms \<and> p2ls = map perfect2local_of perms"
  using assms
  by (auto simp: coordination_geometry_symmetry_measures_standard_def bindE_Inr_iff)

lemma fallback_search_maps:
  assumes "coordination_geometry_symmetry_measures_fallback_random lib self cg n_random pp
             NRANDOM = Inr (Search sms perms algos l2ps p2ls)"
  shows "l2ps = map local2perfect_of perms \<and> p2ls = map perfect2local_of perms"
proof (cases "coordination cg")
  case None
  with assms show ?thesis
    by (auto simp: coordination_geometry_symmetry_measures_fallback_random_def Let_def
             split: if_splits)
next
  case (Some n)
  with assms show ?thesis
    by (auto simp: coordination_geometry_symmetry_measures_fallback_random_def Let_def
                   bindE_Inr_iff)
qed

lemma separation_plane_search_maps:
  assumes "coordination_geometry_symmetry_measures_separation_plane lib self cg sp testing
             tested pp = Inr (Search sms perms algos l2ps p2ls, st')"
  shows "l2ps = map local2perfect_of perms \<and> p2ls = map perfect2local_of perms"
proof (cases "minimum_number_of_points sp")
  case None
  with assms show ?thesis
    by (simp add: coordination_geometry_symmetry_measures_separation_plane_def)
next
  case (Some mn)
  let ?loop = "npoints_loop lib self cg sp testing pp
                 [mn..<min (maximum_number_of_points sp) 4 + 1]
                 (new_search_state tested, empty_search_acc)"
  show ?thesis
  proof (cases ?loop)
    case (Inl e)
    with assms Some show ?thesis
      by (simp add: coordination_geometry_symmetry_measures_separation_plane_def)
  next
    case (Inr sr)
    obtain st r where sr: "sr = (st, r)" by (cases sr)
    from npoints_loop_ok[OF Inr[unfolded sr] empty_search_acc_ok] have ok: "search_acc_ok r" .
    show ?thesis
    proof (cases "nplanes r = 0")
      case True
      with assms Some Inr sr have
        "bindE (coordination_geometry_symmetry_measures_fallback_random lib self cg 10 pp None)
           (\<lambda>res. Inr (res, st)) = Inr (Search sms perms algos l2ps p2ls, st')"
        by (simp add: coordination_geometry_symmetry_measures_separation_plane_def)
      then have "coordination_geometry_symmetry_measures_fallback_random lib self cg 10 pp None
                   = Inr (Search sms perms algos l2ps p2ls)"
        by (auto simp: bindE_Inr_iff)
      then show ?thesis by (rule fallback_search_maps)
    next
      case False
      with assms Some Inr sr ok show ?thesis
        by (auto simp: coordination_geometry_symmetry_measures_separation_plane_def
                       search_acc_ok_def split: if_splits)
    qed
  qed
qed

text \<open>
  C9. In the result of each search mode (explicit permutations, separation planes,
  random fallback) the two lists of index maps follow the list of permutations; and
  for every returned permutation that is a permutation of \<open>0, \<dots>, n - 1\<close>, the map
  \<open>perfect2local_map\<close> sends every position \<open>i\<close> to \<open>permutation[i]\<close>, the map
  \<open>local2perfect_map\<close> sends \<open>permutation[i]\<close> back to \<open>i\<close>, both are defined exactly on
  \<open>0, \<dots>, n - 1\<close>, and each is the inverse of the other.
\<close>

theorem index_maps_mutually_inverse:
  assumes mode:
      "coordination_geometry_symmetry_measures_standard lib self cg ps pp opt
         = Inr (Search sms perms algos l2ps p2ls)
       \<or> coordination_geometry_symmetry_measures_separation_plane lib self cg sp testing
           tested pp = Inr (Search sms perms algos l2ps p2ls, st')
       \<or> coordination_geometry_symmetry_measures_fallback_random lib self cg n_random pp
           NRANDOM = Inr (Search sms perms algos l2ps p2ls)"
    and k: "k < length perms"
    and perm: "set (perms ! k) = {0..<length (perms ! k)}"
  shows "length l2ps = length perms \<and> length p2ls = length perms
     \<and> (\<forall>i<length (perms ! k).
            (p2ls ! k) i = Some (perms ! k ! i) \<and> (l2ps ! k) (perms ! k ! i) = Some i)
     \<and> dom (p2ls ! k) = {0..<length (perms ! k)}
     \<and> dom (l2ps ! k) = {0..<length (perms ! k)}
     \<and> (\<forall>i j. (p2ls ! k) i = Some j \<longleftrightarrow> (l2ps ! k) j = Some i)"
proof -
  from mode have maps: "l2ps = map local2perfect_of perms \<and> p2ls = map perfect2local_of perms"
  proof (elim disjE)
    assume "coordination_geometry_symmetry_measures_standard lib self cg ps pp opt
              = Inr (Search sms perms algos l2ps p2ls)"
    then show ?thesis by (rule standard_search_maps)
  next
    assume "coordination_geometry_symmetry_measures_separation_plane lib self cg sp testing
              tested pp = Inr (Search sms perms algos l2ps p2ls, st')"
    then show ?thesis by (rule separation_plane_search_maps)
  next
    assume "coordination_geometry_symmetry_measures_fallback_random lib self cg n_random pp
              NRANDOM = Inr (Search sms perms algos l2ps p2ls)"
    then show ?thesis by (rule fallback_search_maps)
  qed
  with k have "l2ps ! k = local2perfect_of (perms ! k)" "p2ls ! k = perfect2local_of (perms ! k)"
    "length l2ps = length perms" "length p2ls = length perms"
    by simp_all
  with maps_of_permutation[OF perm] show ?thesis by simp
qed


lemma linear_measure_identity:
  "symmetry_measure diagonal_svd [vzero, (2, 0, 0), (- 2, 0, 0)] (vzero # linear_points)
   = Inr \<lparr>symmetry_measure_of = Fin 0, scaling_factor = Some (Fin (1 / 2)),
          rotation_matrix = Some ((1, 0, 0), (0, 1, 0), (0, 0, 1)),
          translation_vector = None\<rparr>"
  by (simp add: symmetry_measure_def find_rotation_def matmul_T_def linear_points_def
                vzero_def diagonal_svd_def ident3_def find_scaling_factor_def Let_def fsub_def)

lemma linear_measure_swapped:
  "symmetry_measure diagonal_svd [vzero, (- 2, 0, 0), (2, 0, 0)] (vzero # linear_points)
   = Inr \<lparr>symmetry_measure_of = Fin 0, scaling_factor = Some (Fin (1 / 2)),
          rotation_matrix = Some ((- 1, 0, 0), (0, 1, 0), (0, 0, 1)),
          translation_vector = None\<rparr>"
  by (simp add: symmetry_measure_def find_rotation_def matmul_T_def linear_points_def
                vzero_def diagonal_svd_def ident3_def find_scaling_factor_def Let_def fsub_def)

lemma linear_score_identity:
  "score_permutation plane_library (finder_at stretched_linear_points catalog)
     (vzero # linear_points) [0, 1]
   = Inr \<lparr>symmetry_measure_of = Fin 0, scaling_factor = Some (Fin (1 / 2)),
          rotation_matrix = Some ((1, 0, 0), (0, 1, 0), (0, 0, 1)),
          translation_vector = Some vzero\<rparr>"
proof -
  have v: "points_wcs_ctwcc (local_geometry (finder_at stretched_linear_points catalog))
             (Some [0, 1]) = Inr [vzero, (2, 0, 0), (- 2, 0, 0)]"
    by (simp add: points_wcs_ctwcc_def view_with_central_def take_indices_def
                  nth_or_raise_def finder_at_def geometry_around_origin_def
                  stretched_linear_points_def)
  have s: "svd plane_library = diagonal_svd" by (simp add: plane_library_def)
  show ?thesis
    unfolding score_permutation_def v s
    by (simp add: linear_measure_identity finder_at_def geometry_around_origin_def)
qed

lemma linear_score_swapped:
  "score_permutation plane_library (finder_at stretched_linear_points catalog)
     (vzero # linear_points) [1, 0]
   = Inr \<lparr>symmetry_measure_of = Fin 0, scaling_factor = Some (Fin (1 / 2)),
          rotation_matrix = Some ((- 1, 0, 0), (0, 1, 0), (0, 0, 1)),
          translation_vector = Some vzero\<rparr>"
proof -
  have v: "points_wcs_ctwcc (local_geometry (finder_at stretched_linear_points catalog))
             (Some [1, 0]) = Inr [vzero, (- 2, 0, 0), (2, 0, 0)]"
    by (simp add: points_wcs_ctwcc_def view_with_central_def take_indices_def
                  nth_or_raise_def finder_at_def geometry_around_origin_def
                  stretched_linear_points_def)
  have s: "svd plane_library = diagonal_svd" by (simp add: plane_library_def)
  show ?thesis
    unfolding score_permutation_def v s
    by (simp add: linear_measure_swapped finder_at_def geometry_around_origin_def)
qed

lemma linear_standard_search:
  "coordination_geometry_symmetry_measures_standard plane_library
     (finder_at stretched_linear_points catalog) linear_cg [[0, 1], [1, 0]]
     (vzero # linear_points) opt
   = Inr (Search
       [\<lparr>symmetry_measure_of = Fin 0, scaling_factor = Some (Fin (1 / 2)),
          rotation_matrix = Some ((1, 0, 0), (0, 1, 0), (0, 0, 1)),
          translation_vector = Some vzero\<rparr>,
        \<lparr>symmetry_measure_of = Fin 0, scaling_factor = Some (Fin (1 / 2)),
          rotation_matrix = Some ((- 1, 0, 0), (0, 1, 0), (0, 0, 1)),
          translation_vector = Some vzero\<rparr>]
       [[0, 1], [1, 0]]
       [AlgoType EXPLICIT_PERMUTATIONS, AlgoType EXPLICIT_PERMUTATIONS]
       [local2perfect_of [0, 1], local2perfect_of [1, 0]]
       [perfect2local_of [0, 1], perfect2local_of [1, 0]])"
  unfolding coordination_geometry_symmetry_measures_standard_def
  by (simp add: linear_score_identity linear_score_swapped del: One_nat_def)

theorem index_maps_mutually_inverse_witness:
  "perfect2local_of [1, 0] 0 = Some 1 \<and> local2perfect_of [1, 0] 1 = Some 0
   \<and> perfect2local_of [1, 0] 1 = Some 0 \<and> local2perfect_of [1, 0] 0 = Some 1
   \<and> dom (perfect2local_of [1, 0]) = {0..<2} \<and> dom (local2perfect_of [1, 0]) = {0..<2}"
proof -
  have mode:
    "coordination_geometry_symmetry_measures_standard plane_library
         (finder_at stretched_linear_points [linear_cg]) linear_cg [[0, 1], [1, 0]]
         (vzero # linear_points) None
       = Inr (Search
           [\<lparr>symmetry_measure_of = Fin 0, scaling_factor = Some (Fin (1 / 2)),
              rotation_matrix = Some ((1, 0, 0), (0, 1, 0), (0, 0, 1)),
              translation_vector = Some vzero\<rparr>,
            \<lparr>symmetry_measure_of = Fin 0, scaling_factor = Some (Fin (1 / 2)),
              rotation_matrix = Some ((- 1, 0, 0), (0, 1, 0), (0, 0, 1)),
              translation_vector = Some vzero\<rparr>]
           [[0, 1], [1, 0]]
           [AlgoType EXPLICIT_PERMUTATIONS, AlgoType EXPLICIT_PERMUTATIONS]
           [local2perfect_of [0, 1], local2perfect_of [1, 0]]
           [perfect2local_of [0, 1], perfect2local_of [1, 0]])
     \<or> coordination_geometry_symmetry_measures_separation_plane plane_library
         (finder_at stretched_linear_points [linear_cg]) linear_cg linear_plane False None
         (vzero # linear_points)
       = Inr (Search
           [\<lparr>symmetry_measure_of = Fin 0, scaling_factor = Some (Fin (1 / 2)),
              rotation_matrix = Some ((1, 0, 0), (0, 1, 0), (0, 0, 1)),
              translation_vector = Some vzero\<rparr>,
            \<lparr>symmetry_measure_of = Fin 0, scaling_factor = Some (Fin (1 / 2)),
              rotation_matrix = Some ((- 1, 0, 0), (0, 1, 0), (0, 0, 1)),
              translation_vector = Some vzero\<rparr>]
           [[0, 1], [1, 0]]
           [AlgoType EXPLICIT_PERMUTATIONS, AlgoType EXPLICIT_PERMUTATIONS]
           [local2perfect_of [0, 1], local2perfect_of [1, 0]]
           [perfect2local_of [0, 1], perfect2local_of [1, 0]], new_search_state None)
     \<or> coordination_geometry_symmetry_measures_fallback_random plane_library
         (finder_at stretched_linear_points [linear_cg]) linear_cg 10 (vzero # linear_points)
         None
       = Inr (Search
           [\<lparr>symmetry_measure_of = Fin 0, scaling_factor = Some (Fin (1 / 2)),
              rotation_matrix = Some ((1, 0, 0), (0, 1, 0), (0, 0, 1)),
              translation_vector = Some vzero\<rparr>,
            \<lparr>symmetry_measure_of = Fin 0, scaling_factor = Some (Fin (1 / 2)),
              rotation_matrix = Some ((- 1, 0, 0), (0, 1, 0), (0, 0, 1)),
              translation_vector = Some vzero\<rparr>]
           [[0, 1], [1, 0]]
           [AlgoType EXPLICIT_PERMUTATIONS, AlgoType EXPLICIT_PERMUTATIONS]
           [local2perfect_of [0, 1], local2perfect_of [1, 0]]
           [perfect2local_of [0, 1], perfect2local_of [1, 0]])"
    using linear_standard_search [of "[linear_cg]" None] by (rule disjI1)
  have k: "1 < length [[0, 1], [1, 0::nat]]" by simp
  have perm: "set ([[0, 1], [1, 0]] ! 1) = {0..<length ([[0, 1], [1, 0::nat]] ! 1)}"
    by auto
  from index_maps_mutually_inverse [OF mode k perm]
  show ?thesis by (simp add: numeral_2_eq_2 All_less_Suc)
qed

section \<open>The least measure of a list\<close>

lemma flt_fle_trans: "flt x b \<Longrightarrow> fle b y \<Longrightarrow> fle x y"
  by (cases x; cases b; cases y) auto

lemma not_flt_fle: "x \<noteq> NaN \<Longrightarrow> b \<noteq> NaN \<Longrightarrow> \<not> flt x b \<Longrightarrow> fle b x"
  by (cases x; cases b) auto

lemma fle_refl: "x \<noteq> NaN \<Longrightarrow> fle x x"
  by (cases x) auto

lemma fle_not_flt: "fle a b \<Longrightarrow> \<not> flt b a"
  by (cases a; cases b) auto

lemma flt_NaN_right [simp]: "flt x NaN = False"
  by (cases x) auto

lemma fle_not_NaN: "fle a b \<Longrightarrow> a \<noteq> NaN \<and> b \<noteq> NaN"
  by (cases a; cases b) auto

lemma argmin_scan_correct:
  assumes "bi < i" "i + length xs = length ys" "drop i ys = xs" "bv = ys ! bi"
    and "bv = NaN \<or> (\<forall>j<i. fle bv (ys ! j))"
  shows "argmin_scan bi bv i xs < length ys
     \<and> (ys ! argmin_scan bi bv i xs = NaN
          \<or> (\<forall>j<length ys. fle (ys ! argmin_scan bi bv i xs) (ys ! j)))"
  using assms
proof (induction xs arbitrary: bi bv i)
  case Nil
  then show ?case by auto
next
  case (Cons x xs)
  have i: "i < length ys" using Cons.prems(2) by simp
  have x: "x = ys ! i" using Cons.prems(3) i by (metis nth_via_drop)
  have dr: "drop (Suc i) ys = xs" using Cons.prems(3) by (metis drop_Suc tl_drop list.sel(3))
  have len: "Suc i + length xs = length ys" using Cons.prems(2) by simp
  show ?case
  proof (cases "bv = NaN")
    case True
    with Cons.prems show ?thesis by auto
  next
    case bv: False
    with Cons.prems(5) have best: "\<forall>j<i. fle bv (ys ! j)" by simp
    show ?thesis
    proof (cases "x = NaN \<or> flt x bv")
      case True
      have "x = NaN \<or> (\<forall>j<Suc i. fle x (ys ! j))"
      proof (cases "x = NaN")
        case True
        then show ?thesis by simp
      next
        case False
        with True have lt: "flt x bv" by simp
        have "\<forall>j<Suc i. fle x (ys ! j)"
        proof (intro allI impI)
          fix j assume "j < Suc i"
          then consider "j < i" | "j = i" by linarith
          then show "fle x (ys ! j)"
          proof cases
            case 1
            with best lt show ?thesis using flt_fle_trans by blast
          next
            case 2
            with x False show ?thesis by (simp add: fle_refl)
          qed
        qed
        then show ?thesis by simp
      qed
      from Cons.IH[OF _ len dr x this] True bv show ?thesis by simp
    next
      case False
      then have xn: "x \<noteq> NaN" "\<not> flt x bv" by auto
      have "\<forall>j<Suc i. fle bv (ys ! j)"
      proof (intro allI impI)
        fix j assume "j < Suc i"
        then consider "j < i" | "j = i" by linarith
        then show "fle bv (ys ! j)"
        proof cases
          case 1
          with best show ?thesis by simp
        next
          case 2
          with x xn bv show ?thesis by (simp add: not_flt_fle)
        qed
      qed
      then have "bv = NaN \<or> (\<forall>j<Suc i. fle bv (ys ! j))" by simp
      from Cons.IH[OF _ len dr Cons.prems(4) this] Cons.prems(1) False bv
      show ?thesis by simp
    qed
  qed
qed

lemma np_argmin_correct:
  assumes "np_argmin ys = Inr r"
  shows "r < length ys \<and> (ys ! r = NaN \<or> (\<forall>j<length ys. fle (ys ! r) (ys ! j)))"
proof (cases ys)
  case Nil
  with assms show ?thesis by (simp add: np_argmin_def)
next
  case (Cons y rest)
  have r: "r = argmin_scan 0 y 1 rest" using assms Cons by (simp add: np_argmin_def)
  have "y = NaN \<or> (\<forall>j<1. fle y (ys ! j))"
    using Cons by (cases "y = NaN") (simp_all add: fle_refl)
  then have p5: "y = NaN \<or> (\<forall>j<1. fle y (ys ! j))" .
  have p1: "(0::nat) < 1" by simp
  have p2: "1 + length rest = length ys" using Cons by simp
  have p3: "drop 1 ys = rest" using Cons by simp
  have p4: "y = ys ! 0" using Cons by simp
  from argmin_scan_correct[OF p1 p2 p3 p4 p5] show ?thesis unfolding r .
qed

lemma np_argmin_minimum:
  assumes "np_argmin ys = Inr r"
  shows "r < length ys \<and> (\<forall>y\<in>set ys. \<not> flt y (ys ! r))
     \<and> (ys ! r \<noteq> NaN \<longrightarrow> (\<forall>y\<in>set ys. fle (ys ! r) y))"
proof -
  from np_argmin_correct[OF assms]
  have r: "r < length ys" and m: "ys ! r = NaN \<or> (\<forall>j<length ys. fle (ys ! r) (ys ! j))"
    by auto
  have a: "\<forall>y\<in>set ys. \<not> flt y (ys ! r)"
  proof
    fix y assume "y \<in> set ys"
    then obtain j where j: "j < length ys" "y = ys ! j" by (auto simp: in_set_conv_nth)
    from m show "\<not> flt y (ys ! r)"
    proof
      assume "ys ! r = NaN"
      then show ?thesis by simp
    next
      assume "\<forall>j<length ys. fle (ys ! r) (ys ! j)"
      with j show ?thesis by (simp add: fle_not_flt)
    qed
  qed
  have b: "ys ! r \<noteq> NaN \<longrightarrow> (\<forall>y\<in>set ys. fle (ys ! r) y)"
  proof (intro impI ballI)
    fix y assume n: "ys ! r \<noteq> NaN" and "y \<in> set ys"
    then obtain j where j: "j < length ys" "y = ys ! j" by (auto simp: in_set_conv_nth)
    from m n j show "fle (ys ! r) y" by simp
  qed
  from r a b show ?thesis by simp
qed

section \<open>Matrices and the inverse\<close>

lemma vec3_cases: obtains a b c where "(v :: vec3) = (a, b, c)"
  by (rule prod_cases3)

lemma mat3_cases:
  obtains a b c d e f g h i where "(A :: mat3) = ((a, b, c), (d, e, f), (g, h, i))"
proof -
  obtain r1 r2 r3 where A: "A = (r1, r2, r3)" by (rule prod_cases3)
  obtain a b c where r1: "r1 = (a, b, c)" by (rule prod_cases3)
  obtain d e f where r2: "r2 = (d, e, f)" by (rule prod_cases3)
  obtain g h i where r3: "r3 = (g, h, i)" by (rule prod_cases3)
  from A r1 r2 r3 that show ?thesis by simp
qed

lemma adjugate_left: "matmul (adjugate3 A) A = scale3 (det3 A) ident3"
  by (cases A rule: mat3_cases) (simp add: scale3_def ident3_def algebra_simps)

lemma adjugate_right: "matmul A (adjugate3 A) = scale3 (det3 A) ident3"
  by (cases A rule: mat3_cases) (simp add: scale3_def ident3_def algebra_simps)

lemma matmul_scale_left: "matmul (scale3 k A) B = scale3 k (matmul A B)"
  by (cases A rule: mat3_cases, cases B rule: mat3_cases)
     (simp add: scale3_def algebra_simps)

lemma matmul_scale_right: "matmul A (scale3 k B) = scale3 k (matmul A B)"
  by (cases A rule: mat3_cases, cases B rule: mat3_cases)
     (simp add: scale3_def algebra_simps)

lemma scale3_scale3: "scale3 k (scale3 l A) = scale3 (k * l) A"
  by (cases A rule: mat3_cases) (simp add: scale3_def algebra_simps)

lemma scale3_one: "scale3 1 A = A"
  by (cases A rule: mat3_cases) (simp add: scale3_def)

lemma linalg_inv_Inr_iff:
  "linalg_inv A = Inr B \<longleftrightarrow> det3 A \<noteq> 0 \<and> B = scale3 (1 / det3 A) (adjugate3 A)"
  by (cases "adjugate3 A" rule: prod_cases3) (auto simp: linalg_inv_def scale3_def)

lemma linalg_inv_inverse:
  assumes "linalg_inv A = Inr B"
  shows "matmul B A = ident3 \<and> matmul A B = ident3"
proof -
  from assms have D: "det3 A \<noteq> 0" and B: "B = scale3 (1 / det3 A) (adjugate3 A)"
    by (simp_all add: linalg_inv_Inr_iff)
  have "matmul B A = scale3 (1 / det3 A * det3 A) ident3"
    unfolding B by (simp add: matmul_scale_left adjugate_left scale3_scale3)
  moreover have "matmul A B = scale3 (1 / det3 A * det3 A) ident3"
    unfolding B by (simp add: matmul_scale_right adjugate_right scale3_scale3)
  ultimately show ?thesis using D by (simp add: scale3_one)
qed

section \<open>The entries of the result dictionary\<close>

lemma minimum_entry_of_Inr:
  assumes "minimum_entry_of lib self g pg all_wanted result perms algos l2ps p2ls = Inr e"
  shows "\<exists>imin. np_argmin (map symmetry_measure_of result) = Inr imin
     \<and> imin < length result \<and> imin < length perms
     \<and> imin < length l2ps \<and> imin < length p2ls
     \<and> csm e = symmetry_measure_of (result ! imin)
     \<and> indices e = perms ! imin
     \<and> local2perfect_map e = l2ps ! imin
     \<and> perfect2local_map e = p2ls ! imin
     \<and> (\<exists>s R Rinv. scaling_factor (result ! imin) = Some s
            \<and> rotation_matrix (result ! imin) = Some R
            \<and> linalg_inv R = Inr Rinv
            \<and> entry_scaling_factor e = Some (fdiv (Fin 1) s)
            \<and> entry_rotation_matrix e = Some Rinv)"
proof -
  from assms obtain imin algo' best perm l2p p2l sc rot tr views where
    a: "np_argmin (map symmetry_measure_of result) = Inr imin"
    and b: "nth_or_raise result imin = Inr best"
    and c: "nth_or_raise perms imin = Inr perm"
    and d: "nth_or_raise l2ps imin = Inr l2p"
    and f: "nth_or_raise p2ls imin = Inr p2l"
    and s: "reciprocal_scaling (scaling_factor best) = Inr sc"
    and r: "inverse_rotation (rotation_matrix best) = Inr rot"
    and e: "e = \<lparr>csm = symmetry_measure_of best, indices = perm, algo = algo',
          local2perfect_map = l2p, perfect2local_map = p2l,
          entry_scaling_factor = Some sc, entry_rotation_matrix = Some rot,
          entry_translation_vector = Some tr, all_csms = views\<rparr>"
    unfolding minimum_entry_of_def bindE_Inr_iff by (elim exE conjE) (simp, blast)
  from b c d f have i: "imin < length result" "best = result ! imin"
    "imin < length perms" "perm = perms ! imin" "imin < length l2ps" "l2p = l2ps ! imin"
    "imin < length p2ls" "p2l = p2ls ! imin"
    by (simp_all add: nth_or_raise_Inr_iff)
  from s obtain sv where sv: "scaling_factor best = Some sv" "sc = fdiv (Fin 1) sv"
    by (auto simp: reciprocal_scaling_def split: option.splits)
  from r obtain R where R: "rotation_matrix best = Some R" "linalg_inv R = Inr rot"
    by (auto simp: inverse_rotation_def split: option.splits)
  have x: "\<exists>s R Rinv. scaling_factor (result ! imin) = Some s
            \<and> rotation_matrix (result ! imin) = Some R
            \<and> linalg_inv R = Inr Rinv
            \<and> entry_scaling_factor e = Some (fdiv (Fin 1) s)
            \<and> entry_rotation_matrix e = Some Rinv"
    apply (rule exI[of _ sv], rule exI[of _ R], rule exI[of _ rot])
    using i sv R e by simp
  show ?thesis
    apply (rule exI[of _ imin])
    using a i e x by simp
qed


lemma geometries_loop_entries:
  "geometries_loop lib from_cg self True all_wanted opt gs d = Inr d' \<Longrightarrow> d' s = Some ent \<Longrightarrow>
     d s = Some ent
     \<or> (\<exists>g\<in>set gs. mp_symbol g = s
           \<and> (\<exists>pg result perms algos l2ps p2ls e.
                 search_of_geometry lib from_cg sepplane_optim self opt g pg
                   (Search result perms algos l2ps p2ls)
                 \<and> result \<noteq> []
                 \<and> minimum_entry_of lib self g pg all_wanted result perms algos l2ps p2ls
                     = Inr e
                 \<and> ent = MinimumEntry e))"
proof (induction gs arbitrary: d)
  case Nil
  then show ?case by simp
next
  case (Cons g gs)
  show ?case
  proof (cases "from_cg g")
    case (Inl x)
    with Cons.prems show ?thesis by simp
  next
    case pg: (Inr pg)
    show ?thesis
    proof (cases "points_wcs_ctwcc pg None")
      case (Inl x)
      with pg Cons.prems show ?thesis by simp
    next
      case pp: (Inr pp)
      show ?thesis
      proof (cases "coordination_geometry_symmetry_measures lib self g False pp opt")
        case (Inl x)
        with pg pp Cons.prems show ?thesis by simp
      next
        case res: (Inr res)
        show ?thesis
        proof (cases res)
          case (Testing x1 x2 x3)
          with pg pp res Cons.prems show ?thesis by simp
        next
          case (Search result perms algos l2ps p2ls)
          have sg: "search_of_geometry lib from_cg sepplane_optim self opt g pg
                      (Search result perms algos l2ps p2ls)"
            using pg pp res Search by (auto simp: search_of_geometry_def)
          show ?thesis
          proof (cases "result = []")
            case True
            with pg pp res Search Cons.prems(1)
            have "geometries_loop lib from_cg self True all_wanted opt gs d = Inr d'" by simp
            from Cons.IH[OF this Cons.prems(2)] show ?thesis by auto
          next
            case ne: False
            show ?thesis
            proof (cases "minimum_entry_of lib self g pg all_wanted result perms algos l2ps p2ls")
              case (Inl x)
              with pg pp res Search ne Cons.prems show ?thesis by simp
            next
              case e: (Inr e)
              with pg pp res Search ne Cons.prems(1)
              have "geometries_loop lib from_cg self True all_wanted opt gs
                      (d(mp_symbol g \<mapsto> MinimumEntry e)) = Inr d'" by simp
              from Cons.IH[OF this Cons.prems(2)]
              consider (here) "(d(mp_symbol g \<mapsto> MinimumEntry e)) s = Some ent"
                | (later) "\<exists>g\<in>set gs. mp_symbol g = s
                   \<and> (\<exists>pg result perms algos l2ps p2ls e.
                         search_of_geometry lib from_cg sepplane_optim self opt g pg
                           (Search result perms algos l2ps p2ls)
                         \<and> result \<noteq> []
                         \<and> minimum_entry_of lib self g pg all_wanted result perms algos l2ps p2ls
                             = Inr e
                         \<and> ent = MinimumEntry e)"
                by blast
              then show ?thesis
              proof cases
                case here
                show ?thesis
                proof (cases "mp_symbol g = s")
                  case True
                  with here have ent: "ent = MinimumEntry e" by simp
                  have "\<exists>pg result perms algos l2ps p2ls e.
                         search_of_geometry lib from_cg sepplane_optim self opt g pg
                           (Search result perms algos l2ps p2ls)
                         \<and> result \<noteq> []
                         \<and> minimum_entry_of lib self g pg all_wanted result perms algos l2ps p2ls
                             = Inr e
                         \<and> ent = MinimumEntry e"
                    using sg ne e ent by blast
                  with True show ?thesis by auto
                next
                  case False
                  with here show ?thesis by simp
                qed
              next
                case later
                then show ?thesis by auto
              qed
            qed
          qed
        qed
      qed
    qed
  qed
qed


lemma geometries_loop_optim_entries:
  "geometries_loop_optim lib from_cg sepplane_optim self True all_wanted gs nb d = Inr d' \<Longrightarrow>
     d' s = Some ent \<Longrightarrow>
     d s = Some ent
     \<or> (\<exists>g\<in>set gs. mp_symbol g = s
           \<and> (\<exists>pg result perms algos l2ps p2ls e.
                 search_of_geometry lib from_cg sepplane_optim self opt g pg
                   (Search result perms algos l2ps p2ls)
                 \<and> result \<noteq> []
                 \<and> minimum_entry_of lib self g pg all_wanted result perms algos l2ps p2ls
                     = Inr e
                 \<and> ent = MinimumEntry e))"
proof (induction gs arbitrary: d nb)
  case Nil
  then show ?case by simp
next
  case (Cons g gs)
  show ?case
  proof (cases "from_cg g")
    case (Inl x)
    with Cons.prems show ?thesis by simp
  next
    case pg: (Inr pg)
    show ?thesis
    proof (cases "points_wcs_ctwcc pg None")
      case (Inl x)
      with pg Cons.prems show ?thesis by simp
    next
      case pp: (Inr pp)
      show ?thesis
      proof (cases "sepplane_optim nb g pp")
        case (Inl x)
        with pg pp Cons.prems show ?thesis by simp
      next
        case rn: (Inr rn)
        obtain res nb' where rn': "rn = (res, nb')" by (cases rn)
        show ?thesis
        proof (cases res)
          case (Testing x1 x2 x3)
          with pg pp rn rn' Cons.prems show ?thesis by simp
        next
          case (Search result perms algos l2ps p2ls)
          have sg: "search_of_geometry lib from_cg sepplane_optim self opt g pg
                      (Search result perms algos l2ps p2ls)"
            using pg pp rn rn' Search unfolding search_of_geometry_def by blast
          show ?thesis
          proof (cases "result = []")
            case True
            with pg pp rn rn' Search Cons.prems(1)
            have "geometries_loop_optim lib from_cg sepplane_optim self True all_wanted gs nb' d
                    = Inr d'" by simp
            from Cons.IH[OF this Cons.prems(2)] show ?thesis by auto
          next
            case ne: False
            show ?thesis
            proof (cases "minimum_entry_of lib self g pg all_wanted result perms algos l2ps p2ls")
              case (Inl x)
              with pg pp rn rn' Search ne Cons.prems show ?thesis by simp
            next
              case e: (Inr e)
              with pg pp rn rn' Search ne Cons.prems(1)
              have "geometries_loop_optim lib from_cg sepplane_optim self True all_wanted gs nb'
                      (d(mp_symbol g \<mapsto> MinimumEntry e)) = Inr d'" by simp
              from Cons.IH[OF this Cons.prems(2)]
              consider (here) "(d(mp_symbol g \<mapsto> MinimumEntry e)) s = Some ent"
                | (later) "\<exists>g\<in>set gs. mp_symbol g = s
                   \<and> (\<exists>pg result perms algos l2ps p2ls e.
                         search_of_geometry lib from_cg sepplane_optim self opt g pg
                           (Search result perms algos l2ps p2ls)
                         \<and> result \<noteq> []
                         \<and> minimum_entry_of lib self g pg all_wanted result perms algos l2ps p2ls
                             = Inr e
                         \<and> ent = MinimumEntry e)"
                by blast
              then show ?thesis
              proof cases
                case here
                show ?thesis
                proof (cases "mp_symbol g = s")
                  case True
                  with here have ent: "ent = MinimumEntry e" by simp
                  have "\<exists>pg result perms algos l2ps p2ls e.
                         search_of_geometry lib from_cg sepplane_optim self opt g pg
                           (Search result perms algos l2ps p2ls)
                         \<and> result \<noteq> []
                         \<and> minimum_entry_of lib self g pg all_wanted result perms algos l2ps p2ls
                             = Inr e
                         \<and> ent = MinimumEntry e"
                    using sg ne e ent by blast
                  with True show ?thesis by auto
                next
                  case False
                  with here show ?thesis by simp
                qed
              next
                case later
                then show ?thesis by auto
              qed
            qed
          qed
        qed
      qed
    qed
  qed
qed

lemma orchestrator_entries:
  assumes run: "get_coordination_symmetry_measures lib from_cg self True all_wanted opt = Inr d
       \<or> get_coordination_symmetry_measures_optim lib from_cg sepplane_optim self True
           all_wanted nb opt = Inr d"
    and cn: "length (coords (local_geometry self)) \<noteq> 1"
    and ent: "d s = Some ent"
  shows "\<exists>g\<in>set (get_implemented_geometries (allcg self)
                    (length (coords (local_geometry self)))).
           mp_symbol g = s
           \<and> (\<exists>pg result perms algos l2ps p2ls e.
                 search_of_geometry lib from_cg sepplane_optim self opt g pg
                   (Search result perms algos l2ps p2ls)
                 \<and> result \<noteq> []
                 \<and> minimum_entry_of lib self g pg all_wanted result perms algos l2ps p2ls
                     = Inr e
                 \<and> ent = MinimumEntry e)"
proof -
  let ?gs = "get_implemented_geometries (allcg self) (length (coords (local_geometry self)))"
  have plain: "get_coordination_symmetry_measures lib from_cg self True all_wanted opt = Inr d
      \<Longrightarrow> ?thesis"
  proof -
    assume "get_coordination_symmetry_measures lib from_cg self True all_wanted opt = Inr d"
    with cn have "geometries_loop lib from_cg self True all_wanted opt ?gs Map.empty = Inr d"
      by (simp add: get_coordination_symmetry_measures_def Let_def)
    from geometries_loop_entries[OF this ent, of sepplane_optim] show ?thesis by simp
  qed
  from run show ?thesis
  proof
    assume "get_coordination_symmetry_measures lib from_cg self True all_wanted opt = Inr d"
    then show ?thesis by (rule plain)
  next
    assume o: "get_coordination_symmetry_measures_optim lib from_cg sepplane_optim self True
                 all_wanted nb opt = Inr d"
    show ?thesis
    proof (cases "all_first_explicit ?gs")
      case (Inl x)
      with o show ?thesis
        by (simp add: get_coordination_symmetry_measures_optim_def Let_def)
    next
      case ex: (Inr explicit)
      show ?thesis
      proof (cases explicit)
        case True
        with o ex have
          "get_coordination_symmetry_measures lib from_cg self True all_wanted opt = Inr d"
          by (simp add: get_coordination_symmetry_measures_optim_def Let_def)
        then show ?thesis by (rule plain)
      next
        case False
        show ?thesis
        proof (cases "all_separation_plane ?gs")
          case (Inl x)
          with o ex False show ?thesis
            by (simp add: get_coordination_symmetry_measures_optim_def Let_def)
        next
          case (Inr planes)
          with o ex False have
            "geometries_loop_optim lib from_cg sepplane_optim self True all_wanted ?gs nb
               Map.empty = Inr d"
            by (cases planes)
               (simp_all add: get_coordination_symmetry_measures_optim_def Let_def)
          from geometries_loop_optim_entries[OF this ent, of opt] show ?thesis by simp
        qed
      qed
    qed
  qed
qed

section \<open>The result kept for a geometry\<close>

lemma linear_orchestrator_run:
  "get_coordination_symmetry_measures plane_library reference_of
     (finder_at stretched_linear_points [linear_cg]) True False None
   = Inr [''L:2'' \<mapsto> MinimumEntry
       \<lparr>csm = Fin 0, indices = [0, 1], algo = AlgoOne (AlgoType EXPLICIT_PERMUTATIONS),
        local2perfect_map = local2perfect_of [0, 1],
        perfect2local_map = perfect2local_of [0, 1],
        entry_scaling_factor = Some (Fin 2),
        entry_rotation_matrix = Some ((1, 0, 0), (0, 1, 0), (0, 0, 1)),
        entry_translation_vector = Some vzero, all_csms = Map.empty\<rparr>]"
proof -
  let ?self = "finder_at stretched_linear_points [linear_cg]"
  have cn: "length (coords (local_geometry ?self)) = 2"
    by (simp add: finder_at_def geometry_around_origin_def stretched_linear_points_def)
  have gs: "get_implemented_geometries (allcg ?self) 2 = [linear_cg]"
    by (simp add: get_implemented_geometries_def finder_at_def linear_cg_def)
  have ref: "reference_of linear_cg = Inr (geometry_around_origin linear_points)"
    by (simp add: reference_of_def linear_cg_def)
  have pp: "points_wcs_ctwcc (geometry_around_origin linear_points) None
              = Inr (vzero # linear_points)"
    by (simp add: points_wcs_ctwcc_def view_with_central_def geometry_around_origin_def)
  have pso: "\<not> permutations_safe_override ?self" by (simp add: finder_at_def)
  have algs: "algorithms linear_cg = Some [ExplicitPermutationsAlgorithm [[0, 1], [1, 0]]]"
    by (simp add: linear_cg_def del: One_nat_def)
  have sym: "mp_symbol linear_cg = ''L:2''" by (simp add: linear_cg_def)
  have search: "coordination_geometry_symmetry_measures plane_library ?self linear_cg False
                  (vzero # linear_points) None
     = Inr (Search
       [\<lparr>symmetry_measure_of = Fin 0, scaling_factor = Some (Fin (1 / 2)),
          rotation_matrix = Some ((1, 0, 0), (0, 1, 0), (0, 0, 1)),
          translation_vector = Some vzero\<rparr>,
        \<lparr>symmetry_measure_of = Fin 0, scaling_factor = Some (Fin (1 / 2)),
          rotation_matrix = Some ((- 1, 0, 0), (0, 1, 0), (0, 0, 1)),
          translation_vector = Some vzero\<rparr>]
       [[0, 1], [1, 0]]
       [AlgoType EXPLICIT_PERMUTATIONS, AlgoType EXPLICIT_PERMUTATIONS]
       [local2perfect_of [0, 1], local2perfect_of [1, 0]]
       [perfect2local_of [0, 1], perfect2local_of [1, 0]])"
    unfolding coordination_geometry_symmetry_measures_def
    by (simp add: pso algs linear_standard_search del: One_nat_def)
  have inv: "linalg_inv ((1, 0, 0), (0, 1, 0), (0, 0, 1)) = Inr ((1, 0, 0), (0, 1, 0), (0, 0, 1))"
    by (simp add: linalg_inv_def)
  have entry: "minimum_entry_of plane_library ?self linear_cg
       (geometry_around_origin linear_points) False
       [\<lparr>symmetry_measure_of = Fin 0, scaling_factor = Some (Fin (1 / 2)),
          rotation_matrix = Some ((1, 0, 0), (0, 1, 0), (0, 0, 1)),
          translation_vector = Some vzero\<rparr>,
        \<lparr>symmetry_measure_of = Fin 0, scaling_factor = Some (Fin (1 / 2)),
          rotation_matrix = Some ((- 1, 0, 0), (0, 1, 0), (0, 0, 1)),
          translation_vector = Some vzero\<rparr>]
       [[0, 1], [1, 0]]
       [AlgoType EXPLICIT_PERMUTATIONS, AlgoType EXPLICIT_PERMUTATIONS]
       [local2perfect_of [0, 1], local2perfect_of [1, 0]]
       [perfect2local_of [0, 1], perfect2local_of [1, 0]]
     = Inr \<lparr>csm = Fin 0, indices = [0, 1], algo = AlgoOne (AlgoType EXPLICIT_PERMUTATIONS),
        local2perfect_map = local2perfect_of [0, 1],
        perfect2local_map = perfect2local_of [0, 1],
        entry_scaling_factor = Some (Fin 2),
        entry_rotation_matrix = Some ((1, 0, 0), (0, 1, 0), (0, 0, 1)),
        entry_translation_vector = Some vzero, all_csms = Map.empty\<rparr>"
    unfolding minimum_entry_of_def
    by (simp add: np_argmin_def nth_or_raise_def algs reciprocal_scaling_def
                  inverse_rotation_def inv translation_of_def del: One_nat_def)
  show ?thesis
    unfolding get_coordination_symmetry_measures_def
    by (simp add: cn gs ref pp search entry sym del: One_nat_def)
qed





text \<open>
  C10. With \<open>only_minimum\<close> requested and more than one neighbour, the scaling factor
  of a reported entry is 1 divided by the scaling factor of the kept result of the
  search, and its rotation matrix is the inverse of the rotation matrix of that result:
  the product of the two matrices, in either order, is the identity.
\<close>

theorem reported_transform_is_inverse:
  assumes run: "get_coordination_symmetry_measures lib from_cg self True all_wanted opt = Inr d
       \<or> get_coordination_symmetry_measures_optim lib from_cg sepplane_optim self True
           all_wanted nb opt = Inr d"
    and cn: "length (coords (local_geometry self)) \<noteq> 1"
    and ent: "d s = Some ent"
  shows "\<exists>g\<in>set (get_implemented_geometries (allcg self)
                    (length (coords (local_geometry self)))).
           mp_symbol g = s
           \<and> (\<exists>pg result perms algos l2ps p2ls e imin sc R Rinv.
                 search_of_geometry lib from_cg sepplane_optim self opt g pg
                   (Search result perms algos l2ps p2ls)
                 \<and> ent = MinimumEntry e
                 \<and> imin < length result
                 \<and> csm e = symmetry_measure_of (result ! imin)
                 \<and> scaling_factor (result ! imin) = Some sc
                 \<and> rotation_matrix (result ! imin) = Some R
                 \<and> entry_scaling_factor e = Some (fdiv (Fin 1) sc)
                 \<and> entry_rotation_matrix e = Some Rinv
                 \<and> linalg_inv R = Inr Rinv
                 \<and> matmul Rinv R = ident3 \<and> matmul R Rinv = ident3)"
proof -
  from orchestrator_entries[OF run cn ent] obtain g pg result perms algos l2ps p2ls e where
    g: "g \<in> set (get_implemented_geometries (allcg self) (length (coords (local_geometry self))))"
      "mp_symbol g = s"
    and sg: "search_of_geometry lib from_cg sepplane_optim self opt g pg
               (Search result perms algos l2ps p2ls)"
    and me: "minimum_entry_of lib self g pg all_wanted result perms algos l2ps p2ls = Inr e"
    and e: "ent = MinimumEntry e"
    by blast
  from minimum_entry_of_Inr[OF me] obtain imin sc R Rinv where
    i: "imin < length result" "csm e = symmetry_measure_of (result ! imin)"
    and t: "scaling_factor (result ! imin) = Some sc" "rotation_matrix (result ! imin) = Some R"
      "linalg_inv R = Inr Rinv" "entry_scaling_factor e = Some (fdiv (Fin 1) sc)"
      "entry_rotation_matrix e = Some Rinv"
    by blast
  from linalg_inv_inverse[OF t(3)] have inv: "matmul Rinv R = ident3" "matmul R Rinv = ident3"
    by simp_all
  have "\<exists>pg result perms algos l2ps p2ls e imin sc R Rinv.
                 search_of_geometry lib from_cg sepplane_optim self opt g pg
                   (Search result perms algos l2ps p2ls)
                 \<and> ent = MinimumEntry e
                 \<and> imin < length result
                 \<and> csm e = symmetry_measure_of (result ! imin)
                 \<and> scaling_factor (result ! imin) = Some sc
                 \<and> rotation_matrix (result ! imin) = Some R
                 \<and> entry_scaling_factor e = Some (fdiv (Fin 1) sc)
                 \<and> entry_rotation_matrix e = Some Rinv
                 \<and> linalg_inv R = Inr Rinv
                 \<and> matmul Rinv R = ident3 \<and> matmul R Rinv = ident3"
    apply (rule exI[of _ pg], rule exI[of _ result], rule exI[of _ perms], rule exI[of _ algos],
           rule exI[of _ l2ps], rule exI[of _ p2ls], rule exI[of _ e], rule exI[of _ imin],
           rule exI[of _ sc], rule exI[of _ R], rule exI[of _ Rinv])
    using sg e i t inv by simp
  with g show ?thesis by blast
qed

theorem reported_transform_is_inverse_witness:
  "\<exists>g\<in>set (get_implemented_geometries
               (allcg (finder_at stretched_linear_points [linear_cg]))
               (length (coords (local_geometry (finder_at stretched_linear_points [linear_cg]))))).
     mp_symbol g = ''L:2''
     \<and> (\<exists>pg result perms algos l2ps p2ls e imin sc R Rinv.
           search_of_geometry plane_library reference_of
             (\<lambda>(nb :: unit) g pp. Inl ValueError)
             (finder_at stretched_linear_points [linear_cg]) None g pg
             (Search result perms algos l2ps p2ls)
           \<and> MinimumEntry
               \<lparr>csm = Fin 0, indices = [0, 1],
                algo = AlgoOne (AlgoType EXPLICIT_PERMUTATIONS),
                local2perfect_map = local2perfect_of [0, 1],
                perfect2local_map = perfect2local_of [0, 1],
                entry_scaling_factor = Some (Fin 2),
                entry_rotation_matrix = Some ((1, 0, 0), (0, 1, 0), (0, 0, 1)),
                entry_translation_vector = Some vzero, all_csms = Map.empty\<rparr>
             = MinimumEntry e
           \<and> imin < length result
           \<and> csm e = symmetry_measure_of (result ! imin)
           \<and> scaling_factor (result ! imin) = Some sc
           \<and> rotation_matrix (result ! imin) = Some R
           \<and> entry_scaling_factor e = Some (fdiv (Fin 1) sc)
           \<and> entry_rotation_matrix e = Some Rinv
           \<and> linalg_inv R = Inr Rinv
           \<and> matmul Rinv R = ident3 \<and> matmul R Rinv = ident3)"
proof -
  let ?self = "finder_at stretched_linear_points [linear_cg]"
  let ?e = "MinimumEntry
               \<lparr>csm = Fin 0, indices = [0, 1],
                algo = AlgoOne (AlgoType EXPLICIT_PERMUTATIONS),
                local2perfect_map = local2perfect_of [0, 1],
                perfect2local_map = perfect2local_of [0, 1],
                entry_scaling_factor = Some (Fin 2),
                entry_rotation_matrix = Some ((1, 0, 0), (0, 1, 0), (0, 0, 1)),
                entry_translation_vector = Some vzero, all_csms = Map.empty\<rparr>"
  have run: "get_coordination_symmetry_measures plane_library reference_of ?self True False None
               = Inr [''L:2'' \<mapsto> ?e]
       \<or> get_coordination_symmetry_measures_optim plane_library reference_of
           (\<lambda>(nb :: unit) g pp. Inl ValueError) ?self True False () None
               = Inr [''L:2'' \<mapsto> ?e]"
    using linear_orchestrator_run by (rule disjI1)
  have cn: "length (coords (local_geometry ?self)) \<noteq> 1"
    by (simp add: finder_at_def geometry_around_origin_def stretched_linear_points_def)
  have ent: "[''L:2'' \<mapsto> ?e] ''L:2'' = Some ?e" by simp
  from reported_transform_is_inverse [OF run cn ent] show ?thesis .
qed

section \<open>A single neighbour\<close>

text \<open>
  C4, as the code has it. A distorted point set of exactly one point has the symmetry
  measure 0.0, with no scaling factor and no rotation matrix, whatever the perfect
  points and whatever the singular value decomposition would return: no rotation or
  scale is computed. For a site with one neighbour the orchestrator runs no search:
  it returns the fixed entry \<open>S:1\<close>, with measure 0.0, the permutation \<open>[0]\<close> and the
  identity index maps, when the catalogue has an implemented geometry of coordination
  number 1, and the empty dictionary when it has none; the orchestrator of the
  optimised search does the same whenever the first algorithm of each such geometry is
  an explicit-permutations one.
\<close>

theorem single_neighbor_short_circuit:
  "(length points_distorted = 1 \<longrightarrow>
      symmetry_measure sv points_distorted points_perfect
        = Inr \<lparr>symmetry_measure_of = Fin 0, scaling_factor = None, rotation_matrix = None,
               translation_vector = None\<rparr>)
   \<and> (length (coords (local_geometry self)) = 1 \<longrightarrow>
        get_coordination_symmetry_measures lib from_cg self only_minimum all_wanted opt
          = (if get_implemented_geometries (allcg self) 1 = [] then Inr Map.empty
             else Inr (single_neighbor_result all_wanted))
        \<and> (all_first_explicit (get_implemented_geometries (allcg self) 1) = Inr True \<longrightarrow>
             get_coordination_symmetry_measures_optim lib from_cg sepplane_optim self
                 only_minimum all_wanted nb opt
               = (if get_implemented_geometries (allcg self) 1 = [] then Inr Map.empty
                  else Inr (single_neighbor_result all_wanted))))
   \<and> (\<exists>e. single_neighbor_result all_wanted ''S:1'' = Some (MinimumEntry e)
          \<and> csm e = Fin 0 \<and> indices e = [0]
          \<and> local2perfect_map e = [0 \<mapsto> 0] \<and> perfect2local_map e = [0 \<mapsto> 0]
          \<and> entry_scaling_factor e = None \<and> entry_rotation_matrix e = None)"
proof (intro conjI impI)
  assume "length points_distorted = 1"
  then show "symmetry_measure sv points_distorted points_perfect
        = Inr \<lparr>symmetry_measure_of = Fin 0, scaling_factor = None, rotation_matrix = None,
               translation_vector = None\<rparr>"
    by (rule symmetry_measure_single)
next
  assume one: "length (coords (local_geometry self)) = 1"
  then show plain: "get_coordination_symmetry_measures lib from_cg self only_minimum all_wanted opt
          = (if get_implemented_geometries (allcg self) 1 = [] then Inr Map.empty
             else Inr (single_neighbor_result all_wanted))"
    by (simp add: get_coordination_symmetry_measures_def Let_def)
  assume "all_first_explicit (get_implemented_geometries (allcg self) 1) = Inr True"
  with one plain show "get_coordination_symmetry_measures_optim lib from_cg sepplane_optim self
                 only_minimum all_wanted nb opt
               = (if get_implemented_geometries (allcg self) 1 = [] then Inr Map.empty
                  else Inr (single_neighbor_result all_wanted))"
    by (simp add: get_coordination_symmetry_measures_optim_def Let_def)
next
  show "\<exists>e. single_neighbor_result all_wanted ''S:1'' = Some (MinimumEntry e)
          \<and> csm e = Fin 0 \<and> indices e = [0]
          \<and> local2perfect_map e = [0 \<mapsto> 0] \<and> perfect2local_map e = [0 \<mapsto> 0]
          \<and> entry_scaling_factor e = None \<and> entry_rotation_matrix e = None"
    by (simp add: single_neighbor_result_def)
qed

theorem single_neighbor_short_circuit_witness:
  "symmetry_measure diagonal_svd single_point (vzero # octahedron_points)
     = Inr \<lparr>symmetry_measure_of = Fin 0, scaling_factor = None, rotation_matrix = None,
            translation_vector = None\<rparr>
   \<and> get_coordination_symmetry_measures plane_library reference_of
       (finder_at single_point [single_neighbor_cg, octahedron_cg]) True True None
     = Inr (single_neighbor_result True)
   \<and> get_coordination_symmetry_measures_optim plane_library reference_of
       (\<lambda>(nb :: unit) g pp. Inl ValueError)
       (finder_at single_point [single_neighbor_cg, octahedron_cg]) True True () None
     = Inr (single_neighbor_result True)"
proof -
  let ?self = "finder_at single_point [single_neighbor_cg, octahedron_cg]"
  have one: "length single_point = 1" by (simp add: single_point_def)
  have cn: "length (coords (local_geometry ?self)) = 1"
    by (simp add: finder_at_def geometry_around_origin_def single_point_def)
  have gs: "get_implemented_geometries (allcg ?self) 1 = [single_neighbor_cg]"
    by (simp add: get_implemented_geometries_def finder_at_def single_neighbor_cg_def
                  octahedron_cg_def)
  have ex: "all_first_explicit (get_implemented_geometries (allcg ?self) 1) = Inr True"
    unfolding gs by (simp add: single_neighbor_cg_def)
  from single_neighbor_short_circuit
         [of single_point diagonal_svd "vzero # octahedron_points" ?self plane_library
             reference_of True True None "\<lambda>(nb :: unit) g pp. Inl ValueError" "()"]
       one cn ex gs
  show ?thesis by simp
qed

text \<open>
  C4, as stated, fails for a site with one neighbour when the catalogue is restricted
  to the octahedron: there is no implemented geometry of coordination number 1, and the
  orchestrator returns the empty dictionary, not the entry \<open>S:1\<close>.
\<close>

theorem single_neighbor_entry_counterexample:
  "length (coords (local_geometry (finder_at single_point [octahedron_cg]))) = 1
   \<and> get_coordination_symmetry_measures plane_library reference_of
       (finder_at single_point [octahedron_cg]) True True None = Inr Map.empty"
proof -
  have cn: "length (coords (local_geometry (finder_at single_point [octahedron_cg]))) = 1"
    by (simp add: finder_at_def geometry_around_origin_def single_point_def)
  have gs: "get_implemented_geometries (allcg (finder_at single_point [octahedron_cg])) 1 = []"
    by (simp add: get_implemented_geometries_def finder_at_def octahedron_cg_def)
  show ?thesis
    by (simp add: cn gs get_coordination_symmetry_measures_def Let_def del: One_nat_def)
qed

section \<open>The measure and the formula of the specification\<close>

lemma tensordot_sum:
  "length xs = length ys \<Longrightarrow> tensordot xs ys = (\<Sum>i<length xs. dot (xs ! i) (ys ! i))"
proof (induction xs ys rule: list_induct2)
  case Nil
  then show ?case by simp
next
  case (Cons x xs y ys)
  have "(\<Sum>i<Suc (length xs). dot ((x # xs) ! i) ((y # ys) ! i))
          = dot x y + (\<Sum>i<length xs. dot (xs ! i) (ys ! i))"
    by (simp only: sum.lessThan_Suc_shift nth_Cons_0 nth_Cons_Suc)
  with Cons show ?case by simp
qed

lemma ftensordot_self: "ftensordot vs vs = fsum (map fnorm2 vs)"
  by (induction vs) (simp_all add: fsum_def fnorm2_def)

lemma fmul_commute: "fmul a b = fmul b a"
  by (cases a; cases b) (auto simp: mult.commute)

lemma map2_as_indices:
  assumes "length xs = length ys"
  shows "map2 f xs ys = map (\<lambda>i. f (xs ! i) (ys ! i)) [0..<length xs]"
  using assms by (intro nth_equalityI) simp_all

text \<open>
  C2. For two point sets of the same size, of at least two points, \<open>symmetry_measure\<close>
  returns the rotation \<open>R\<close> of \<open>find_rotation\<close>, the scale \<open>s\<close> that the specification
  gives in closed form, the sum of the dot products of the rotated distorted points with
  the perfect points divided by the sum of the squared norms of the rotated distorted
  points, and as measure 100 times the sum of the squared residuals
  \<open>\<parallel>p\<^sub>i - s\<cdot>R\<cdot>d\<^sub>i\<parallel>\<^sup>2\<close> divided by the sum of the squared norms of the perfect points.
\<close>

theorem symmetry_measure_is_spec_formula:
  assumes len: "length points_distorted = length points_perfect"
    and two: "2 \<le> length points_distorted"
  shows "\<exists>R. find_rotation sv points_distorted points_perfect = Inr R
     \<and> symmetry_measure sv points_distorted points_perfect
         = Inr \<lparr>symmetry_measure_of = spec_csm R points_distorted points_perfect,
                scaling_factor = Some (spec_scale R points_distorted points_perfect),
                rotation_matrix = Some R, translation_vector = None\<rparr>"
proof -
  let ?d = points_distorted and ?p = points_perfect
  obtain U S Vt where usv: "sv (outer_sum ?d ?p) = (U, S, Vt)" by (rule prod_cases3)
  define R where "R = matmul (transpose3 Vt) (transpose3 U)"
  have fr: "find_rotation sv ?d ?p = Inr R"
    using len usv by (simp add: find_rotation_Inr_iff R_def)
  let ?rot = "map (mat_vec R) ?d"
  have num: "tensordot ?rot ?p = (\<Sum>i<length ?p. dot (mat_vec R (?d ! i)) (?p ! i))"
    using len by (simp add: tensordot_sum)
  have den: "tensordot ?rot ?rot
               = (\<Sum>i<length ?p. dot (mat_vec R (?d ! i)) (mat_vec R (?d ! i)))"
    using len by (simp add: tensordot_sum)
  have scale: "fdiv (Fin (tensordot ?rot ?p)) (Fin (tensordot ?rot ?rot)) = spec_scale R ?d ?p"
    unfolding num den spec_scale_def ..
  have fs: "find_scaling_factor ?d ?p R = (spec_scale R ?d ?p, ?rot, ?p)"
    unfolding find_scaling_factor_def Let_def scale ..
  let ?s = "spec_scale R ?d ?p"
  let ?diff = "map2 fdiff ?p (map (fscale ?s) ?rot)"
  have diff: "?diff = map (\<lambda>i. fdiff (?p ! i) (fscale ?s (mat_vec R (?d ! i)))) [0..<length ?p]"
  proof -
    have "length ?p = length (map (fscale ?s) ?rot)" using len by simp
    from map2_as_indices[OF this, of fdiff]
    have "?diff = map (\<lambda>i. fdiff (?p ! i) (map (fscale ?s) ?rot ! i)) [0..<length ?p]" .
    also have "\<dots> = map (\<lambda>i. fdiff (?p ! i) (fscale ?s (mat_vec R (?d ! i)))) [0..<length ?p]"
      using len by (intro map_cong) simp_all
    finally show ?thesis .
  qed
  have pp: "tensordot ?p ?p = (\<Sum>i<length ?p. dot (?p ! i) (?p ! i))"
    by (simp add: tensordot_sum)
  have csm: "fmul (fdiv (ftensordot ?diff ?diff) (Fin (tensordot ?p ?p))) (Fin 100)
               = spec_csm R ?d ?p"
    unfolding ftensordot_self diff pp spec_csm_def
    by (simp add: fmul_commute comp_def)
  have ne: "length ?d \<noteq> 1" using two by simp
  have "symmetry_measure sv ?d ?p
         = Inr \<lparr>symmetry_measure_of = spec_csm R ?d ?p, scaling_factor = Some ?s,
                rotation_matrix = Some R, translation_vector = None\<rparr>"
    unfolding symmetry_measure_def using ne by (simp add: fr fs Let_def csm del: map_map)
  with fr show ?thesis by blast
qed


theorem symmetry_measure_is_spec_formula_witness:
  "\<exists>R. find_rotation diagonal_svd [vzero, (2, 0, 0), (- 2, 0, 0)] (vzero # linear_points) = Inr R
     \<and> symmetry_measure diagonal_svd [vzero, (2, 0, 0), (- 2, 0, 0)] (vzero # linear_points)
         = Inr \<lparr>symmetry_measure_of =
                  spec_csm R [vzero, (2, 0, 0), (- 2, 0, 0)] (vzero # linear_points),
                scaling_factor =
                  Some (spec_scale R [vzero, (2, 0, 0), (- 2, 0, 0)] (vzero # linear_points)),
                rotation_matrix = Some R, translation_vector = None\<rparr>"
proof -
  have len: "length [vzero, (2, 0, 0), (- 2, 0, 0)] = length (vzero # linear_points)"
    by (simp add: linear_points_def)
  have two: "2 \<le> length [vzero, (2, 0, 0), (- 2 :: real, 0 :: real, 0 :: real)]" by simp
  from symmetry_measure_is_spec_formula [OF len two] show ?thesis .
qed

section \<open>Algebra of the matrices\<close>

lemma matmul_assoc: "matmul (matmul A B) C = matmul A (matmul B C)"
  by (cases A rule: mat3_cases, cases B rule: mat3_cases, cases C rule: mat3_cases)
     (simp add: algebra_simps)

lemma transpose3_matmul: "transpose3 (matmul A B) = matmul (transpose3 B) (transpose3 A)"
  by (cases A rule: mat3_cases, cases B rule: mat3_cases) (simp add: algebra_simps)

lemma transpose3_transpose3 [simp]: "transpose3 (transpose3 A) = A"
  by (cases A rule: mat3_cases) simp

lemma matmul_ident_left [simp]: "matmul ident3 A = A"
  by (cases A rule: mat3_cases) (simp add: ident3_def)

lemma matmul_ident_right [simp]: "matmul A ident3 = A"
  by (cases A rule: mat3_cases) (simp add: ident3_def)

lemma det3_matmul: "det3 (matmul A B) = det3 A * det3 B"
  by (cases A rule: mat3_cases, cases B rule: mat3_cases) (simp add: algebra_simps)

lemma det3_transpose3 [simp]: "det3 (transpose3 A) = det3 A"
  by (cases A rule: mat3_cases) (simp add: algebra_simps)

lemma det3_ident3 [simp]: "det3 ident3 = 1"
  by (simp add: ident3_def)

lemma det3_diag3: "det3 (diag3 (a, b, c)) = a * b * c"
  by simp

lemma mat_vec_matmul: "mat_vec (matmul A B) v = mat_vec A (mat_vec B v)"
  by (cases A rule: mat3_cases, cases B rule: mat3_cases, cases v rule: vec3_cases)
     (simp add: algebra_simps)

lemma mat_vec_ident3 [simp]: "mat_vec ident3 v = v"
  by (cases v rule: vec3_cases) (simp add: ident3_def)

lemma dot_mat_vec: "dot (mat_vec A u) v = dot u (mat_vec (transpose3 A) v)"
  by (cases A rule: mat3_cases, cases u rule: vec3_cases, cases v rule: vec3_cases)
     (simp add: algebra_simps)

lemma orthogonal3_det: "orthogonal3 A \<Longrightarrow> det3 A = 1 \<or> det3 A = - 1"
proof -
  assume "orthogonal3 A"
  then have "det3 (matmul (transpose3 A) A) = 1" by (simp add: orthogonal3_def)
  then have "det3 A * det3 A = 1" by (simp add: det3_matmul)
  then show ?thesis by (metis mult_cancel_left2 mult_minus_right square_eq_1_iff
        mult.commute)
qed

lemma orthogonal3_transpose3: "orthogonal3 A \<Longrightarrow> orthogonal3 (transpose3 A)"
  by (simp add: orthogonal3_def)

lemma orthogonal3_matmul:
  assumes "orthogonal3 A" "orthogonal3 B"
  shows "orthogonal3 (matmul A B)"
proof -
  have "matmul (transpose3 (matmul A B)) (matmul A B)
          = matmul (transpose3 B) (matmul (matmul (transpose3 A) A) B)"
    by (simp add: transpose3_matmul matmul_assoc)
  also have "\<dots> = ident3" using assms by (simp add: orthogonal3_def)
  finally have l: "matmul (transpose3 (matmul A B)) (matmul A B) = ident3" .
  have "matmul (matmul A B) (transpose3 (matmul A B))
          = matmul A (matmul (matmul B (transpose3 B)) (transpose3 A))"
    by (simp add: transpose3_matmul matmul_assoc)
  also have "\<dots> = ident3" using assms by (simp add: orthogonal3_def)
  finally have r: "matmul (matmul A B) (transpose3 (matmul A B)) = ident3" .
  from l r show ?thesis by (simp add: orthogonal3_def)
qed

lemma orthogonal3_dot: "orthogonal3 A \<Longrightarrow> dot (mat_vec A u) (mat_vec A v) = dot u v"
proof -
  assume o: "orthogonal3 A"
  have "dot (mat_vec A u) (mat_vec A v) = dot u (mat_vec (matmul (transpose3 A) A) v)"
    by (simp add: dot_mat_vec mat_vec_matmul)
  with o show ?thesis by (simp add: orthogonal3_def)
qed

section \<open>The rotation of the aligner\<close>

lemma reflecting_rotation:
  assumes svd: "is_svd H (U, S, Vt)" and neg: "det3 H < 0"
  shows "det3 (matmul (transpose3 Vt) (transpose3 U)) = - 1"
proof -
  obtain a b c where S: "S = (a, b, c)" by (rule prod_cases3)
  from svd S have o: "orthogonal3 U" "orthogonal3 Vt"
    and s: "0 \<le> c" "c \<le> b" "b \<le> a"
    and h: "matmul (matmul U (diag3 (a, b, c))) Vt = H"
    by (simp_all add: is_svd_def)
  have "det3 H = det3 U * (a * b * c) * det3 Vt"
    unfolding h[symmetric] by (simp add: det3_matmul)
  then have d: "det3 H = (det3 U * det3 Vt) * (a * b * c)" by (simp add: algebra_simps)
  have nn: "0 \<le> a * b * c" using s by simp
  from orthogonal3_det[OF o(1)] orthogonal3_det[OF o(2)]
  have "det3 U * det3 Vt = 1 \<or> det3 U * det3 Vt = - 1" by auto
  then have "det3 U * det3 Vt = - 1"
  proof
    assume "det3 U * det3 Vt = 1"
    with d nn neg show ?thesis by simp
  qed simp
  then show ?thesis by (simp add: det3_matmul mult.commute)
qed

text \<open>
  C3. For two point sets of the same size, \<open>find_rotation\<close> returns \<open>V\<cdot>U\<^sup>T\<close>, that is
  \<open>Vt\<^sup>T\<cdot>U\<^sup>T\<close>, for the triple \<open>(U, S, Vt)\<close> that the singular value decomposition
  returns for the cross-covariance \<open>H = distorted\<^sup>T\<cdot>perfect\<close>. When \<open>U\<close> and \<open>Vt\<close> are
  orthogonal this matrix is the inverse of \<open>U\<cdot>Vt\<close>; and no correction makes it a proper
  rotation: whenever the triple is a singular value decomposition of \<open>H\<close> and the
  determinant of \<open>H\<close> is negative, the matrix returned has determinant \<open>-1\<close>. There are
  such inputs.
\<close>

theorem find_rotation_is_V_Ut:
  assumes len: "length points_distorted = length points_perfect"
    and usv: "sv (outer_sum points_distorted points_perfect) = (U, S, Vt)"
  shows "find_rotation sv points_distorted points_perfect
           = Inr (matmul (transpose3 Vt) (transpose3 U))
     \<and> matmul_T points_distorted points_perfect
           = Inr (outer_sum points_distorted points_perfect)
     \<and> (orthogonal3 U \<and> orthogonal3 Vt \<longrightarrow>
            matmul (matmul U Vt) (matmul (transpose3 Vt) (transpose3 U)) = ident3
            \<and> matmul (matmul (transpose3 Vt) (transpose3 U)) (matmul U Vt) = ident3)
     \<and> (is_svd (outer_sum points_distorted points_perfect) (U, S, Vt)
          \<and> det3 (outer_sum points_distorted points_perfect) < 0 \<longrightarrow>
            det3 (matmul (transpose3 Vt) (transpose3 U)) = - 1)
     \<and> det3 (outer_sum [(1, 0, 0), (0, 1, 0), (0, 0, 1)]
                         [(1, 0, 0), (0, 1, 0), (0, 0, - 1)]) < 0"
proof (intro conjI impI)
  show "find_rotation sv points_distorted points_perfect
           = Inr (matmul (transpose3 Vt) (transpose3 U))"
    using len usv by (simp add: find_rotation_Inr_iff)
  show "matmul_T points_distorted points_perfect
           = Inr (outer_sum points_distorted points_perfect)"
    using len by (simp add: matmul_T_def)
next
  assume o: "orthogonal3 U \<and> orthogonal3 Vt"
  have "matmul (matmul U Vt) (matmul (transpose3 Vt) (transpose3 U))
          = matmul U (matmul (matmul Vt (transpose3 Vt)) (transpose3 U))"
    by (simp add: matmul_assoc)
  with o show "matmul (matmul U Vt) (matmul (transpose3 Vt) (transpose3 U)) = ident3"
    by (simp add: orthogonal3_def)
  have "matmul (matmul (transpose3 Vt) (transpose3 U)) (matmul U Vt)
          = matmul (transpose3 Vt) (matmul (matmul (transpose3 U) U) Vt)"
    by (simp add: matmul_assoc)
  with o show "matmul (matmul (transpose3 Vt) (transpose3 U)) (matmul U Vt) = ident3"
    by (simp add: orthogonal3_def)
next
  assume "is_svd (outer_sum points_distorted points_perfect) (U, S, Vt)
          \<and> det3 (outer_sum points_distorted points_perfect) < 0"
  then show "det3 (matmul (transpose3 Vt) (transpose3 U)) = - 1"
    using reflecting_rotation by blast
next
  show "det3 (outer_sum [(1, 0, 0), (0, 1, 0), (0, 0, 1)]
                         [(1, 0, 0), (0, 1, 0), (0, 0, - 1)]) < 0"
    by (simp add: vzero_def)
qed

lemma diagonal_svd_reflection:
  "is_svd ((1, 0, 0), (0, 1, 0), (0, 0, - 1))
     (ident3, (1, 1, 1), ((1, 0, 0), (0, 1, 0), (0, 0, - 1)))"
  by (simp add: is_svd_def orthogonal3_def ident3_def)

theorem find_rotation_is_V_Ut_witness:
  "find_rotation diagonal_svd [(1, 0, 0), (0, 1, 0), (0, 0, 1)]
       [(1, 0, 0), (0, 1, 0), (0, 0, - 1)]
     = Inr ((1, 0, 0), (0, 1, 0), (0, 0, - 1))
   \<and> det3 ((1, 0, 0), (0, 1, 0), (0, 0, - 1)) = - 1
   \<and> matmul (matmul ident3 ((1, 0, 0), (0, 1, 0), (0, 0, - 1)))
        ((1, 0, 0), (0, 1, 0), (0, 0, - 1)) = ident3"
proof -
  let ?d = "[(1, 0, 0), (0, 1, 0), (0, 0, 1 :: real)] :: vec3 list"
  let ?p = "[(1, 0, 0), (0, 1, 0), (0, 0, - 1 :: real)] :: vec3 list"
  let ?V = "((1, 0, 0), (0, 1, 0), (0, 0, - 1)) :: mat3"
  have H: "outer_sum ?d ?p = ?V" by (simp add: vzero_def)
  have len: "length ?d = length ?p" by simp
  have usv: "diagonal_svd (outer_sum ?d ?p) = (ident3, (1, 1, 1), ?V)"
    unfolding H by (simp add: diagonal_svd_def)
  have o: "orthogonal3 ident3 \<and> orthogonal3 ?V"
    by (simp add: orthogonal3_def ident3_def)
  have s: "is_svd (outer_sum ?d ?p) (ident3, (1, 1, 1), ?V) \<and> det3 (outer_sum ?d ?p) < 0"
    unfolding H using diagonal_svd_reflection by simp
  have R: "matmul (transpose3 ?V) (transpose3 ident3) = ?V"
    by (simp add: ident3_def)
  from find_rotation_is_V_Ut
         [where sv = diagonal_svd and points_distorted = ?d and points_perfect = ?p
            and U = ident3 and S = "(1, 1, 1)" and Vt = ?V, OF len usv] o s
  show ?thesis
    unfolding R by simp
qed

section \<open>Sums over the points\<close>

lemma trace3_outer_step:
  "trace3 (matmul W (case a of (x, y, z) \<Rightarrow> case M of (r1, r2, r3) \<Rightarrow>
          (vadd (smult x b) r1, vadd (smult y b) r2, vadd (smult z b) r3)))
     = dot (mat_vec W a) b + trace3 (matmul W M)"
  by (cases W rule: mat3_cases, cases M rule: mat3_cases, cases a rule: vec3_cases,
      cases b rule: vec3_cases) (simp add: algebra_simps)

lemma trace3_matmul_zero: "trace3 (matmul W (vzero, vzero, vzero)) = 0"
  by (cases W rule: mat3_cases) (simp add: vzero_def)

lemma tensordot_rotated_trace:
  "tensordot (map (mat_vec W) d) p = trace3 (matmul W (outer_sum d p))"
proof (induction d arbitrary: p)
  case Nil
  then show ?case by (simp add: trace3_matmul_zero)
next
  case (Cons a as)
  show ?case
  proof (cases p)
    case Nil
    then show ?thesis by (simp add: trace3_matmul_zero)
  next
    case (Cons b bs)
    with Cons.IH[of bs] show ?thesis by (simp add: trace3_outer_step)
  qed
qed

lemma tensordot_rotated_self:
  "orthogonal3 R \<Longrightarrow> tensordot (map (mat_vec R) d) (map (mat_vec R) d) = tensordot d d"
  by (induction d) (simp_all add: orthogonal3_dot)

lemma dot_self_nonneg: "0 \<le> dot v v"
  by (cases v rule: vec3_cases) simp

lemma dot_self_zero_iff: "dot v v = 0 \<longleftrightarrow> v = vzero"
proof (cases v rule: vec3_cases)
  case (1 a b c)
  have "a * a + b * b + c * c = 0 \<longleftrightarrow> a = 0 \<and> b = 0 \<and> c = 0"
    by (smt (verit) mult_eq_0_iff not_sum_squares_lt_zero sum_squares_eq_zero_iff)
  with 1 show ?thesis by (simp add: vzero_def)
qed

lemma tensordot_self_nonneg: "0 \<le> tensordot xs xs"
  by (induction xs) (simp_all add: dot_self_nonneg)

lemma tensordot_self_zero_iff: "tensordot xs xs = 0 \<longleftrightarrow> (\<forall>v\<in>set xs. v = vzero)"
proof (induction xs)
  case Nil
  then show ?case by simp
next
  case (Cons x xs)
  have "dot x x + tensordot xs xs = 0 \<longleftrightarrow> dot x x = 0 \<and> tensordot xs xs = 0"
    using dot_self_nonneg[of x] tensordot_self_nonneg[of xs] by linarith
  with Cons show ?case by (simp add: dot_self_zero_iff)
qed

lemma tensordot_residual:
  "length r = length p \<Longrightarrow>
     tensordot (map2 vsub p (map (smult s) r)) (map2 vsub p (map (smult s) r))
       = tensordot p p - 2 * s * tensordot r p + s * s * tensordot r r"
proof (induction r p rule: list_induct2)
  case Nil
  then show ?case by simp
next
  case (Cons x xs y ys)
  have "dot (vsub y (smult s x)) (vsub y (smult s x))
          = dot y y - 2 * s * dot x y + s * s * dot x x"
    by (cases x rule: vec3_cases, cases y rule: vec3_cases) (simp add: algebra_simps)
  with Cons show ?case by (simp add: algebra_simps)
qed

lemma fdiff_fscale_Fin:
  "fdiff y (fscale (Fin s) x)
     = (case vsub y (smult s x) of (a, b, c) \<Rightarrow> (Fin a, Fin b, Fin c))"
  by (cases x rule: vec3_cases, cases y rule: vec3_cases) (simp add: fsub_def)

lemma fdot_Fin:
  "fdot (case v of (a, b, c) \<Rightarrow> (Fin a, Fin b, Fin c))
        (case w of (a, b, c) \<Rightarrow> (Fin a, Fin b, Fin c)) = Fin (dot v w)"
  by (cases v rule: vec3_cases, cases w rule: vec3_cases) simp

lemma ftensordot_residual_Fin:
  "length r = length p \<Longrightarrow>
     ftensordot (map2 fdiff p (map (fscale (Fin s)) r)) (map2 fdiff p (map (fscale (Fin s)) r))
       = Fin (tensordot (map2 vsub p (map (smult s) r)) (map2 vsub p (map (smult s) r)))"
proof (induction r p rule: list_induct2)
  case Nil
  then show ?case by simp
next
  case (Cons x xs y ys)
  then show ?case by (simp add: fdiff_fscale_Fin fdot_Fin)
qed

lemma residual_zero_iff:
  assumes "length r = length p"
  shows "tensordot (map2 vsub p (map (smult s) r)) (map2 vsub p (map (smult s) r)) = 0
     \<longleftrightarrow> p = map (smult s) r"
proof -
  have "(\<forall>v\<in>set (map2 vsub p (map (smult s) r)). v = vzero) \<longleftrightarrow> p = map (smult s) r"
    using assms
  proof (induction r p rule: list_induct2)
    case Nil
    then show ?case by simp
  next
    case (Cons x xs y ys)
    have "vsub y (smult s x) = vzero \<longleftrightarrow> y = smult s x"
      by (cases x rule: vec3_cases, cases y rule: vec3_cases) (auto simp: vzero_def)
    with Cons show ?case by simp
  qed
  then show ?thesis by (simp add: tensordot_self_zero_iff)
qed

section \<open>The trace against a singular value decomposition\<close>

lemma trace3_matmul_commute: "trace3 (matmul A B) = trace3 (matmul B A)"
  by (cases A rule: mat3_cases, cases B rule: mat3_cases) (simp add: algebra_simps)

lemma trace3_diag3 [simp]: "trace3 (diag3 (a, b, c)) = a + b + c"
  by simp

lemma square_le_one: "(x :: real) * x + y * y + z * z = 1 \<Longrightarrow> x \<le> 1"
proof -
  assume h: "x * x + y * y + z * z = 1"
  have "0 \<le> y * y" "0 \<le> z * z" by simp_all
  with h have "x * x \<le> 1" by linarith
  then have le: "x * x \<le> 1" .
  show ?thesis
  proof (rule ccontr)
    assume "\<not> x \<le> 1"
    then have "1 < x" by simp
    then have "1 * 1 < x * x" by (intro mult_strict_mono) simp_all
    with le show False by simp
  qed
qed

lemma orthogonal3_trace_bound:
  assumes o: "orthogonal3 Z" and s: "0 \<le> a" "0 \<le> b" "0 \<le> c"
  shows "trace3 (matmul Z (diag3 (a, b, c))) \<le> a + b + c"
proof -
  obtain z11 z12 z13 z21 z22 z23 z31 z32 z33 where
    Z: "Z = ((z11, z12, z13), (z21, z22, z23), (z31, z32, z33))"
    by (rule mat3_cases)
  from o have "matmul Z (transpose3 Z) = ident3" by (simp add: orthogonal3_def)
  then have r: "z11 * z11 + z12 * z12 + z13 * z13 = 1"
    "z21 * z21 + z22 * z22 + z23 * z23 = 1"
    "z31 * z31 + z32 * z32 + z33 * z33 = 1"
    unfolding Z by (simp_all add: ident3_def)
  have d: "z11 \<le> 1" "z22 \<le> 1" "z33 \<le> 1"
    using r square_le_one[of z11 z12 z13] square_le_one[of z22 z21 z23]
      square_le_one[of z33 z31 z32]
    by (simp_all add: algebra_simps)
  have "trace3 (matmul Z (diag3 (a, b, c))) = z11 * a + z22 * b + z33 * c"
    unfolding Z by simp
  also have "\<dots> \<le> 1 * a + 1 * b + 1 * c"
    using d s by (intro add_mono mult_right_mono) simp_all
  finally show ?thesis by simp
qed

lemma svd_trace_rotation:
  assumes "is_svd H (U, (a, b, c), Vt)"
  shows "trace3 (matmul (matmul (transpose3 Vt) (transpose3 U)) H) = a + b + c"
proof -
  from assms have o: "matmul (transpose3 U) U = ident3" "matmul Vt (transpose3 Vt) = ident3"
    and h: "H = matmul (matmul U (diag3 (a, b, c))) Vt"
    by (simp_all add: is_svd_def orthogonal3_def)
  have "matmul (matmul (transpose3 Vt) (transpose3 U)) H
          = matmul (transpose3 Vt) (matmul (matmul (matmul (transpose3 U) U) (diag3 (a, b, c))) Vt)"
    unfolding h by (simp only: matmul_assoc)
  also have "\<dots> = matmul (transpose3 Vt) (matmul (diag3 (a, b, c)) Vt)"
    by (simp only: o matmul_ident_left)
  finally have "trace3 (matmul (matmul (transpose3 Vt) (transpose3 U)) H)
          = trace3 (matmul (transpose3 Vt) (matmul (diag3 (a, b, c)) Vt))" by simp
  also have "\<dots> = trace3 (matmul (matmul (diag3 (a, b, c)) Vt) (transpose3 Vt))"
    by (rule trace3_matmul_commute)
  also have "\<dots> = trace3 (matmul (diag3 (a, b, c)) (matmul Vt (transpose3 Vt)))"
    by (simp only: matmul_assoc)
  also have "\<dots> = a + b + c" by (simp only: o matmul_ident_right trace3_diag3)
  finally show ?thesis .
qed

lemma svd_trace_bound:
  assumes svd: "is_svd H (U, (a, b, c), Vt)" and w: "orthogonal3 W"
  shows "trace3 (matmul W H) \<le> a + b + c"
proof -
  from svd have o: "orthogonal3 U" "orthogonal3 Vt" and s: "0 \<le> a" "0 \<le> b" "0 \<le> c"
    and h: "H = matmul (matmul U (diag3 (a, b, c))) Vt"
    by (auto simp: is_svd_def)
  let ?Z = "matmul (matmul Vt W) U"
  have z: "orthogonal3 ?Z" using o w by (intro orthogonal3_matmul)
  have "trace3 (matmul W H) = trace3 (matmul (matmul (matmul W U) (diag3 (a, b, c))) Vt)"
    unfolding h by (simp only: matmul_assoc)
  also have "\<dots> = trace3 (matmul Vt (matmul (matmul W U) (diag3 (a, b, c))))"
    by (rule trace3_matmul_commute)
  also have "\<dots> = trace3 (matmul ?Z (diag3 (a, b, c)))"
    by (simp only: matmul_assoc)
  also have "\<dots> \<le> a + b + c" using z s by (rule orthogonal3_trace_bound)
  finally show ?thesis .
qed

section \<open>The measure is non-negative, and zero exactly for a similarity transform\<close>

lemma mat_vec_smult: "mat_vec A (smult k v) = smult k (mat_vec A v)"
  by (cases A rule: mat3_cases, cases v rule: vec3_cases) (simp add: algebra_simps)

lemma smult_smult: "smult k (smult l v) = smult (k * l) v"
  by (cases v rule: vec3_cases) (simp add: algebra_simps)

lemma smult_one [simp]: "smult 1 v = v"
  by (cases v rule: vec3_cases) simp

lemma smult_zero [simp]: "smult 0 v = vzero"
  by (cases v rule: vec3_cases) (simp add: vzero_def)

lemma dot_smult_left: "dot (smult k u) v = k * dot u v"
  by (cases u rule: vec3_cases, cases v rule: vec3_cases) (simp add: algebra_simps)

lemma dot_smult_right: "dot u (smult k v) = k * dot u v"
  by (cases u rule: vec3_cases, cases v rule: vec3_cases) (simp add: algebra_simps)

lemma tensordot_similar_self:
  assumes "orthogonal3 Q"
  shows "tensordot (map (\<lambda>v. smult k (mat_vec Q v)) p) (map (\<lambda>v. smult k (mat_vec Q v)) p)
           = k * k * tensordot p p"
  by (induction p)
     (simp_all add: dot_smult_left dot_smult_right orthogonal3_dot[OF assms] algebra_simps)

lemma tensordot_similar_back:
  assumes "matmul W Q = ident3"
  shows "tensordot (map (mat_vec W) (map (\<lambda>v. smult k (mat_vec Q v)) p)) p = k * tensordot p p"
proof (induction p)
  case Nil
  then show ?case by simp
next
  case (Cons x xs)
  have "mat_vec W (smult k (mat_vec Q x)) = smult k (mat_vec (matmul W Q) x)"
    by (simp add: mat_vec_smult mat_vec_matmul)
  then have "mat_vec W (smult k (mat_vec Q x)) = smult k x" using assms by simp
  with Cons show ?case by (simp add: dot_smult_left algebra_simps)
qed

lemma not_all_zero_tensordot:
  "(\<exists>v\<in>set xs. v \<noteq> vzero) \<Longrightarrow> 0 < tensordot xs xs"
  using tensordot_self_nonneg[of xs] tensordot_self_zero_iff[of xs]
  by (metis less_eq_real_def)

lemma symmetry_measure_finite:
  assumes len: "length d = length p" and n1: "length d \<noteq> 1"
    and usv: "sv (outer_sum d p) = (U, S, Vt)"
    and R: "R = matmul (transpose3 Vt) (transpose3 U)"
    and r: "r = map (mat_vec R) d"
    and dz: "tensordot r r \<noteq> 0" and pz: "tensordot p p \<noteq> 0"
    and s: "s = tensordot r p / tensordot r r"
  shows "symmetry_measure sv d p =
     Inr \<lparr>symmetry_measure_of =
            Fin (tensordot (map2 vsub p (map (smult s) r)) (map2 vsub p (map (smult s) r))
                  / tensordot p p * 100),
          scaling_factor = Some (Fin s), rotation_matrix = Some R,
          translation_vector = None\<rparr>"
proof -
  have fr: "find_rotation sv d p = Inr R"
    by (simp add: find_rotation_Inr_iff len usv R)
  have lr: "length r = length p" by (simp add: r len)
  have fs: "find_scaling_factor d p R = (Fin s, r, p)"
    using dz by (simp add: find_scaling_factor_def Let_def r s)
  show ?thesis
    unfolding symmetry_measure_def using n1 pz
    by (simp add: fr fs Let_def ftensordot_residual_Fin[OF lr])
qed

lemma rotated_back:
  assumes o: "orthogonal3 R" and s: "s \<noteq> 0"
  shows "map (\<lambda>v. smult (1 / s) (mat_vec (transpose3 R) v)) (map (smult s) (map (mat_vec R) d)) = d"
proof -
  have "smult (1 / s) (mat_vec (transpose3 R) (smult s (mat_vec R x))) = x" for x
  proof -
    have "mat_vec (transpose3 R) (smult s (mat_vec R x))
            = smult s (mat_vec (matmul (transpose3 R) R) x)"
      by (simp add: mat_vec_smult mat_vec_matmul)
    also have "\<dots> = smult s x" using o by (simp add: orthogonal3_def)
    finally show ?thesis using s by (simp add: smult_smult)
  qed
  then show ?thesis by (simp add: comp_def)
qed

lemma square_sandwich:
  fixes t q :: real
  assumes "0 < q" "q \<le> t" "t * t \<le> q * q"
  shows "t * t = q * q"
proof -
  have "q * q \<le> t * t" using assms(1,2) by (intro mult_mono) simp_all
  with assms(3) show ?thesis by simp
qed




end
